(* ===== verification/Prelude.thy ===== *)
theory Prelude
  imports Main "HOL-Library.Multiset" "HOL-Library.Char_ord" "HOL-Library.List_Lexorder"
    "HOL-Library.Product_Lexorder"
begin

section \<open>Shared collections, type names and generic lemmas\<close>

text \<open>
  What every component of the development uses and no component owns: the names of the
  model's basic types, the \<open>named_theorems\<close> collections its proofs are driven by, and the
  generic facts about lists, multisets and stable sorting that several components share.
  A Go string is a byte sequence, so it is the type \<open>string\<close> (a list of 8-bit characters);
  the order on it (theories \<open>Char_ord\<close> and \<open>List_Lexorder\<close>) is Go's byte-wise \<open><\<close>.
\<close>

named_theorems status_simps "rewrite rules for the severity statuses"
named_theorems check_contract "facts that discharge the contract of a check"

type_synonym gostring = string

text \<open>Nanoseconds: both \<open>time.Duration\<close> and instants (relative to the Unix epoch).\<close>

type_synonym duration = int
type_synonym instant = int

subsection \<open>Lists\<close>

lemma filter_concat_map: "filter P (concat (map f xs)) = concat (map (\<lambda>x. filter P (f x)) xs)"
  by (induction xs) auto

lemma concat_eq_Nil_iff: "concat xss = [] \<longleftrightarrow> (\<forall>xs \<in> set xss. xs = [])"
  by (induction xss) auto

lemma concat_map_Nil: "(\<And>x. x \<in> set xs \<Longrightarrow> f x = []) \<Longrightarrow> concat (map f xs) = []"
  by (induction xs) auto

lemma concat_update_one:
  assumes "i < length xs" and "\<And>j. j < length xs \<Longrightarrow> j \<noteq> i \<Longrightarrow> f (xs ! j) = []"
  shows "concat (map f (xs[i := y])) = f y"
proof -
  have "concat (map f (xs[i := y])) =
      concat (map f (take i xs)) @ f y @ concat (map f (drop (Suc i) xs))"
    using assms(1) by (simp add: upd_conv_take_nth_drop)
  moreover have "concat (map f (take i xs)) = []"
    using assms by (intro concat_map_Nil) (force simp: in_set_conv_nth)
  moreover have "concat (map f (drop (Suc i) xs)) = []"
    using assms by (intro concat_map_Nil) (force simp: in_set_conv_nth)
  ultimately show ?thesis by simp
qed

lemma concat_nth_one:
  assumes "i < length xs" and "\<And>j. j < length xs \<Longrightarrow> j \<noteq> i \<Longrightarrow> f (xs ! j) = []"
  shows "concat (map f xs) = f (xs ! i)"
  using concat_update_one [of i xs f "xs ! i"] assms by simp

lemma sum_list_update_nat:
  "i < length xs \<Longrightarrow> sum_list (xs[i := y]) + xs ! i = sum_list xs + (y::nat)"
proof (induction xs arbitrary: i)
  case (Cons x xs)
  then show ?case by (cases i) (simp_all add: add.assoc)
qed simp

lemma sum_list_map_update_nat:
  assumes "i < length xs"
  shows "sum_list (map f (xs[i := y])) + f (xs ! i) = sum_list (map f xs) + (f y :: nat)"
  using sum_list_update_nat [of i "map f xs" "f y"] assms by (simp add: map_update)

lemma mset_concat_update:
  "i < length xs \<Longrightarrow>
     mset (concat (map f (xs[i := y]))) + mset (f (xs ! i)) = mset (concat (map f xs)) + mset (f y)"
proof (induction xs arbitrary: i)
  case (Cons x xs)
  then show ?case by (cases i) (simp_all add: add.assoc)
qed simp

lemma append_sep_eq:
  "x \<notin> set xs \<Longrightarrow> x \<notin> set xs' \<Longrightarrow> xs @ x # ys = xs' @ x # ys' \<longleftrightarrow> xs = xs' \<and> ys = ys'"
proof (induction xs arbitrary: xs')
  case Nil
  then show ?case by (cases xs') auto
next
  case (Cons a xs)
  then show ?case by (cases xs') auto
qed

subsection \<open>Stable sorting by a key\<close>

text \<open>
  \<open>sort_key\<close> is the model of Go's \<open>sort.SliceStable\<close> with a comparison that orders by a key:
  the result is a permutation, sorted by the key, and keeps elements of equal key in order,
  which determines it. For keys without duplicates it is also \<open>sort.Slice\<close>.
\<close>

lemma filter_eq_single: "distinct xs \<Longrightarrow> x \<in> set xs \<Longrightarrow> filter (\<lambda>y. x = y) xs = [x]"
  by (induction xs) (auto simp: filter_empty_conv)

lemma sort_key_perm_eq:
  assumes "mset xs = mset ys" and "distinct (map k xs)"
  shows "sort_key k xs = sort_key k ys"
proof (rule properties_for_sort_key)
  have inj: "inj_on k (set xs)" using assms(2) by (simp add: distinct_map)
  have dxs: "distinct xs" using assms(2) by (simp add: distinct_map)
  have dys: "distinct ys" using assms(1) dxs by (metis mset_eq_imp_distinct_iff)
  show "mset (sort_key k ys) = mset xs" using assms(1) by simp
  show "sorted (map k (sort_key k ys))" by simp
  fix x assume x: "x \<in> set (sort_key k ys)"
  have sxy: "set ys = set xs" using assms(1) by (metis set_mset_mset)
  have one: "filter (\<lambda>y. k x = k y) zs = [x]" if "distinct zs" "set zs = set xs" for zs
  proof -
    have xz: "x \<in> set zs" using x that(2) sxy by simp
    then have "filter (\<lambda>y. k x = k y) zs = filter (\<lambda>y. x = y) zs"
      using inj that(2) by (intro filter_cong) (auto dest: inj_onD)
    with that(1) xz show ?thesis by (simp add: filter_eq_single)
  qed
  show "filter (\<lambda>y. k x = k y) (sort_key k ys) = filter (\<lambda>y. k x = k y) xs"
    using one [of xs] one [of "sort_key k ys"] dxs dys sxy by simp
qed

end
