(* ===== verification/Result.thy ===== *)
theory Result
  imports Prelude
begin

section \<open>Findings, reports and the exit-code contract (internal/result/result.go)\<close>

text \<open>
  \<open>Status\<close> is a named string type in the source and findings read back from a baseline file
  may carry any string, so it is a string here, with the five constants of the source. A
  \<open>Finding\<close> and a \<open>Report\<close> are records with the fields of the Go structs (field names carry
  a prefix); the map \<open>Detail\<close> is an association list with distinct keys, in the order the
  code writes them. \<open>r_nil\<close> says whether an empty \<open>Findings\<close> is the nil slice, which JSON tells from
  an empty one. \<open>rank\<close>, \<open>Worst\<close> and \<open>ExitCode\<close> follow the source's switches and loop. The
  locale \<open>severity\<close> holds the algebra of "keep the first strictly worse element"; its
  interpretation on \<open>Worst\<close>'s loop gives the order-independence that the worker pool needs.
\<close>

type_synonym status = string

definition StatusOK :: status where "StatusOK = ''OK''"
definition StatusWarning :: status where "StatusWarning = ''WARN''"
definition StatusCritical :: status where "StatusCritical = ''CRIT''"
definition StatusUnknown :: status where "StatusUnknown = ''UNKNOWN''"
definition StatusSkipped :: status where "StatusSkipped = ''SKIP''"

lemmas status_defs =
  StatusOK_def StatusWarning_def StatusCritical_def StatusUnknown_def StatusSkipped_def

lemma status_distinct [simp, status_simps]:
  "StatusOK \<noteq> StatusWarning" "StatusOK \<noteq> StatusCritical" "StatusOK \<noteq> StatusUnknown"
  "StatusOK \<noteq> StatusSkipped" "StatusWarning \<noteq> StatusOK" "StatusWarning \<noteq> StatusCritical"
  "StatusWarning \<noteq> StatusUnknown" "StatusWarning \<noteq> StatusSkipped" "StatusCritical \<noteq> StatusOK"
  "StatusCritical \<noteq> StatusWarning" "StatusCritical \<noteq> StatusUnknown"
  "StatusCritical \<noteq> StatusSkipped" "StatusUnknown \<noteq> StatusOK" "StatusUnknown \<noteq> StatusWarning"
  "StatusUnknown \<noteq> StatusCritical" "StatusUnknown \<noteq> StatusSkipped" "StatusSkipped \<noteq> StatusOK"
  "StatusSkipped \<noteq> StatusWarning" "StatusSkipped \<noteq> StatusCritical"
  "StatusSkipped \<noteq> StatusUnknown"
  by (simp_all add: status_defs)

record finding =
  f_check :: string
  f_status :: status
  f_resource :: string
  f_message :: string
  f_detail :: "(string \<times> string) list"
  f_duration :: duration

record report =
  r_generated_at :: instant
  r_cluster :: string
  r_distro :: string
  r_findings :: "finding list"
  r_nil :: bool

text \<open>The zero \<open>time.Time\<close> (1 January of year 1) and the zero \<open>Report\<close>.\<close>

definition zero_time :: instant where
  "zero_time = - 62135596800 * 1000000000"

definition report0 :: report where
  "report0 = \<lparr>r_generated_at = zero_time, r_cluster = [], r_distro = [], r_findings = [],
     r_nil = True\<rparr>"

lemma report0_findings [simp]: "r_findings report0 = []"
  by (simp add: report0_def)

text \<open>A composite literal that names some fields leaves the others at their zero value.\<close>

definition finding0 :: finding where
  "finding0 = \<lparr>f_check = [], f_status = [], f_resource = [], f_message = [],
     f_detail = [], f_duration = 0\<rparr>"

definition mk_finding :: "string \<Rightarrow> status \<Rightarrow> string \<Rightarrow> string \<Rightarrow> finding" where
  "mk_finding chk st res msg =
     finding0\<lparr>f_check := chk, f_status := st, f_resource := res, f_message := msg\<rparr>"

lemma mk_finding_sel [simp]:
  "f_check (mk_finding c s r m) = c" "f_status (mk_finding c s r m) = s"
  "f_resource (mk_finding c s r m) = r" "f_message (mk_finding c s r m) = m"
  "f_detail (mk_finding c s r m) = []" "f_duration (mk_finding c s r m) = 0"
  by (simp_all add: mk_finding_def finding0_def)

definition rank :: "status \<Rightarrow> nat" where
  "rank s =
     (if s = StatusCritical then 3
      else if s = StatusWarning then 2
      else if s = StatusUnknown then 1
      else if s = StatusOK \<or> s = StatusSkipped then 0
      else 0)"

fun worst_loop :: "status \<Rightarrow> finding list \<Rightarrow> status" where
  "worst_loop worst [] = worst"
| "worst_loop worst (f # fs) =
     worst_loop (if rank (f_status f) > rank worst then f_status f else worst) fs"

definition Worst :: "report \<Rightarrow> status" where
  "Worst r = worst_loop StatusOK (r_findings r)"

definition ExitCode :: "report \<Rightarrow> bool \<Rightarrow> int" where
  "ExitCode r strict =
     (let w = Worst r in
      if w = StatusCritical then 1
      else if w = StatusWarning then (if strict then 2 else 0)
      else 0)"

subsection \<open>The algebra of keeping the worst element\<close>

locale severity =
  fixes rk :: "'s \<Rightarrow> nat"
    and sev :: "'f \<Rightarrow> 's"
    and worst :: "'s \<Rightarrow> 'f list \<Rightarrow> 's"
  assumes worst_Nil: "worst w [] = w"
    and worst_Cons: "worst w (f # fs) = worst (if rk (sev f) > rk w then sev f else w) fs"
begin

lemma rk_worst: "rk (worst w fs) = Max (insert (rk w) ((\<lambda>f. rk (sev f)) ` set fs))"
proof (induction fs arbitrary: w)
  case Nil
  show ?case by (simp add: worst_Nil)
next
  case (Cons f fs)
  let ?w = "if rk (sev f) > rk w then sev f else w"
  have "rk ?w = max (rk w) (rk (sev f))" by (simp add: max_def)
  then show ?case
    using Cons.IH [of ?w]
    by (cases "fs = []") (simp_all add: worst_Cons insert_commute Max_insert max.assoc max.commute)
qed

lemma worst_source: "worst w fs \<in> insert w (sev ` set fs)"
proof (induction fs arbitrary: w)
  case Nil
  show ?case by (simp add: worst_Nil)
next
  case (Cons f fs)
  show ?case
    using Cons.IH [of "if rk (sev f) > rk w then sev f else w"]
    by (auto simp: worst_Cons split: if_splits)
qed

lemma worst_upper: "f \<in> set fs \<Longrightarrow> rk (sev f) \<le> rk (worst w fs)"
  by (simp add: rk_worst)

lemma worst_lower: "rk w \<le> rk (worst w fs)"
  by (simp add: rk_worst)

lemma rk_worst_cong: "sev ` set fs = sev ` set gs \<Longrightarrow> rk (worst w fs) = rk (worst w gs)"
  by (simp add: rk_worst image_image [symmetric, of rk sev])

end

interpretation sv: severity rank f_status worst_loop
  by unfold_locales simp_all

subsection \<open>Ranks\<close>

lemma rank_simps [simp]:
  "rank StatusOK = 0" "rank StatusSkipped = 0" "rank StatusUnknown = 1"
  "rank StatusWarning = 2" "rank StatusCritical = 3"
  by (simp_all add: rank_def)

lemma rank_le_3: "rank s \<le> 3"
  by (simp add: rank_def)

lemma rank_eq_iff:
  "rank s = 3 \<longleftrightarrow> s = StatusCritical" "rank s = 2 \<longleftrightarrow> s = StatusWarning"
  "rank s = 1 \<longleftrightarrow> s = StatusUnknown"
  by (simp_all add: rank_def)

lemma rank_ge_2_iff: "2 \<le> rank s \<longleftrightarrow> s = StatusCritical \<or> s = StatusWarning"
  by (simp add: rank_def)

lemma worst_loop_crit_iff:
  "worst_loop StatusOK fs = StatusCritical \<longleftrightarrow> (\<exists>f \<in> set fs. f_status f = StatusCritical)"
proof
  assume "worst_loop StatusOK fs = StatusCritical"
  then show "\<exists>f \<in> set fs. f_status f = StatusCritical"
    using sv.worst_source [of StatusOK fs] by force
next
  assume "\<exists>f \<in> set fs. f_status f = StatusCritical"
  then have "3 \<le> rank (worst_loop StatusOK fs)"
    using sv.worst_upper [of _ fs StatusOK] by fastforce
  then show "worst_loop StatusOK fs = StatusCritical"
    using rank_le_3 [of "worst_loop StatusOK fs"] by (simp flip: rank_eq_iff(1))
qed

lemma worst_loop_warn_iff:
  "worst_loop StatusOK fs = StatusWarning \<longleftrightarrow>
     (\<exists>f \<in> set fs. f_status f = StatusWarning) \<and> (\<forall>f \<in> set fs. f_status f \<noteq> StatusCritical)"
proof
  assume w: "worst_loop StatusOK fs = StatusWarning"
  then have "StatusWarning \<in> f_status ` set fs"
    using sv.worst_source [of StatusOK fs] by simp
  moreover have "\<not> (\<exists>f \<in> set fs. f_status f = StatusCritical)"
    using w worst_loop_crit_iff [of fs] by simp
  ultimately show "(\<exists>f \<in> set fs. f_status f = StatusWarning) \<and>
      (\<forall>f \<in> set fs. f_status f \<noteq> StatusCritical)" by force
next
  assume r: "(\<exists>f \<in> set fs. f_status f = StatusWarning) \<and>
      (\<forall>f \<in> set fs. f_status f \<noteq> StatusCritical)"
  then have "2 \<le> rank (worst_loop StatusOK fs)"
    using sv.worst_upper [of _ fs StatusOK] by fastforce
  then show "worst_loop StatusOK fs = StatusWarning"
    using r worst_loop_crit_iff [of fs] by (auto simp: rank_ge_2_iff)
qed

lemma ExitCode_cases:
  "ExitCode r strict =
     (if \<exists>f \<in> set (r_findings r). f_status f = StatusCritical then 1
      else if strict \<and> (\<exists>f \<in> set (r_findings r). f_status f = StatusWarning) then 2
      else 0)"
  using worst_loop_crit_iff [of "r_findings r"] worst_loop_warn_iff [of "r_findings r"]
  by (auto simp: ExitCode_def Worst_def Let_def)

text \<open>The exit code reads the set of statuses only: order and multiplicity do not matter.\<close>

lemma ExitCode_status_set:
  assumes "f_status ` set (r_findings r) = f_status ` set (r_findings r')"
  shows "ExitCode r strict = ExitCode r' strict"
proof -
  have "(\<exists>f \<in> set (r_findings r). f_status f = s) \<longleftrightarrow> s \<in> f_status ` set (r_findings r)"
    for r :: report and s by auto
  then show ?thesis using assms by (simp add: ExitCode_cases)
qed

subsection \<open>Properties\<close>

text \<open>
  The exit-code contract of ADR-0006: the process exits 1 exactly when some finding is
  CRIT, 2 exactly when there is none, some finding is WARN and \<open>--strict\<close> is set, and 0
  otherwise; UNKNOWN and SKIP never change it.
\<close>

lemma exit_code_contract:
  "ExitCode r strict =
     (if StatusCritical \<in> f_status ` set (r_findings r) then 1
      else if strict \<and> StatusWarning \<in> f_status ` set (r_findings r) then 2
      else 0)"
proof -
  have "(\<exists>f \<in> set (r_findings r). f_status f = s) \<longleftrightarrow> s \<in> f_status ` set (r_findings r)" for s
    by auto
  then show ?thesis by (simp add: ExitCode_cases)
qed

text \<open>
  \<open>Worst\<close> is the maximum of the severity ranks: no finding ranks above it, and it is OK
  or the status of one of the findings.
\<close>

lemma worst_is_maximum:
  "(\<forall>f. f \<in> set (r_findings r) \<longrightarrow> rank (f_status f) \<le> rank (Worst r)) \<and>
   Worst r \<in> insert StatusOK (f_status ` set (r_findings r))"
  using sv.worst_upper [of _ "r_findings r" StatusOK] sv.worst_source [of StatusOK "r_findings r"]
  by (simp add: Worst_def)

lemma worst_is_maximum_example:
  "rank (f_status (mk_finding ''b'' StatusWarning [] [])) \<le>
   rank (Worst \<lparr>r_generated_at = 0, r_cluster = [], r_distro = [],
     r_findings = [mk_finding ''a'' StatusUnknown [] [], mk_finding ''b'' StatusWarning [] []],
     r_nil = False\<rparr>)"
  using worst_is_maximum
    [of "\<lparr>r_generated_at = 0, r_cluster = [], r_distro = [],
       r_findings = [mk_finding ''a'' StatusUnknown [] [], mk_finding ''b'' StatusWarning [] []],
     r_nil = False\<rparr>"]
  by simp

end
