(* ===== verification/Baseline.thy ===== *)
theory Baseline
  imports Result
begin

section \<open>Saved baselines (internal/result/baseline.go)\<close>

text \<open>
  Comparing a run with a saved one. The identity of a
  finding is the string \<open>Status|Check|Resource\<close>, built the same way in three places
  (\<open>result.Compare\<close>, \<open>watch.Key\<close>, \<open>cli.applyBaseline\<close>); the locale \<open>finding_identity\<close>
  states what its users rely on and is interpreted on each of the three.

  The file itself is in \<open>BaselineFile\<close>, its use by the command line in \<open>Cli\<close> and
  \<open>BaselineFlow\<close>.
\<close>

subsection \<open>The identity of a finding\<close>

definition compare_key :: "finding \<Rightarrow> string" where
  "compare_key f = f_status f @ ''|'' @ f_check f @ ''|'' @ f_resource f"

definition pipe_free :: "finding \<Rightarrow> bool" where
  "pipe_free f \<longleftrightarrow> CHR ''|'' \<notin> set (f_status f) \<and> CHR ''|'' \<notin> set (f_check f)"

definition same_identity :: "finding \<Rightarrow> finding \<Rightarrow> bool" where
  "same_identity f g \<longleftrightarrow>
     f_status f = f_status g \<and> f_check f = f_check g \<and> f_resource f = f_resource g"

locale finding_identity =
  fixes key :: "finding \<Rightarrow> string"
  assumes key_cong: "same_identity f g \<Longrightarrow> key f = key g"
    and key_inj: "pipe_free f \<Longrightarrow> pipe_free g \<Longrightarrow> key f = key g \<Longrightarrow> same_identity f g"
begin

lemma key_message: "key (f\<lparr>f_message := m\<rparr>) = key f"
  by (rule key_cong) (simp add: same_identity_def)

lemma key_duration: "key (f\<lparr>f_duration := d\<rparr>) = key f"
  by (rule key_cong) (simp add: same_identity_def)

lemma key_eq_iff: "pipe_free f \<Longrightarrow> pipe_free g \<Longrightarrow> key f = key g \<longleftrightarrow> same_identity f g"
  using key_cong key_inj by blast

lemma key_mem_iff:
  assumes "pipe_free f" and "\<forall>g \<in> set gs. pipe_free g"
  shows "key f \<in> key ` set gs \<longleftrightarrow> (\<exists>g \<in> set gs. same_identity f g)"
  using assms key_eq_iff by (auto simp: image_iff)

end

lemma pipe_split:
  assumes "CHR ''|'' \<notin> set s" "CHR ''|'' \<notin> set s'" "CHR ''|'' \<notin> set c" "CHR ''|'' \<notin> set c'"
    and "s @ ''|'' @ c @ ''|'' @ r = s' @ ''|'' @ c' @ ''|'' @ r'"
  shows "s = s' \<and> c = c' \<and> r = r'"
proof -
  have "s = s' \<and> c @ ''|'' @ r = c' @ ''|'' @ r'"
    using assms(1,2,5) by (simp add: append_sep_eq)
  then show ?thesis using assms(3,4) by (simp add: append_sep_eq)
qed

interpretation ck: finding_identity compare_key
proof
  fix f g :: finding
  show "compare_key f = compare_key g" if "same_identity f g"
    using that by (simp add: compare_key_def same_identity_def)
  show "same_identity f g" if "pipe_free f" "pipe_free g" "compare_key f = compare_key g"
    using that pipe_split [of "f_status f" "f_status g" "f_check f" "f_check g"]
    unfolding compare_key_def pipe_free_def same_identity_def by blast
qed

subsection \<open>Compare\<close>

record diff =
  d_new :: "finding list"
  d_cleared :: "finding list"
  d_persisting :: "finding list"

text \<open>The set built by a loop over a slice (\<open>baseSet\<close>, \<open>curSet\<close>).\<close>

fun key_set :: "(finding \<Rightarrow> string) \<Rightarrow> finding list \<Rightarrow> string set \<Rightarrow> string set" where
  "key_set k [] m = m"
| "key_set k (f # fs) m = key_set k fs (insert (k f) m)"

fun classify_cur :: "string set \<Rightarrow> finding list \<Rightarrow> diff \<Rightarrow> diff" where
  "classify_cur baseSet [] d = d"
| "classify_cur baseSet (f # fs) d =
     classify_cur baseSet fs
       (if compare_key f \<in> baseSet then d\<lparr>d_persisting := d_persisting d @ [f]\<rparr>
        else d\<lparr>d_new := d_new d @ [f]\<rparr>)"

fun classify_base :: "string set \<Rightarrow> finding list \<Rightarrow> diff \<Rightarrow> diff" where
  "classify_base curSet [] d = d"
| "classify_base curSet (f # fs) d =
     classify_base curSet fs
       (if compare_key f \<in> curSet then d else d\<lparr>d_cleared := d_cleared d @ [f]\<rparr>)"

definition Compare :: "finding list \<Rightarrow> finding list \<Rightarrow> diff" where
  "Compare base cur =
     (let baseSet = key_set compare_key base {};
          curSet = key_set compare_key cur {};
          d = classify_cur baseSet cur \<lparr>d_new = [], d_cleared = [], d_persisting = []\<rparr>
      in classify_base curSet base d)"

lemma key_set_eq: "key_set k fs m = m \<union> k ` set fs"
  by (induction fs arbitrary: m) auto

lemma classify_cur_eq:
  "classify_cur B fs d =
     d\<lparr>d_new := d_new d @ filter (\<lambda>f. compare_key f \<notin> B) fs,
       d_persisting := d_persisting d @ filter (\<lambda>f. compare_key f \<in> B) fs\<rparr>"
  by (induction fs arbitrary: d) auto

lemma classify_base_eq:
  "classify_base C fs d = d\<lparr>d_cleared := d_cleared d @ filter (\<lambda>f. compare_key f \<notin> C) fs\<rparr>"
  by (induction fs arbitrary: d) auto

lemma Compare_eq:
  "Compare base cur =
     \<lparr>d_new = filter (\<lambda>f. compare_key f \<notin> compare_key ` set base) cur,
      d_cleared = filter (\<lambda>f. compare_key f \<notin> compare_key ` set cur) base,
      d_persisting = filter (\<lambda>f. compare_key f \<in> compare_key ` set base) cur\<rparr>"
  by (simp add: Compare_def Let_def key_set_eq classify_cur_eq classify_base_eq)

lemma Compare_sel:
  "d_new (Compare base cur) = filter (\<lambda>f. compare_key f \<notin> compare_key ` set base) cur"
  "d_cleared (Compare base cur) = filter (\<lambda>f. compare_key f \<notin> compare_key ` set cur) base"
  "d_persisting (Compare base cur) = filter (\<lambda>f. compare_key f \<in> compare_key ` set base) cur"
  by (simp_all add: Compare_eq)

subsection \<open>Properties of Compare\<close>

text \<open>
  C16. \<open>Compare\<close> classifies by (Check, Resource, Status) and nothing else: for findings
  whose status and check id contain no \<open>|\<close>, a finding of the current run is New exactly when
  no baseline finding has the same three fields (so a changed message is never New), a
  baseline finding is Cleared exactly when no current one has them, and New and Persisting
  split the current findings, keeping their order.
\<close>

theorem compare_classifies:
  assumes "\<forall>f \<in> set base \<union> set cur. pipe_free f"
  shows "d_new (Compare base cur) = filter (\<lambda>f. \<not> (\<exists>g \<in> set base. same_identity f g)) cur \<and>
         d_persisting (Compare base cur) = filter (\<lambda>f. \<exists>g \<in> set base. same_identity f g) cur \<and>
         d_cleared (Compare base cur) = filter (\<lambda>f. \<not> (\<exists>g \<in> set cur. same_identity f g)) base"
  using assms ck.key_mem_iff unfolding Compare_sel by (intro conjI filter_cong) auto

theorem compare_classifies_witness:
  "d_new (Compare [mk_finding ''a'' StatusOK ''x'' ''old'']
      [mk_finding ''a'' StatusOK ''x'' ''new'', mk_finding ''b'' StatusCritical ''y'' []]) =
     [mk_finding ''b'' StatusCritical ''y'' []]"
  using compare_classifies [of "[mk_finding ''a'' StatusOK ''x'' ''old'']"
      "[mk_finding ''a'' StatusOK ''x'' ''new'', mk_finding ''b'' StatusCritical ''y'' []]"]
  by (simp add: same_identity_def pipe_free_def status_defs)

end
