(* ===== verification/GoLib.thy ===== *)
theory GoLib
  imports Prelude Complex_Main
begin

section \<open>What the program uses of Go's standard library\<close>

text \<open>
  Number formatting (\<open>%d\<close>, \<open>strconv.Itoa\<close>, \<open>strconv.Atoi\<close>), \<open>%q\<close>, string helpers, durations
  (\<open>Duration.String\<close>, \<open>Duration.Round\<close>, \<open>Time.Sub\<close>) and \<open>float64\<close> arithmetic. Strings are byte
  strings. Two limits: \<open>%q\<close> is exact on ASCII and passes bytes from 128 up (UTF-8 text is
  printed as it is), and \<open>TrimSpace\<close> knows the ASCII spaces.

  A finite \<open>float64\<close> in the normal range is the rational it denotes; every operation is the
  exact one followed by \<open>rnd\<close>, round to nearest even at 53 bits. The values of the program are
  ratios of 64-bit integers, far from overflow and from the subnormal range.
\<close>

subsection \<open>Integers and strings\<close>

definition digit :: "int \<Rightarrow> char" where
  "digit d = char_of (48 + d)"

fun digits :: "int \<Rightarrow> string" where
  "digits n = (if n < 10 then [digit n] else digits (n div 10) @ [digit (n mod 10)])"

declare digits.simps [simp del]

definition itoa :: "int \<Rightarrow> string" where
  "itoa i = (if i < 0 then ''-'' @ digits (- i) else digits i)"

definition wrap64 :: "int \<Rightarrow> int" where
  "wrap64 i = (i + 2 ^ 63) mod 2 ^ 64 - 2 ^ 63"

definition hex_digit :: "nat \<Rightarrow> char" where
  "hex_digit d = char_of (if d < 10 then 48 + d else 87 + d)"

definition quote_char :: "char \<Rightarrow> string" where
  "quote_char c =
     (let n = of_char c :: nat in
      if n = 34 then [CHR 0x5C, CHR 0x22]
      else if n = 92 then [CHR 0x5C, CHR 0x5C]
      else if n = 7 then [CHR 0x5C, CHR ''a'']
      else if n = 8 then [CHR 0x5C, CHR ''b'']
      else if n = 12 then [CHR 0x5C, CHR ''f'']
      else if n = 10 then [CHR 0x5C, CHR ''n'']
      else if n = 13 then [CHR 0x5C, CHR ''r'']
      else if n = 9 then [CHR 0x5C, CHR ''t'']
      else if n = 11 then [CHR 0x5C, CHR ''v'']
      else if n < 32 \<or> n = 127 then [CHR 0x5C, CHR ''x'', hex_digit (n div 16), hex_digit (n mod 16)]
      else [c])"

definition quote :: "string \<Rightarrow> string" where
  "quote s = [CHR 0x22] @ concat (map quote_char s) @ [CHR 0x22]"

fun join :: "string \<Rightarrow> string list \<Rightarrow> string" where
  "join sep [] = []"
| "join sep [s] = s"
| "join sep (s # t # ss) = s @ sep @ join sep (t # ss)"

text \<open>\<open>%v\<close> of a slice of strings.\<close>

definition fmt_strings :: "string list \<Rightarrow> string" where
  "fmt_strings ss = ''['' @ join '' '' ss @ '']''"

fun has_substring :: "string \<Rightarrow> string \<Rightarrow> bool" where
  "has_substring [] p \<longleftrightarrow> p = []"
| "has_substring (c # s) p \<longleftrightarrow> take (length p) (c # s) = p \<or> has_substring s p"

definition is_space :: "char \<Rightarrow> bool" where
  "is_space c \<longleftrightarrow> c \<in> {CHR '' '', CHR 0x09, CHR 0x0A, CHR 0x0B, CHR 0x0C, CHR 0x0D}"

definition trim_space :: "string \<Rightarrow> string" where
  "trim_space s = rev (dropWhile is_space (rev (dropWhile is_space s)))"

definition trim_right :: "string \<Rightarrow> string \<Rightarrow> string" where
  "trim_right s cutset = rev (dropWhile (\<lambda>c. c \<in> set cutset) (rev s))"

definition trim_prefix :: "string \<Rightarrow> string \<Rightarrow> string" where
  "trim_prefix s p = (if take (length p) s = p then drop (length p) s else s)"

text \<open>\<open>strings.Split\<close> with a separator of one byte.\<close>

fun split_on :: "char \<Rightarrow> string \<Rightarrow> string list" where
  "split_on sep [] = [[]]"
| "split_on sep (c # s) =
     (if c = sep then [] # split_on sep s
      else case split_on sep s of [] \<Rightarrow> [[c]] | p # ps \<Rightarrow> (c # p) # ps)"

lemma split_on_none: "sep \<notin> set s \<Longrightarrow> split_on sep s = [s]"
  by (induction s) auto

lemma split_on_line: "sep \<notin> set s \<Longrightarrow> split_on sep (s @ sep # t) = s # split_on sep t"
  by (induction s) (auto split: list.split)

definition is_digit :: "char \<Rightarrow> bool" where
  "is_digit c \<longleftrightarrow> 48 \<le> (of_char c :: int) \<and> (of_char c :: int) \<le> 57"

definition digits_value :: "string \<Rightarrow> int" where
  "digits_value s = foldl (\<lambda>v c. 10 * v + (of_char c - 48)) 0 s"

definition atoi_error :: "string \<Rightarrow> string \<Rightarrow> string" where
  "atoi_error s why = ''strconv.Atoi: parsing '' @ quote s @ '': '' @ why"

definition atoi :: "string \<Rightarrow> string + int" where
  "atoi s =
     (let neg = (take 1 s = ''-'');
          body = (if take 1 s = ''-'' \<or> take 1 s = ''+'' then drop 1 s else s);
          v = digits_value body
      in if body = [] \<or> \<not> list_all is_digit body then Inl (atoi_error s ''invalid syntax'')
         else if \<not> neg \<and> v \<ge> 2 ^ 63 \<or> neg \<and> v > 2 ^ 63 then Inl (atoi_error s ''value out of range'')
         else Inr (if neg then - v else v))"

subsection \<open>Durations and instants\<close>

definition max_duration :: duration where "max_duration = 2 ^ 63 - 1"
definition min_duration :: duration where "min_duration = - (2 ^ 63)"

definition Second :: duration where "Second = 1000000000"
definition Minute :: duration where "Minute = 60 * 1000000000"
definition Hour :: duration where "Hour = 3600 * 1000000000"

lemmas duration_units = Second_def Minute_def Hour_def

text \<open>\<open>Time.Sub\<close> saturates.\<close>

definition time_sub :: "instant \<Rightarrow> instant \<Rightarrow> duration" where
  "time_sub t u =
     (if t - u > max_duration then max_duration
      else if t - u < min_duration then min_duration else t - u)"

text \<open>\<open>Duration.Round\<close>: half away from zero, saturating; Go's \<open>%\<close> truncates.\<close>

definition duration_round :: "duration \<Rightarrow> duration \<Rightarrow> duration" where
  "duration_round d m =
     (if m \<le> 0 then d
      else if d < 0 then
        let r = (- d) mod m in
        if 2 * r < m then d + r
        else if d - m + r \<ge> min_duration then d - m + r else min_duration
      else
        let r = d mod m in
        if 2 * r < m then d - r
        else if d + m - r \<le> max_duration then d + m - r else max_duration)"

definition frac_string :: "int \<Rightarrow> nat \<Rightarrow> string" where
  "frac_string v prec =
     (let ds = digits (v mod 10 ^ prec);
          padded = replicate (prec - length ds) (CHR ''0'') @ ds;
          cut = rev (dropWhile (\<lambda>c. c = CHR ''0'') (rev padded))
      in if v mod 10 ^ prec = 0 then [] else ''.'' @ cut)"

definition duration_string :: "duration \<Rightarrow> string" where
  "duration_string d =
     (let u = \<bar>d\<bar>;
          body =
            (if u = 0 then ''0s''
             else if u < 1000 then digits u @ ''ns''
             else if u < 1000000 then digits (u div 1000) @ frac_string u 3 @ [CHR 0xC2, CHR 0xB5, CHR ''s'']
             else if u < 1000000000 then digits (u div 1000000) @ frac_string u 6 @ ''ms''
             else
               let secs = u div 1000000000; mins = secs div 60; hours = mins div 60;
                   s = digits (secs mod 60) @ frac_string u 9 @ ''s''
               in (if hours > 0 then digits hours @ ''h'' @ digits (mins mod 60) @ ''m'' @ s
                   else if mins > 0 then digits mins @ ''m'' @ s
                   else s))
      in if d < 0 then ''-'' @ body else body)"

subsection \<open>Printing and reading integers\<close>

lemma digit_value: "0 \<le> d \<Longrightarrow> d < 10 \<Longrightarrow> (of_char (digit d) :: int) = 48 + d"
  by (simp add: digit_def)

lemma is_digit_digit: "0 \<le> d \<Longrightarrow> d < 10 \<Longrightarrow> is_digit (digit d)"
  by (simp add: is_digit_def digit_value)

lemma digit_not_space: "is_digit c \<Longrightarrow> \<not> is_space c"
  by (auto simp: is_digit_def is_space_def)

lemma digits_value_snoc: "digits_value (s @ [c]) = 10 * digits_value s + (of_char c - 48)"
  by (simp add: digits_value_def)

lemma digits_spec:
  "0 \<le> n \<Longrightarrow> digits n \<noteq> [] \<and> list_all is_digit (digits n) \<and> digits_value (digits n) = n"
proof (induction n rule: digits.induct)
  case (1 n)
  show ?case
  proof (cases "n < 10")
    case True
    then have "digits n = [digit n]" by (simp add: digits.simps [of n])
    then show ?thesis using True "1.prems" digits_value_snoc [of "[]" "digit n"]
      by (simp add: is_digit_digit digit_value digits_value_def)
  next
    case False
    then have ih: "list_all is_digit (digits (n div 10))" "digits_value (digits (n div 10)) = n div 10"
      using 1 by auto
    have d: "digits n = digits (n div 10) @ [digit (n mod 10)]"
      using False by (simp add: digits.simps [of n])
    show ?thesis
      unfolding d digits_value_snoc using ih by (simp add: is_digit_digit digit_value)
  qed
qed

lemma digits_no_sign:
  assumes "0 \<le> n"
  shows "take 1 (digits n) \<noteq> ''-''" and "take 1 (digits n) \<noteq> ''+''"
proof -
  obtain c cs where "digits n = c # cs" "is_digit c"
    using digits_spec [OF assms] by (cases "digits n") auto
  then show "take 1 (digits n) \<noteq> ''-''" "take 1 (digits n) \<noteq> ''+''"
    by (auto simp: is_digit_def)
qed

lemma atoi_digits: "0 \<le> n \<Longrightarrow> n < 2 ^ 63 \<Longrightarrow> atoi (digits n) = Inr n"
  using digits_spec [of n] digits_no_sign [of n] by (simp add: atoi_def Let_def)

lemma atoi_itoa:
  assumes "- (2 ^ 63) \<le> i" and "i < 2 ^ 63"
  shows "atoi (itoa i) = Inr i"
proof (cases "i < 0")
  case True
  then show ?thesis using digits_spec [of "- i"] assms by (simp add: atoi_def itoa_def Let_def)
next
  case False
  then show ?thesis using atoi_digits [of i] assms by (simp add: itoa_def)
qed

lemma digits_chars:
  assumes "0 \<le> n" and "\<not> is_digit c"
  shows "c \<notin> set (digits n)"
  using digits_spec [OF assms(1)] assms(2) by (auto simp: list_all_iff)

end
