(* ===== verification/Runes.thy ===== *)
theory Runes
  imports GoLib "HOL-Library.Sublist"
begin

section \<open>UTF-8: counting and slicing runes\<close>

text \<open>
  A Go string is a list of bytes. \<open>runes\<close> cuts it as \<open>range\<close> and \<open>utf8.RuneCountInString\<close> do:
  one piece per encoded rune, a byte that starts no encoding being a piece of its own.
  \<open>rune_string\<close> is \<open>string([]rune)\<close>, which writes U+FFFD for such a byte. The lemmas let counts be
  added: cutting a string before a byte that continues nothing cuts its runes.
\<close>

subsection \<open>Definitions\<close>

definition byte :: "char \<Rightarrow> nat" where "byte c = of_char c"

definition between :: "nat \<Rightarrow> nat \<Rightarrow> char \<Rightarrow> bool" where
  "between lo hi c \<longleftrightarrow> lo \<le> byte c \<and> byte c \<le> hi"

abbreviation continuation :: "char \<Rightarrow> bool" where
  "continuation \<equiv> between 0x80 0xBF"

text \<open>The range of the second byte, by the first one.\<close>

definition second_ok :: "char \<Rightarrow> char \<Rightarrow> bool" where
  "second_ok c d =
     (if byte c = 0xE0 then between 0xA0 0xBF d
      else if byte c = 0xED then between 0x80 0x9F d
      else if byte c = 0xF0 then between 0x90 0xBF d
      else if byte c = 0xF4 then between 0x80 0x8F d
      else continuation d)"

definition encoded :: "string \<Rightarrow> bool" where
  "encoded r =
     (case r of
        [c] \<Rightarrow> byte c < 0x80
      | [c, d] \<Rightarrow> between 0xC2 0xDF c \<and> continuation d
      | [c, d, e] \<Rightarrow> between 0xE0 0xEF c \<and> second_ok c d \<and> continuation e
      | [c, d, e, f] \<Rightarrow> between 0xF0 0xF4 c \<and> second_ok c d \<and> continuation e \<and> continuation f
      | _ \<Rightarrow> False)"

definition rune_len :: "string \<Rightarrow> nat" where
  "rune_len s =
     (if encoded (take 2 s) then length (take 2 s)
      else if encoded (take 3 s) then length (take 3 s)
      else if encoded (take 4 s) then length (take 4 s)
      else 1)"

lemma encoded_length: "encoded r \<Longrightarrow> 1 \<le> length r \<and> length r \<le> 4"
  by (auto simp: encoded_def split: list.splits)

lemma rune_len_pos: "0 < rune_len s"
  using encoded_length by (fastforce simp: rune_len_def)

function runes :: "string \<Rightarrow> string list" where
  "runes s = (if s = [] then [] else take (rune_len s) s # runes (drop (rune_len s) s))"
  by auto
termination
  by (relation "measure length") (use rune_len_pos in \<open>auto simp: Suc_le_eq\<close>)

declare runes.simps [simp del]

definition rune_count :: "string \<Rightarrow> nat" where
  "rune_count s = length (runes s)"

definition rune_string :: "string list \<Rightarrow> string" where
  "rune_string rs = concat (map (\<lambda>r. if encoded r then r else [CHR 0xEF, CHR 0xBF, CHR 0xBD]) rs)"

text \<open>\<open>unicode.IsSpace\<close>.\<close>

definition wide_spaces :: "string list" where
  "wide_spaces =
     [[CHR 0xC2, CHR 0x85], [CHR 0xC2, CHR 0xA0], [CHR 0xE1, CHR 0x9A, CHR 0x80],
      [CHR 0xE2, CHR 0x80, CHR 0x80], [CHR 0xE2, CHR 0x80, CHR 0x81], [CHR 0xE2, CHR 0x80, CHR 0x82],
      [CHR 0xE2, CHR 0x80, CHR 0x83], [CHR 0xE2, CHR 0x80, CHR 0x84], [CHR 0xE2, CHR 0x80, CHR 0x85],
      [CHR 0xE2, CHR 0x80, CHR 0x86], [CHR 0xE2, CHR 0x80, CHR 0x87], [CHR 0xE2, CHR 0x80, CHR 0x88],
      [CHR 0xE2, CHR 0x80, CHR 0x89], [CHR 0xE2, CHR 0x80, CHR 0x8A], [CHR 0xE2, CHR 0x80, CHR 0xA8],
      [CHR 0xE2, CHR 0x80, CHR 0xA9], [CHR 0xE2, CHR 0x80, CHR 0xAF], [CHR 0xE2, CHR 0x81, CHR 0x9F],
      [CHR 0xE3, CHR 0x80, CHR 0x80]]"

definition space_rune :: "string \<Rightarrow> bool" where
  "space_rune r \<longleftrightarrow> (case r of [c] \<Rightarrow> is_space c | _ \<Rightarrow> r \<in> set wide_spaces)"

text \<open>\<open>strings.Fields\<close>: the maximal runs of runes that are not space.\<close>

fun fields_loop :: "string list \<Rightarrow> string \<Rightarrow> string list" where
  "fields_loop [] word = (if word = [] then [] else [word])"
| "fields_loop (r # rs) word =
     (if space_rune r then (if word = [] then fields_loop rs [] else word # fields_loop rs [])
      else fields_loop rs (word @ r))"

definition Fields :: "string \<Rightarrow> string list" where
  "Fields s = fields_loop (runes s) []"

subsection \<open>Cutting a string into runes\<close>

lemma encoded_head:
  "encoded p \<Longrightarrow> p \<noteq> [] \<and> length p =
     (if byte (hd p) < 0x80 then 1 else if byte (hd p) < 0xE0 then 2 else if byte (hd p) < 0xF0 then 3 else 4)"
  by (auto simp: encoded_def between_def split: list.splits)

lemma encoded_tail:
  assumes "encoded p" and "0 < i" and "i < length p"
  shows "continuation (p ! i)"
proof -
  have "second_ok c d \<Longrightarrow> continuation d" for c d
    by (auto simp: second_ok_def between_def split: if_splits)
  then show ?thesis
    using assms by (cases i; cases "i - 1"; cases "i - 2")
      (auto simp: encoded_def nth_Cons' split: list.splits)
qed

lemma encoded_prefix_len:
  assumes "encoded p" and "prefix p s"
  shows "rune_len s = length p"
proof -
  obtain t where s: "s = p @ t" using assms(2) by (auto simp: prefix_def)
  have p: "p \<noteq> []" and len: "length p \<le> 4" using encoded_head [OF assms(1)] by auto
  have unique: "length q = length p" if "encoded q" "prefix q s" for q
  proof -
    from that(2) obtain u where "s = q @ u" by (auto simp: prefix_def)
    then have "hd q = hd p" using s p encoded_head [OF that(1)] by (metis hd_append2)
    then show ?thesis using encoded_head [OF that(1)] encoded_head [OF assms(1)] by simp
  qed
  have pre: "prefix (take n s) s" for n by (rule take_is_prefix)
  have "take (length p) s = p" by (simp add: s)
  moreover have "length p \<noteq> 0" using p by simp
  then have "length p = 1 \<or> length p = 2 \<or> length p = 3 \<or> length p = 4" using len by linarith
  ultimately show ?thesis
    using unique [OF _ pre, of 2] unique [OF _ pre, of 3] unique [OF _ pre, of 4] assms(1)
    by (elim disjE) (auto simp: rune_len_def)
qed

lemma rune_len_cases: "s \<noteq> [] \<Longrightarrow> encoded (take (rune_len s) s) \<or> rune_len s = 1"
  by (auto simp: rune_len_def min_def)

lemma rune_len_le: "s \<noteq> [] \<Longrightarrow> rune_len s \<le> length s"
  by (auto simp: rune_len_def Suc_le_eq)

lemma rune_len_prefix:
  assumes "prefix s' s" and "s' \<noteq> []" and "rune_len s \<le> length s'"
  shows "rune_len s' = rune_len s"
proof (cases "encoded (take (rune_len s) s)")
  case True
  then have "prefix (take (rune_len s) s) s'"
    using assms(3) by (intro prefix_length_prefix [OF take_is_prefix assms(1)]) simp
  from encoded_prefix_len [OF True this] show ?thesis
    using encoded_prefix_len [OF True take_is_prefix] by simp
next
  case False
  moreover have "s \<noteq> []" using assms(1,2) by auto
  ultimately have "rune_len s = 1" using rune_len_cases [of s] by blast
  moreover have "encoded (take (rune_len s') s') \<Longrightarrow> rune_len s = length (take (rune_len s') s')"
    by (rule encoded_prefix_len) (use prefix_order.trans [OF take_is_prefix assms(1)] in simp_all)
  ultimately show ?thesis
    using rune_len_cases [OF assms(2)] rune_len_le [OF assms(2)] by auto
qed

lemma concat_runes [simp]: "concat (runes s) = s"
  by (induction s rule: runes.induct) (subst runes.simps, simp)

lemma runes_Nil [simp]: "runes [] = []"
  by (simp add: runes.simps)

lemma runes_nonempty: "r \<in> set (runes s) \<Longrightarrow> r \<noteq> []"
proof (induction s rule: runes.induct)
  case (1 s)
  then show ?case using rune_len_pos [of s] by (subst (asm) (2) runes.simps) (auto split: if_splits)
qed

lemma runes_cut: "s \<noteq> [] \<Longrightarrow> runes s = take (rune_len s) s # runes (drop (rune_len s) s)"
  by (subst runes.simps) simp

lemma runes_append:
  assumes "t = [] \<or> \<not> continuation (hd t)"
  shows "runes (s @ t) = runes s @ runes t"
proof (induction s rule: runes.induct)
  case (1 s)
  show ?case
  proof (cases "s = []")
    case False
    have n: "rune_len (s @ t) = rune_len s"
    proof (cases "rune_len (s @ t) \<le> length s")
      case True
      then show ?thesis using rune_len_prefix [of s "s @ t"] False by simp
    next
      case far: False
      then have "rune_len (s @ t) \<noteq> 1" using False by (cases s) auto
      then have e: "encoded (take (rune_len (s @ t)) (s @ t))" using rune_len_cases [of "s @ t"] False by auto
      have "length s < length (take (rune_len (s @ t)) (s @ t))" "t \<noteq> []"
        using far rune_len_le [of "s @ t"] False by auto
      then have "continuation (take (rune_len (s @ t)) (s @ t) ! length s)" "t \<noteq> []"
        using encoded_tail [OF e, of "length s"] False by auto
      then have "continuation (hd t)" using far by (simp add: nth_append hd_conv_nth)
      then show ?thesis using assms \<open>t \<noteq> []\<close> by simp
    qed
    have "rune_len s \<le> length s" by (rule rune_len_le [OF False])
    then show ?thesis
      using 1 [OF False] False n by (simp add: runes_cut)
  qed simp
qed

lemma runes_suffix: "runes s = a @ b \<Longrightarrow> runes (concat b) = b"
proof (induction s arbitrary: a rule: runes.induct)
  case (1 s)
  show ?case
  proof (cases a)
    case Nil
    then show ?thesis using "1.prems" concat_runes [of s] by simp
  next
    case (Cons r a')
    then have "s \<noteq> []" using "1.prems" by auto
    then show ?thesis using 1 Cons by (simp add: runes_cut)
  qed
qed

lemma runes_prefix: "runes s = a @ b \<Longrightarrow> runes (concat a) = a"
proof (induction s arbitrary: a rule: runes.induct)
  case (1 s)
  show ?case
  proof (cases a)
    case (Cons r a')
    then have ne: "s \<noteq> []" using "1.prems" by auto
    then have r: "r = take (rune_len s) s" "runes (drop (rune_len s) s) = a' @ b"
      using "1.prems" Cons by (simp_all add: runes_cut)
    have ih: "runes (concat a') = a'" by (rule "1.IH" [OF ne r(2)])
    have len: "length r = rune_len s" using r(1) rune_len_le [OF ne] by simp
    have rne: "r \<noteq> []" using r(1) ne rune_len_pos [of s] by simp
    have "concat (a @ b) = s" using "1.prems" concat_runes [of s] by simp
    then have "prefix (concat a) s" by auto
    then have n: "rune_len (concat a) = length r"
      using rune_len_prefix [of "concat a" s] Cons rne len by simp
    then show ?thesis using Cons ih rne by (subst runes_cut) simp_all
  qed simp
qed

lemma runes_sublist: "sublist w (runes s) \<Longrightarrow> runes (concat w) = w"
proof -
  assume "sublist w (runes s)"
  then obtain a b where "runes s = a @ (w @ b)" by (auto simp: sublist_def)
  then have "runes (concat (w @ b)) = w @ b" by (rule runes_suffix)
  then show ?thesis by (rule runes_prefix)
qed

lemma runes_encoded: "list_all encoded rs \<Longrightarrow> runes (concat rs) = rs"
proof (induction rs)
  case (Cons r rs)
  then have "rune_len (r @ concat rs) = length r" by (intro encoded_prefix_len) simp_all
  moreover have "r \<noteq> []" using Cons.prems encoded_head by auto
  ultimately show ?case using Cons by (simp add: runes_cut)
qed simp

lemma rune_count_rune_string: "rune_count (rune_string rs) = length rs"
proof -
  have "encoded [CHR 0xEF, CHR 0xBF, CHR 0xBD]" by code_simp
  then have "list_all encoded (map (\<lambda>r. if encoded r then r else [CHR 0xEF, CHR 0xBF, CHR 0xBD]) rs)"
    by (auto simp: list_all_iff)
  then show ?thesis by (simp add: rune_count_def rune_string_def runes_encoded)
qed

lemma rune_string_encoded: "list_all encoded rs \<Longrightarrow> rune_string rs = concat rs"
  by (induction rs) (simp_all add: rune_string_def)

lemma rune_count_append:
  "t = [] \<or> \<not> continuation (hd t) \<Longrightarrow> rune_count (s @ t) = rune_count s + rune_count t"
  by (simp add: rune_count_def runes_append)

lemma runes_Cons_ascii: "byte c < 0x80 \<Longrightarrow> runes (c # s) = [c] # runes s"
proof -
  assume "byte c < 0x80"
  then have "rune_len (c # s) = length [c]" by (intro encoded_prefix_len) (simp_all add: encoded_def)
  then show ?thesis by (simp add: runes_cut)
qed

lemma rune_count_ascii: "\<forall>c \<in> set s. byte c < 0x80 \<Longrightarrow> rune_count s = length s"
  by (induction s) (simp_all add: rune_count_def runes_Cons_ascii)

lemma rune_count_spaces [simp]: "rune_count (replicate n (CHR '' '')) = n"
  by (subst rune_count_ascii) (simp_all add: byte_def)

subsection \<open>Fields\<close>

text \<open>
  The words of a string: each is a non-empty stretch of its runes without space, and together
  they are all the runes that are not space.
\<close>

lemma fields_loop_words:
  assumes "\<forall>r \<in> set (w0 @ rs). r \<noteq> []" and "\<forall>r \<in> set w0. \<not> space_rune r"
  shows "\<exists>ws. fields_loop rs (concat w0) = map concat ws \<and>
     concat ws = w0 @ filter (\<lambda>r. \<not> space_rune r) rs \<and>
     (\<forall>w \<in> set ws. w \<noteq> [] \<and> sublist w (w0 @ rs) \<and> (\<forall>r \<in> set w. \<not> space_rune r))"
  using assms
proof (induction rs arbitrary: w0)
  case Nil
  show ?case
  proof (cases w0)
    case (Cons r w)
    then show ?thesis using Nil by (intro exI [of _ "[w0]"]) auto
  qed simp
next
  case (Cons r rs)
  have empty: "concat w0 = [] \<longleftrightarrow> w0 = []" using Cons.prems(1) by (cases w0) auto
  show ?case
  proof (cases "space_rune r")
    case False
    obtain ws where "fields_loop rs (concat (w0 @ [r])) = map concat ws"
      "concat ws = (w0 @ [r]) @ filter (\<lambda>r. \<not> space_rune r) rs"
      "\<forall>w \<in> set ws. w \<noteq> [] \<and> sublist w ((w0 @ [r]) @ rs) \<and> (\<forall>r \<in> set w. \<not> space_rune r)"
      using Cons.IH [of "w0 @ [r]"] Cons.prems False by auto
    then show ?thesis using False by (intro exI [of _ ws]) simp
  next
    case True
    obtain ws where ws: "fields_loop rs [] = map concat ws"
      "concat ws = filter (\<lambda>r. \<not> space_rune r) rs"
      "\<forall>w \<in> set ws. w \<noteq> [] \<and> sublist w rs \<and> (\<forall>r \<in> set w. \<not> space_rune r)"
      using Cons.IH [of "[]"] Cons.prems by auto
    have sub: "sublist w (w0 @ r # rs)" if "sublist w rs" for w
    proof -
      from that obtain a b where "rs = a @ w @ b" by (auto simp: sublist_def)
      then have "w0 @ r # rs = (w0 @ r # a) @ w @ b" by simp
      then show ?thesis unfolding sublist_def by blast
    qed
    have "sublist w0 (w0 @ r # rs)" by simp
    then show ?thesis
      using True ws sub Cons.prems(2) empty
      by (intro exI [of _ "if w0 = [] then ws else w0 # ws"]) auto
  qed
qed

lemma Fields_words:
  obtains ws where "Fields s = map concat ws" "concat ws = filter (\<lambda>r. \<not> space_rune r) (runes s)"
    "\<And>w. w \<in> set ws \<Longrightarrow> w \<noteq> [] \<and> runes (concat w) = w \<and> (\<forall>r \<in> set w. \<not> space_rune r)"
proof -
  have "\<exists>ws. fields_loop (runes s) (concat []) = map concat ws \<and>
     concat ws = [] @ filter (\<lambda>r. \<not> space_rune r) (runes s) \<and>
     (\<forall>w \<in> set ws. w \<noteq> [] \<and> sublist w ([] @ runes s) \<and> (\<forall>r \<in> set w. \<not> space_rune r))"
    by (rule fields_loop_words) (auto dest: runes_nonempty)
  then show ?thesis using that runes_sublist unfolding Fields_def by fastforce
qed

end
