(* ===== verification/Json.thy ===== *)
theory Json
  imports Runes
begin

section \<open>JSON text (what the program uses of encoding/json)\<close>

text \<open>
  The printer of \<open>json.Marshal\<close>, \<open>json.MarshalIndent(v, "", "  ")\<close> and \<open>json.Encoder\<close>, and the
  parser of \<open>json.Unmarshal\<close> up to the value it hands to the decoder of a struct. Both work on
  the runes of a text: the printer writes a list of runes, the lexer reads one, and a token
  machine with an explicit stack (the \<open>parseState\<close> of the scanner, at most 10000 deep) builds
  the value. Go's printer escapes \<open><\<close>, \<open>>\<close>, \<open>&\<close>, U+2028 and U+2029 and writes an invalid byte as
  \<open>\ufffd\<close>; its parser reads an invalid byte and a lone surrogate as U+FFFD. \<open>parse_print\<close>: parsing
  what was printed gives the value back, its strings coerced to UTF-8 (\<open>clean\<close>).
\<close>

text \<open>\<open>JNum\<close> is a number that is not an integer literal, kept as its text.\<close>

datatype json =
    JNull
  | JBool bool
  | JInt int
  | JNum string
  | JStr string
  | JArr "json list"
  | JObj "(string \<times> json) list"

subsection \<open>Printing\<close>

definition singles :: "string \<Rightarrow> string list" where
  "singles s = map (\<lambda>c. [c]) s"

definition escape_u :: "nat \<Rightarrow> string" where
  "escape_u n = [CHR 0x5C, CHR ''u'', hex_digit (n div 4096), hex_digit (n div 256 mod 16),
     hex_digit (n div 16 mod 16), hex_digit (n mod 16)]"

definition escape_char :: "char \<Rightarrow> string" where
  "escape_char c =
     (let n = byte c in
      if n = 0x22 \<or> n = 0x5C then [CHR 0x5C, c]
      else if n = 8 then [CHR 0x5C, CHR ''b'']
      else if n = 12 then [CHR 0x5C, CHR ''f'']
      else if n = 10 then [CHR 0x5C, CHR ''n'']
      else if n = 13 then [CHR 0x5C, CHR ''r'']
      else if n = 9 then [CHR 0x5C, CHR ''t'']
      else if n < 32 \<or> n = 0x3C \<or> n = 0x3E \<or> n = 0x26 then escape_u n
      else [c])"

definition replacement :: string where
  "replacement = [CHR 0xEF, CHR 0xBF, CHR 0xBD]"

definition escape_rune :: "string \<Rightarrow> string list" where
  "escape_rune r =
     (if \<not> encoded r then singles (escape_u 0xFFFD)
      else if r = [CHR 0xE2, CHR 0x80, CHR 0xA8] then singles (escape_u 0x2028)
      else if r = [CHR 0xE2, CHR 0x80, CHR 0xA9] then singles (escape_u 0x2029)
      else case r of [c] \<Rightarrow> singles (escape_char c) | _ \<Rightarrow> [r])"

definition print_string :: "string \<Rightarrow> string list" where
  "print_string s = [[CHR 0x22]] @ concat (map escape_rune (runes s)) @ [[CHR 0x22]]"

text \<open>\<open>ind\<close>: with an indentation of two spaces, or compact.\<close>

definition newline :: "bool \<Rightarrow> nat \<Rightarrow> string list" where
  "newline ind d = (if ind then singles (CHR 0x0A # replicate (2 * d) (CHR '' '')) else [])"

definition print_colon :: "bool \<Rightarrow> string list" where
  "print_colon ind = (if ind then singles '': '' else singles '':'')"

fun print_json :: "bool \<Rightarrow> nat \<Rightarrow> json \<Rightarrow> string list"
and print_elems :: "bool \<Rightarrow> nat \<Rightarrow> json list \<Rightarrow> string list"
and print_members :: "bool \<Rightarrow> nat \<Rightarrow> (string \<times> json) list \<Rightarrow> string list" where
  "print_json ind d JNull = singles ''null''"
| "print_json ind d (JBool b) = singles (if b then ''true'' else ''false'')"
| "print_json ind d (JInt i) = singles (itoa i)"
| "print_json ind d (JNum s) = singles s"
| "print_json ind d (JStr s) = print_string s"
| "print_json ind d (JArr js) =
     (if js = [] then singles ''[]''
      else singles ''['' @ print_elems ind (Suc d) js @ newline ind d @ singles '']'')"
| "print_json ind d (JObj kvs) =
     (if kvs = [] then singles ''{}''
      else singles ''{'' @ print_members ind (Suc d) kvs @ newline ind d @ singles ''}'')"
| "print_elems ind d [] = []"
| "print_elems ind d (j # js) =
     newline ind d @ print_json ind d j @ (if js = [] then [] else singles '','') @ print_elems ind d js"
| "print_members ind d [] = []"
| "print_members ind d ((k, j) # kvs) =
     newline ind d @ print_string k @ print_colon ind @ print_json ind d j @
       (if kvs = [] then [] else singles '','') @ print_members ind d kvs"

definition Marshal :: "json \<Rightarrow> string" where
  "Marshal j = concat (print_json False 0 j)"

definition MarshalIndent :: "json \<Rightarrow> string" where
  "MarshalIndent j = concat (print_json True 0 j)"

text \<open>\<open>Encoder.Encode\<close> after \<open>SetIndent("", "  ")\<close>.\<close>

definition Encode :: "json \<Rightarrow> string" where
  "Encode j = MarshalIndent j @ [CHR 0x0A]"

subsection \<open>Lexing\<close>

definition hex_value :: "char \<Rightarrow> nat option" where
  "hex_value c =
     (if between 48 57 c then Some (byte c - 48)
      else if between 97 102 c then Some (byte c - 87)
      else if between 65 70 c then Some (byte c - 55)
      else None)"

fun hex4 :: "string list \<Rightarrow> nat option" where
  "hex4 ([a] # [b] # [c] # [d] # rs) =
     (case (hex_value a, hex_value b, hex_value c, hex_value d) of
        (Some p, Some q, Some r, Some s) \<Rightarrow> Some (4096 * p + 256 * q + 16 * r + s)
      | _ \<Rightarrow> None)"
| "hex4 _ = None"

definition utf8 :: "nat \<Rightarrow> string" where
  "utf8 n =
     (if n < 0x80 then [char_of n]
      else if n < 0x800 then [char_of (0xC0 + n div 64), char_of (0x80 + n mod 64)]
      else if n < 0x10000 then
        [char_of (0xE0 + n div 4096), char_of (0x80 + n div 64 mod 64), char_of (0x80 + n mod 64)]
      else [char_of (0xF0 + n div 262144), char_of (0x80 + n div 4096 mod 64),
        char_of (0x80 + n div 64 mod 64), char_of (0x80 + n mod 64)])"

text \<open>
  The runes after \<open>\u\<close>: what the escape stands for and how many of them it takes. A high surrogate
  needs the escape of a low one after it.
\<close>

definition low_half :: "string list \<Rightarrow> nat option" where
  "low_half rs =
     (if take 2 rs = [[CHR 0x5C], [CHR ''u'']]
      then (case hex4 (drop 2 rs) of
              Some m \<Rightarrow> if 0xDC00 \<le> m \<and> m < 0xE000 then Some m else None
            | None \<Rightarrow> None)
      else None)"

definition unescape_u :: "string list \<Rightarrow> (string \<times> nat) option" where
  "unescape_u rs =
     (case hex4 rs of
        None \<Rightarrow> None
      | Some n \<Rightarrow>
          if n < 0xD800 \<or> 0xE000 \<le> n then Some (utf8 n, 4)
          else (case (if n < 0xDC00 then low_half (drop 4 rs) else None) of
                  Some m \<Rightarrow> Some (utf8 (0x10000 + (n - 0xD800) * 0x400 + (m - 0xDC00)), 10)
                | None \<Rightarrow> Some (replacement, 4)))"

definition unescape :: "string \<Rightarrow> string option" where
  "unescape e =
     (case e of
        [c] \<Rightarrow>
          if c = CHR 0x22 \<or> c = CHR 0x5C \<or> c = CHR ''/'' then Some [c]
          else if c = CHR ''b'' then Some [CHR 0x08]
          else if c = CHR ''f'' then Some [CHR 0x0C]
          else if c = CHR ''n'' then Some [CHR 0x0A]
          else if c = CHR ''r'' then Some [CHR 0x0D]
          else if c = CHR ''t'' then Some [CHR 0x09]
          else None
      | _ \<Rightarrow> None)"

definition control_rune :: "string \<Rightarrow> bool" where
  "control_rune r \<longleftrightarrow> (case r of [c] \<Rightarrow> byte c < 32 | _ \<Rightarrow> False)"

text \<open>The rest of a string literal: its value and the runes after its closing quote.\<close>

abbreviation put_front :: "string \<Rightarrow> (string \<times> 'a) option \<Rightarrow> (string \<times> 'a) option" where
  "put_front p \<equiv> map_option (apfst ((@) p))"

function scan_str :: "string list \<Rightarrow> (string \<times> string list) option" where
  "scan_str [] = None"
| "scan_str (r # rs) =
     (if r = [CHR 0x22] then Some ([], rs)
      else if r = [CHR 0x5C] then
        (case rs of
           [] \<Rightarrow> None
         | e # rs' \<Rightarrow>
             (if e = [CHR ''u''] then
                (case unescape_u rs' of
                   None \<Rightarrow> None
                 | Some (p, n) \<Rightarrow> put_front p (scan_str (drop n rs')))
              else
                (case unescape e of
                   None \<Rightarrow> None
                 | Some p \<Rightarrow> put_front p (scan_str rs'))))
      else if control_rune r then None
      else put_front (if encoded r then r else replacement) (scan_str rs))"
  by pat_completeness auto
termination by (relation "measure length") auto

lemma scan_str_length: "scan_str rs = Some (s, rs') \<Longrightarrow> length rs' < length rs"
proof (induction rs arbitrary: s rule: scan_str.induct)
  case (2 r rs)
  then show ?case
    by (fastforce split: if_splits list.splits option.splits prod.splits)
qed simp

datatype token =
    TOpenArr | TCloseArr | TOpenObj | TCloseObj | TComma | TColon
  | TScalar json

definition num_rune :: "string \<Rightarrow> bool" where
  "num_rune r \<longleftrightarrow> (case r of [c] \<Rightarrow> c \<in> set ''0123456789+-.eE'' | _ \<Rightarrow> False)"

definition int_digits :: "string \<Rightarrow> bool" where
  "int_digits b \<longleftrightarrow> b \<noteq> [] \<and> list_all is_digit b \<and> (hd b = CHR ''0'' \<longrightarrow> length b = 1)"

definition exponent_ok :: "string \<Rightarrow> bool" where
  "exponent_ok e \<longleftrightarrow>
     (case e of
        [] \<Rightarrow> True
      | c # s \<Rightarrow>
          (c = CHR ''e'' \<or> c = CHR ''E'') \<and>
          (let d = (if take 1 s = ''+'' \<or> take 1 s = ''-'' then drop 1 s else s)
           in d \<noteq> [] \<and> list_all is_digit d))"

definition fraction_ok :: "string \<Rightarrow> bool" where
  "fraction_ok t \<longleftrightarrow>
     (if take 1 t = ''.'' then
        takeWhile is_digit (drop 1 t) \<noteq> [] \<and> exponent_ok (dropWhile is_digit (drop 1 t))
      else exponent_ok t)"

definition json_number :: "string \<Rightarrow> json option" where
  "json_number s =
     (let neg = (take 1 s = ''-''); b = (if neg then drop 1 s else s);
          i = takeWhile is_digit b; t = dropWhile is_digit b
      in if \<not> int_digits i then None
         else if t = [] then Some (JInt (if neg then - digits_value i else digits_value i))
         else if fraction_ok t then Some (JNum s)
         else None)"

definition space_json :: "string \<Rightarrow> bool" where
  "space_json r \<longleftrightarrow> r = '' '' \<or> r = [CHR 0x09] \<or> r = [CHR 0x0A] \<or> r = [CHR 0x0D]"

definition punct :: "string \<Rightarrow> token option" where
  "punct r =
     (if r = ''['' then Some TOpenArr
      else if r = '']'' then Some TCloseArr
      else if r = ''{'' then Some TOpenObj
      else if r = ''}'' then Some TCloseObj
      else if r = '','' then Some TComma
      else if r = '':'' then Some TColon
      else None)"

abbreviation put_token :: "token \<Rightarrow> token list option \<Rightarrow> token list option" where
  "put_token t \<equiv> map_option ((#) t)"

function lex :: "string list \<Rightarrow> token list option" where
  "lex [] = Some []"
| "lex (r # rs) =
     (if space_json r then lex rs
      else case punct r of
        Some t \<Rightarrow> put_token t (lex rs)
      | None \<Rightarrow>
          if r = [CHR 0x22] then
            (case scan_str rs of
               None \<Rightarrow> None
             | Some (s, rs') \<Rightarrow> put_token (TScalar (JStr s)) (lex rs'))
          else if num_rune r then
            (case json_number (concat (r # takeWhile num_rune rs)) of
               None \<Rightarrow> None
             | Some j \<Rightarrow> put_token (TScalar j) (lex (dropWhile num_rune rs)))
          else if take 4 (r # rs) = singles ''true'' then put_token (TScalar (JBool True)) (lex (drop 3 rs))
          else if take 5 (r # rs) = singles ''false'' then put_token (TScalar (JBool False)) (lex (drop 4 rs))
          else if take 4 (r # rs) = singles ''null'' then put_token (TScalar JNull) (lex (drop 3 rs))
          else None)"
  by pat_completeness auto
termination
  by (relation "measure length")
    (auto simp: le_imp_less_Suc length_dropWhile_le dest: scan_str_length)

declare lex.simps(2) [simp del] scan_str.simps(2) [simp del]

subsection \<open>The token machine\<close>

datatype frame = FArr "json list" | FObj "(string \<times> json) list" string

datatype expect = EValue | EFirst | EKey | EColon | EAfter | EEnd json

type_synonym scanner = "expect \<times> frame list"

fun put_value :: "json \<Rightarrow> frame list \<Rightarrow> scanner" where
  "put_value j [] = (EEnd j, [])"
| "put_value j (FArr js # fs) = (EAfter, FArr (js @ [j]) # fs)"
| "put_value j (FObj kvs k # fs) = (EAfter, FObj (kvs @ [(k, j)]) k # fs)"

definition push :: "frame \<Rightarrow> frame list \<Rightarrow> scanner option" where
  "push f fs = (if length fs < 10000 then Some (EFirst, f # fs) else None)"

fun value_step :: "token \<Rightarrow> frame list \<Rightarrow> scanner option" where
  "value_step (TScalar j) fs = Some (put_value j fs)"
| "value_step TOpenArr fs = push (FArr []) fs"
| "value_step TOpenObj fs = push (FObj [] []) fs"
| "value_step _ fs = None"

fun key_step :: "token \<Rightarrow> frame list \<Rightarrow> scanner option" where
  "key_step (TScalar (JStr k)) (FObj kvs _ # fs) = Some (EColon, FObj kvs k # fs)"
| "key_step _ _ = None"

fun close_step :: "token \<Rightarrow> frame list \<Rightarrow> scanner option" where
  "close_step TCloseArr (FArr js # fs) = Some (put_value (JArr js) fs)"
| "close_step TCloseObj (FObj kvs _ # fs) = Some (put_value (JObj kvs) fs)"
| "close_step _ _ = None"

fun first_step :: "token \<Rightarrow> frame list \<Rightarrow> scanner option" where
  "first_step t (FArr js # fs) =
     (if t = TCloseArr then close_step t (FArr js # fs) else value_step t (FArr js # fs))"
| "first_step t (FObj kvs k # fs) =
     (if t = TCloseObj then close_step t (FObj kvs k # fs) else key_step t (FObj kvs k # fs))"
| "first_step t [] = None"

fun after_step :: "token \<Rightarrow> frame list \<Rightarrow> scanner option" where
  "after_step TComma (FArr js # fs) = Some (EValue, FArr js # fs)"
| "after_step TComma (FObj kvs k # fs) = Some (EKey, FObj kvs k # fs)"
| "after_step t fs = close_step t fs"

fun token_step :: "token \<Rightarrow> scanner \<Rightarrow> scanner option" where
  "token_step t (EValue, fs) = value_step t fs"
| "token_step t (EFirst, fs) = first_step t fs"
| "token_step t (EKey, fs) = key_step t fs"
| "token_step t (EColon, fs) = (if t = TColon then Some (EValue, fs) else None)"
| "token_step t (EAfter, fs) = after_step t fs"
| "token_step t (EEnd j, fs) = None"

fun run_tokens :: "scanner \<Rightarrow> token list \<Rightarrow> json option" where
  "run_tokens (e, fs) [] = (case e of EEnd j \<Rightarrow> Some j | _ \<Rightarrow> None)"
| "run_tokens s (t # ts) = (case token_step t s of None \<Rightarrow> None | Some s' \<Rightarrow> run_tokens s' ts)"

definition json_parse :: "string \<Rightarrow> json option" where
  "json_parse s = Option.bind (lex (runes s)) (run_tokens (EValue, []))"


subsection \<open>Reading back a string\<close>

text \<open>What a string becomes on its way through JSON.\<close>

definition to_utf8 :: "string \<Rightarrow> string" where
  "to_utf8 s = rune_string (runes s)"

lemma concat_singles [simp]: "concat (singles s) = s"
  by (induction s) (simp_all add: singles_def)

lemma singles_simps [simp]:
  "singles [] = []" "singles (c # s) = [c] # singles s" "singles (s @ t) = singles s @ singles t"
  by (simp_all add: singles_def)

lemma encoded_ascii: "encoded [c] \<longleftrightarrow> byte c < 0x80"
  by (simp add: encoded_def)

lemma encoded_singles: "list_all encoded (singles s) \<longleftrightarrow> list_all (\<lambda>c. byte c < 0x80) s"
  by (induction s) (simp_all add: encoded_ascii)

lemma byte_char_of: "n < 256 \<Longrightarrow> byte (char_of n) = n"
  by (simp add: byte_def)

lemma char_of_byte [simp]: "char_of (byte c) = c"
  by (simp add: byte_def)

lemma byte_less: "byte c < 256"
  by (simp add: byte_def)

lemma byte_eq_iff: "byte c = byte d \<longleftrightarrow> c = d"
  by (metis char_of_byte)

lemma byte_Char: "byte (Char b0 b1 b2 b3 b4 b5 b6 b7) = of_char (Char b0 b1 b2 b3 b4 b5 b6 b7)"
  by (simp add: byte_def)

lemma byte_is: "byte c = n \<longleftrightarrow> n < 256 \<and> c = char_of n"
  using byte_less [of c] by (auto simp: byte_char_of)

lemma char_codes: "char_of (0x22 :: nat) = CHR 0x22" "char_of (0x5C :: nat) = CHR 0x5C"
  "char_of (8 :: nat) = CHR 0x08" "char_of (12 :: nat) = CHR 0x0C" "char_of (10 :: nat) = CHR 0x0A"
  "char_of (13 :: nat) = CHR 0x0D" "char_of (9 :: nat) = CHR 0x09"
  "char_of (0xEF :: nat) = CHR 0xEF" "char_of (0xBF :: nat) = CHR 0xBF" "char_of (0xBD :: nat) = CHR 0xBD"
  "char_of (0xE2 :: nat) = CHR 0xE2" "char_of (0x80 :: nat) = CHR 0x80" "char_of (0xA8 :: nat) = CHR 0xA8"
  "char_of (0xA9 :: nat) = CHR 0xA9"
  by code_simp+

lemma hex_digits: "\<forall>d \<in> set [0..<16]. hex_value (hex_digit d) = Some d \<and> byte (hex_digit d) < 0x80"
  by (simp add: hex_digit_def hex_value_def byte_def between_def upt_rec)

lemma hex_digit_value: "d < 16 \<Longrightarrow> hex_value (hex_digit d) = Some d"
  and hex_digit_ascii: "d < 16 \<Longrightarrow> byte (hex_digit d) < 0x80"
  using hex_digits by simp_all

lemma hex4_escape:
  assumes "n < 65536"
  shows "hex4 ([hex_digit (n div 4096)] # [hex_digit (n div 256 mod 16)] # [hex_digit (n div 16 mod 16)] #
     [hex_digit (n mod 16)] # rs) = Some n"
proof -
  have "n = 16 * (n div 16) + n mod 16" "n div 16 = 16 * (n div 256) + n div 16 mod 16"
    "n div 256 = 16 * (n div 4096) + n div 256 mod 16"
    using div_mult_mod_eq [of "n div 16" 16] div_mult_mod_eq [of "n div 256" 16]
    by (simp_all add: mult.commute flip: div_mult2_eq)
  then have "4096 * (n div 4096) + 256 * (n div 256 mod 16) + 16 * (n div 16 mod 16) + n mod 16 = n"
    by linarith
  then show ?thesis using assms by (simp add: hex_digit_value)
qed

lemma scan_quote: "scan_str ([CHR 0x22] # rs) = Some ([], rs)"
  by (simp add: scan_str.simps(2))

lemma scan_escape_u:
  assumes "n < 0xD800 \<or> 0xE000 \<le> n" and "n < 65536"
  shows "scan_str (singles (escape_u n) @ rs) = put_front (utf8 n) (scan_str rs)"
  using assms hex4_escape [OF assms(2), of rs]
  by (simp add: escape_u_def scan_str.simps(2) unescape_u_def)

lemma scan_plain:
  assumes "encoded r" and "r \<noteq> [CHR 0x22]" and "r \<noteq> [CHR 0x5C]" and "\<not> control_rune r"
  shows "scan_str (r # rs) = put_front r (scan_str rs)"
  using assms by (simp add: scan_str.simps(2))

lemma scan_escape_char:
  assumes "byte c < 0x80"
  shows "scan_str (singles (escape_char c) @ rs) = put_front [c] (scan_str rs)"
proof -
  have u: "scan_str (singles (escape_u (byte c)) @ rs) = put_front [c] (scan_str rs)"
    using scan_escape_u [of "byte c" rs] assms by (simp add: utf8_def)
  have p: "scan_str ([c] # rs) = put_front [c] (scan_str rs)" if "32 \<le> byte c" "byte c \<noteq> 0x22" "byte c \<noteq> 0x5C"
    using that assms by (intro scan_plain) (auto simp: encoded_ascii control_rune_def byte_Char)
  have e: "scan_str ([CHR 0x5C] # [d] # rs) = put_front [c] (scan_str rs)"
    if "unescape [d] = Some [c]" "d \<noteq> CHR ''u''" for d
    using that by (simp add: scan_str.simps(2) [of "[CHR 0x5C]"])
  have q: "unescape [c] = Some [c] \<and> c \<noteq> CHR ''u''" if "byte c = 0x22 \<or> byte c = 0x5C"
    using that by (auto simp: byte_is char_codes unescape_def)
  have s: "byte c = 8 \<Longrightarrow> unescape ''b'' = Some [c]" "byte c = 12 \<Longrightarrow> unescape ''f'' = Some [c]"
    "byte c = 10 \<Longrightarrow> unescape ''n'' = Some [c]" "byte c = 13 \<Longrightarrow> unescape ''r'' = Some [c]"
    "byte c = 9 \<Longrightarrow> unescape ''t'' = Some [c]"
    by (simp_all add: byte_is char_codes unescape_def)
  show ?thesis
  proof (cases "byte c = 0x22 \<or> byte c = 0x5C")
    case True
    then have "escape_char c = [CHR 0x5C, c]" by (simp add: escape_char_def)
    then show ?thesis using e [of c] q [OF True] by simp
  next
    case False
    consider (short) "byte c \<in> {8, 12, 10, 13, 9}"
      | (u) "byte c \<notin> {8, 12, 10, 13, 9}" "byte c < 32 \<or> byte c = 0x3C \<or> byte c = 0x3E \<or> byte c = 0x26"
      | (plain) "byte c \<notin> {8, 12, 10, 13, 9}" "\<not> (byte c < 32 \<or> byte c = 0x3C \<or> byte c = 0x3E \<or> byte c = 0x26)"
      by blast
    then show ?thesis
    proof cases
      case short
      then show ?thesis
        using s e [of "CHR ''b''"] e [of "CHR ''f''"] e [of "CHR ''n''"] e [of "CHR ''r''"] e [of "CHR ''t''"]
        by (elim insertE emptyE) (simp_all add: escape_char_def)
    next
      case u': u
      then have "escape_char c = escape_u (byte c)" using False by (simp add: escape_char_def)
      then show ?thesis using u by simp
    next
      case plain
      then have "escape_char c = [c]" using False by (simp add: escape_char_def)
      then show ?thesis using p plain False by simp
    qed
  qed
qed

lemma scan_escape_rune:
  "scan_str (escape_rune r @ rs) = put_front (if encoded r then r else replacement) (scan_str rs)"
proof (cases "encoded r")
  case False
  have "utf8 0xFFFD = replacement" by (simp add: utf8_def replacement_def char_codes)
  then show ?thesis using False scan_escape_u [of "0xFFFD" rs] by (simp add: escape_rune_def)
next
  case True
  have ls: "utf8 0x2028 = [CHR 0xE2, CHR 0x80, CHR 0xA8]" "utf8 0x2029 = [CHR 0xE2, CHR 0x80, CHR 0xA9]"
    by (simp_all add: utf8_def char_codes)
  show ?thesis
  proof (cases r rule: remdups_adj.cases)
    case 1
    then show ?thesis using True by (simp add: encoded_def)
  next
    case (2 c)
    then show ?thesis using True scan_escape_char [of c rs] by (simp add: escape_rune_def encoded_ascii)
  next
    case (3 c d s)
    then have "\<not> control_rune r" "r \<noteq> [CHR 0x22]" "r \<noteq> [CHR 0x5C]" by (simp_all add: control_rune_def)
    then have "scan_str (r # rs) = put_front r (scan_str rs)" using True by (intro scan_plain)
    then show ?thesis
      using True 3 scan_escape_u [of "0x2028" rs] scan_escape_u [of "0x2029" rs]
      by (auto simp: escape_rune_def ls)
  qed
qed

lemma scan_print:
  "scan_str (concat (map escape_rune us) @ [CHR 0x22] # rs) = Some (rune_string us, rs)"
  by (induction us) (simp_all add: scan_quote scan_escape_rune rune_string_def replacement_def)

lemma escape_rune_encoded: "list_all encoded (escape_rune r)"
proof -
  have u: "list_all (\<lambda>c. byte c < 0x80) (escape_u n)" if "n < 65536" for n
    using that by (simp add: escape_u_def hex_digit_ascii byte_Char)
  have "list_all (\<lambda>c. byte c < 0x80) (escape_char c)" if "byte c < 0x80" for c
    using that u [of "byte c"] by (auto simp: escape_char_def Let_def byte_Char)
  then show ?thesis
    using u by (auto simp: escape_rune_def encoded_singles encoded_ascii split: list.splits)
qed


subsection \<open>Lexing what was printed\<close>

text \<open>The tokens of a value; its strings are already coerced.\<close>

fun tokens :: "json \<Rightarrow> token list"
and elem_tokens :: "json list \<Rightarrow> token list"
and member_tokens :: "(string \<times> json) list \<Rightarrow> token list" where
  "tokens (JArr js) = TOpenArr # elem_tokens js @ [TCloseArr]"
| "tokens (JObj kvs) = TOpenObj # member_tokens kvs @ [TCloseObj]"
| "tokens (JStr s) = [TScalar (JStr (to_utf8 s))]"
| "tokens j = [TScalar j]"
| "elem_tokens [] = []"
| "elem_tokens (j # js) = tokens j @ (if js = [] then [] else [TComma]) @ elem_tokens js"
| "member_tokens [] = []"
| "member_tokens ((k, j) # kvs) =
     TScalar (JStr (to_utf8 k)) # TColon # tokens j @ (if kvs = [] then [] else [TComma]) @ member_tokens kvs"

text \<open>The values Go prints from the program's structs: every number is an integer.\<close>

fun integral :: "json \<Rightarrow> bool" where
  "integral (JNum s) \<longleftrightarrow> False"
| "integral (JArr js) \<longleftrightarrow> list_all integral js"
| "integral (JObj kvs) \<longleftrightarrow> list_all (\<lambda>(k, j). integral j) kvs"
| "integral _ \<longleftrightarrow> True"

definition number_ends :: "string list \<Rightarrow> bool" where
  "number_ends rs \<longleftrightarrow> rs = [] \<or> \<not> num_rune (hd rs)"

lemma lex_space: "space_json r \<Longrightarrow> lex (r # rs) = lex rs"
  by (simp add: lex.simps(2))

lemma lex_punct [simp]:
  "lex (''['' # rs) = put_token TOpenArr (lex rs)" "lex ('']'' # rs) = put_token TCloseArr (lex rs)"
  "lex (''{'' # rs) = put_token TOpenObj (lex rs)" "lex (''}'' # rs) = put_token TCloseObj (lex rs)"
  "lex ('','' # rs) = put_token TComma (lex rs)" "lex ('':'' # rs) = put_token TColon (lex rs)"
  by (simp_all add: lex.simps(2) space_json_def punct_def)

lemma lex_newline [simp]: "lex (newline ind d @ rs) = lex rs"
proof -
  have "lex (singles (replicate n (CHR '' '')) @ rs) = lex rs" for n
    by (induction n) (simp_all add: lex_space space_json_def)
  then show ?thesis by (simp add: newline_def lex_space space_json_def)
qed

lemma lex_colon [simp]: "lex (print_colon ind @ rs) = put_token TColon (lex rs)"
  by (simp add: print_colon_def lex_space space_json_def)

lemma lex_string: "lex (print_string s @ rs) = put_token (TScalar (JStr (to_utf8 s))) (lex rs)"
  by (simp add: print_string_def lex.simps(2) space_json_def punct_def scan_print to_utf8_def)

lemma lex_word:
  "lex (singles ''true'' @ rs) = put_token (TScalar (JBool True)) (lex rs)"
  "lex (singles ''false'' @ rs) = put_token (TScalar (JBool False)) (lex rs)"
  "lex (singles ''null'' @ rs) = put_token (TScalar JNull) (lex rs)"
  by (simp_all add: lex.simps(2) space_json_def punct_def num_rune_def)

lemma digits_no_zero: "0 < n \<Longrightarrow> hd (digits n) \<noteq> CHR ''0''"
proof (induction n rule: digits.induct)
  case (1 n)
  show ?case
  proof (cases "n < 10")
    case True
    then have "(of_char (hd (digits n)) :: int) = 48 + n"
      using "1.prems" by (simp add: digits.simps [of n] digit_value)
    then show ?thesis using "1.prems" by auto
  next
    case False
    then show ?thesis
      using 1 digits_spec [of "n div 10"] by (simp add: digits.simps [of n])
  qed
qed

lemma int_digits_digits: "0 \<le> n \<Longrightarrow> int_digits (digits n)"
  using digits_spec [of n] digits_no_zero [of n]
  by (cases "n = 0") (auto simp: int_digits_def digits.simps [of 0])

lemma json_number_itoa: "json_number (itoa i) = Some (JInt i)"
proof -
  have d: "takeWhile is_digit (digits n) = digits n" "dropWhile is_digit (digits n) = []" if "0 \<le> n" for n
    using digits_spec [OF that] by (simp_all add: list_all_iff)
  show ?thesis
    using int_digits_digits [of i] int_digits_digits [of "- i"] digits_spec [of i]
      digits_spec [of "- i"] digits_no_sign [of i]
    by (cases "i < 0") (simp_all add: json_number_def itoa_def Let_def d)
qed

lemma digit_codes:
  "char_of (48 :: nat) = CHR ''0''" "char_of (49 :: nat) = CHR ''1''" "char_of (50 :: nat) = CHR ''2''"
  "char_of (51 :: nat) = CHR ''3''" "char_of (52 :: nat) = CHR ''4''" "char_of (53 :: nat) = CHR ''5''"
  "char_of (54 :: nat) = CHR ''6''" "char_of (55 :: nat) = CHR ''7''" "char_of (56 :: nat) = CHR ''8''"
  "char_of (57 :: nat) = CHR ''9''"
  by code_simp+

lemma num_rune_digit: "is_digit c \<Longrightarrow> num_rune [c]"
proof -
  assume "is_digit c"
  then have "48 \<le> int (byte c)" "int (byte c) \<le> 57"
    by (simp_all add: is_digit_def byte_def of_nat_of_char)
  then have "byte c = 48 \<or> byte c = 49 \<or> byte c = 50 \<or> byte c = 51 \<or> byte c = 52 \<or> byte c = 53 \<or>
      byte c = 54 \<or> byte c = 55 \<or> byte c = 56 \<or> byte c = 57" by presburger
  then show ?thesis
    unfolding byte_is by (elim disjE) (simp_all add: num_rune_def digit_codes)
qed

lemma lex_int: "number_ends rs \<Longrightarrow> lex (singles (itoa i) @ rs) = put_token (TScalar (JInt i)) (lex rs)"
proof -
  assume ends: "number_ends rs"
  have dg: "list_all (\<lambda>c. num_rune [c]) (digits n)" if "0 \<le> n" for n
    using digits_spec [OF that] by (auto simp: list_all_iff num_rune_digit)
  have all: "list_all (\<lambda>c. num_rune [c]) (itoa i)"
    using dg [of i] dg [of "- i"] by (simp add: itoa_def num_rune_def)
  obtain c s where s: "itoa i = c # s"
    using digits_spec [of i] digits_spec [of "- i"] by (cases "itoa i") (auto simp: itoa_def split: if_splits)
  have num: "num_rune [c]" "\<forall>r \<in> set (singles s). num_rune r"
    using all s by (auto simp: list_all_iff singles_def)
  have span: "takeWhile num_rune (singles s @ rs) = singles s" "dropWhile num_rune (singles s @ rs) = rs"
    using num(2) ends unfolding number_ends_def by (cases rs; simp add: takeWhile_append2 dropWhile_append2)+
  have "\<not> space_json [c]" "punct [c] = None" "c \<noteq> CHR 0x22"
    using num(1) by (auto simp: num_rune_def space_json_def punct_def)
  then show ?thesis
    using num(1) span json_number_itoa [of i] unfolding s by (simp add: lex.simps(2))
qed


lemma number_ends_newline [simp]:
  "number_ends (newline ind d @ '']'' # rs)" "number_ends (newline ind d @ ''}'' # rs)"
  "number_ends ('','' # rs)"
  by (simp_all add: number_ends_def newline_def num_rune_def)

lemma append_one: "(@) [x] = (#) x" "map_option ((@) []) y = y"
  by (simp add: fun_eq_iff) (cases y; simp)

lemma lex_print:
  "integral j \<Longrightarrow> number_ends rs \<Longrightarrow> lex (print_json ind d j @ rs) = map_option ((@) (tokens j)) (lex rs)"
  "list_all integral js \<Longrightarrow> number_ends rs \<Longrightarrow>
     lex (print_elems ind d js @ rs) = map_option ((@) (elem_tokens js)) (lex rs)"
  "list_all (\<lambda>(k, j). integral j) kvs \<Longrightarrow> number_ends rs \<Longrightarrow>
     lex (print_members ind d kvs @ rs) = map_option ((@) (member_tokens kvs)) (lex rs)"
proof (induction ind d j and ind d js and ind d kvs arbitrary: rs and rs and rs
    rule: print_json_print_elems_print_members.induct)
  case (6 ind d js)
  then show ?case by (cases "js = []") (simp_all add: option.map_comp o_def)
next
  case (7 ind d kvs)
  then show ?case by (cases "kvs = []") (simp_all add: option.map_comp o_def)
next
  case (9 ind d j js)
  show ?case using 9 by (cases "js = []") (simp_all add: option.map_comp o_def)
next
  case (11 ind d k j kvs)
  show ?case using 11 by (cases "kvs = []") (simp_all add: option.map_comp o_def lex_string)
qed (simp_all add: lex_word [simplified] lex_int lex_string append_one)

subsection \<open>Running the token machine\<close>

fun depth :: "json \<Rightarrow> nat" where
  "depth (JArr js) = Suc (foldr max (map depth js) 0)"
| "depth (JObj kvs) = Suc (foldr max (map (\<lambda>(k, j). depth j) kvs) 0)"
| "depth _ = 0"

lemma foldr_max_zero: "foldr max (map (\<lambda>_. 0) xs) (0 :: nat) = 0"
  by (induction xs) simp_all

text \<open>The value that comes back: every string coerced to UTF-8.\<close>

fun clean :: "json \<Rightarrow> json" where
  "clean (JStr s) = JStr (to_utf8 s)"
| "clean (JArr js) = JArr (map clean js)"
| "clean (JObj kvs) = JObj (map (\<lambda>(k, j). (to_utf8 k, clean j)) kvs)"
| "clean j = j"

lemma first_value: "js \<noteq> [] \<Longrightarrow> run_tokens (EFirst, FArr seen # fs) (elem_tokens js @ ts) =
    run_tokens (EValue, FArr seen # fs) (elem_tokens js @ ts)"
proof (cases js)
  case (Cons j js')
  show ?thesis unfolding Cons by (cases j) simp_all
qed simp

lemma first_key: "kvs' \<noteq> [] \<Longrightarrow> run_tokens (EFirst, FObj kvs k # fs) (member_tokens kvs' @ ts) =
    run_tokens (EKey, FObj kvs k # fs) (member_tokens kvs' @ ts)"
  by (cases kvs') auto

lemma run_print:
  "depth j + length fs \<le> 10000 \<Longrightarrow>
     run_tokens (EValue, fs) (tokens j @ ts) = run_tokens (put_value (clean j) fs) ts"
  "js \<noteq> [] \<Longrightarrow> foldr max (map depth js) 0 + Suc (length fs) \<le> 10000 \<Longrightarrow>
     run_tokens (EValue, FArr prev # fs) (elem_tokens js @ ts) =
       run_tokens (EAfter, FArr (prev @ map clean js) # fs) ts"
  "kvs \<noteq> [] \<Longrightarrow> foldr max (map (\<lambda>(k, j). depth j) kvs) 0 + Suc (length fs) \<le> 10000 \<Longrightarrow>
     \<exists>k'. run_tokens (EKey, FObj seen k # fs) (member_tokens kvs @ ts) =
       run_tokens (EAfter, FObj (seen @ map (\<lambda>(k, j). (to_utf8 k, clean j)) kvs) k' # fs) ts"
proof (induction j and js and kvs arbitrary: fs ts and prev fs ts and seen k fs ts
    rule: tokens_elem_tokens_member_tokens.induct)
  case (1 js)
  then show ?case
    by (cases "js = []") (simp_all add: push_def first_value)
next
  case (2 kvs)
  show ?case
  proof (cases "kvs = []")
    case True
    then show ?thesis using 2 by (simp add: push_def)
  next
    case False
    obtain k' where "run_tokens (EKey, FObj [] [] # fs) (member_tokens kvs @ TCloseObj # ts) =
       run_tokens (EAfter, FObj ([] @ map (\<lambda>(k, j). (to_utf8 k, clean j)) kvs) k' # fs) (TCloseObj # ts)"
      using 2 False by fastforce
    then show ?thesis using 2 False by (simp add: push_def first_key)
  qed
next
  case (6 j js)
  show ?case using 6 by (cases "js = []") simp_all
next
  case (8 k' j kvs)
  show ?case
  proof (cases "kvs = []")
    case True
    then show ?thesis using 8 by auto
  next
    case False
    have "foldr max (map (\<lambda>(k, j). depth j) kvs) 0 + Suc (length fs) \<le> 10000"
      using "8.prems" by simp
    from "8.IH"(2) [OF False this, of "seen @ [(to_utf8 k', clean j)]" "to_utf8 k'" ts]
    show ?thesis using 8 False by simp
  qed
qed simp_all


subsection \<open>The text codec\<close>

lemma itoa_ascii: "list_all (\<lambda>c. byte c < 0x80) (itoa i)"
proof -
  have "byte c < 0x80" if "is_digit c" for c
  proof -
    have "int (byte c) \<le> 57" using that by (simp add: is_digit_def byte_def of_nat_of_char)
    then show ?thesis by linarith
  qed
  then have "list_all (\<lambda>c. byte c < 0x80) (digits n)" if "0 \<le> n" for n
    using digits_spec [OF that] by (auto simp: list_all_iff)
  then show ?thesis by (simp add: itoa_def byte_Char)
qed

lemma print_string_encoded: "list_all encoded (print_string s)"
  using escape_rune_encoded by (auto simp: print_string_def encoded_ascii byte_Char list_all_iff)

lemma print_encoded:
  "integral j \<Longrightarrow> list_all encoded (print_json ind d j)"
  "list_all integral js \<Longrightarrow> list_all encoded (print_elems ind d js)"
  "list_all (\<lambda>(k, j). integral j) kvs \<Longrightarrow> list_all encoded (print_members ind d kvs)"
proof -
  have "list_all (\<lambda>c. byte c < 0x80) (CHR 0x0A # replicate n (CHR '' ''))" for n
    by (simp add: byte_Char list_all_iff)
  then have nl: "list_all encoded (newline ind d)" for ind d
    unfolding newline_def encoded_singles [symmetric] by (cases ind) (simp_all only: if_True if_False list.pred_inject(1))
  have co: "list_all encoded (print_colon ind)" for ind
    by (simp add: print_colon_def encoded_ascii byte_Char)
  show "integral j \<Longrightarrow> list_all encoded (print_json ind d j)"
    "list_all integral js \<Longrightarrow> list_all encoded (print_elems ind d js)"
    "list_all (\<lambda>(k, j). integral j) kvs \<Longrightarrow> list_all encoded (print_members ind d kvs)"
    by (induction ind d j and ind d js and ind d kvs rule: print_json_print_elems_print_members.induct)
      (simp_all add: encoded_ascii byte_Char encoded_singles itoa_ascii print_string_encoded nl co)
qed

lemma runes_print: "integral j \<Longrightarrow> runes (concat (print_json ind d j)) = print_json ind d j"
  by (intro runes_encoded print_encoded)

lemma parse_print_line:
  assumes "integral j" and "depth j \<le> 10000"
  shows "json_parse (concat (print_json ind 0 j) @ [CHR 0x0A]) = Some (clean j)"
proof -
  have "runes (concat (print_json ind 0 j) @ [CHR 0x0A]) = print_json ind 0 j @ [[CHR 0x0A]]"
    by (subst runes_append) (simp_all add: runes_print [OF assms(1)] runes_Cons_ascii byte_Char between_def)
  moreover have "lex (print_json ind 0 j @ [[CHR 0x0A]]) = Some (tokens j)"
    using lex_print(1) [OF assms(1), of "[[CHR 0x0A]]" ind 0]
    by (simp add: number_ends_def num_rune_def lex_space space_json_def)
  moreover have "run_tokens (EValue, []) (tokens j) = Some (clean j)"
    using run_print(1) [of j "[]" "[]"] assms(2) by simp
  ultimately show ?thesis by (simp add: json_parse_def)
qed

lemma parse_print:
  assumes "integral j" and "depth j \<le> 10000"
  shows "json_parse (Marshal j) = Some (clean j)" and "json_parse (MarshalIndent j) = Some (clean j)"
    and "json_parse (Encode j) = Some (clean j)"
proof -
  have run: "run_tokens (EValue, []) (tokens j) = Some (clean j)"
    using run_print(1) [of j "[]" "[]"] assms(2) by simp
  have lex: "lex (print_json ind 0 j) = Some (tokens j)" for ind
    using lex_print(1) [OF assms(1), of "[]" ind 0] by (simp add: number_ends_def)
  show "json_parse (Marshal j) = Some (clean j)" "json_parse (MarshalIndent j) = Some (clean j)"
    by (simp_all add: json_parse_def Marshal_def MarshalIndent_def runes_print [OF assms(1)] lex run)
  show "json_parse (Encode j) = Some (clean j)"
    using parse_print_line [OF assms, of True] by (simp add: Encode_def MarshalIndent_def)
qed

text \<open>A value whose strings are UTF-8 comes back unchanged.\<close>

definition utf8_string :: "string \<Rightarrow> bool" where
  "utf8_string s \<longleftrightarrow> list_all encoded (runes s)"

fun utf8_json :: "json \<Rightarrow> bool" where
  "utf8_json (JStr s) \<longleftrightarrow> utf8_string s"
| "utf8_json (JArr js) \<longleftrightarrow> list_all utf8_json js"
| "utf8_json (JObj kvs) \<longleftrightarrow> list_all (\<lambda>(k, j). utf8_string k \<and> utf8_json j) kvs"
| "utf8_json _ \<longleftrightarrow> True"

lemma to_utf8_valid: "utf8_string s \<Longrightarrow> to_utf8 s = s"
  by (simp add: utf8_string_def to_utf8_def rune_string_encoded)

lemma utf8_to_utf8: "utf8_string (to_utf8 s)"
proof -
  have "encoded replacement" unfolding replacement_def by code_simp
  then have "list_all encoded (map (\<lambda>r. if encoded r then r else replacement) (runes s))"
    by (auto simp: list_all_iff)
  then show ?thesis
    unfolding utf8_string_def to_utf8_def rune_string_def replacement_def [symmetric]
    by (simp add: runes_encoded)
qed

lemma utf8_ascii: "list_all (\<lambda>c. byte c < 0x80) s \<Longrightarrow> utf8_string s"
  unfolding utf8_string_def
  by (induction s) (simp_all add: runes_Cons_ascii encoded_ascii)

lemma clean_utf8: "utf8_json j \<Longrightarrow> clean j = j"
  by (induction j rule: clean.induct)
    (auto simp: to_utf8_valid list_all_iff intro!: map_idI split: prod.splits)


text \<open>
  A struct with JSON tags: what its encoder writes, the decoder of the other end reads. The
  interpretations are the structs the program writes and reads back as text.
\<close>

locale json_struct =
  fixes enc :: "'a \<Rightarrow> json"
    and dec :: "json \<Rightarrow> 'b option"
    and good :: "'a \<Rightarrow> bool"
    and view :: "'a \<Rightarrow> 'b"
  assumes enc_integral: "integral (enc x)"
    and enc_shallow: "depth (enc x) \<le> 10000"
    and enc_utf8: "good x \<Longrightarrow> utf8_json (enc x)"
    and dec_enc: "good x \<Longrightarrow> dec (enc x) = Some (view x)"
begin

lemma parse_enc:
  assumes "good x"
  shows "json_parse (Marshal (enc x)) = Some (enc x)" and "json_parse (MarshalIndent (enc x)) = Some (enc x)"
    and "json_parse (Encode (enc x)) = Some (enc x)"
  using parse_print [OF enc_integral enc_shallow] clean_utf8 [OF enc_utf8 [OF assms]] by simp_all

lemma read_back:
  assumes "good x"
  shows "Option.bind (json_parse (Marshal (enc x))) dec = Some (view x)"
    and "Option.bind (json_parse (MarshalIndent (enc x))) dec = Some (view x)"
    and "Option.bind (json_parse (Encode (enc x))) dec = Some (view x)"
  using parse_enc [OF assms] dec_enc [OF assms] by simp_all

end

subsection \<open>Struct fields\<close>

text \<open>
  \<open>omitempty\<close>, the choice of a field by a key, and the decoders of the scalar types: \<open>old\<close> is the
  value the field has, which \<open>null\<close> leaves as it is, and \<open>None\<close> an \<open>UnmarshalTypeError\<close>.
\<close>

definition omit_empty :: "string \<Rightarrow> string \<Rightarrow> (string \<times> json) list" where
  "omit_empty name s = (if s = [] then [] else [(name, JStr s)])"

definition omit_zero :: "string \<Rightarrow> int \<Rightarrow> (string \<times> json) list" where
  "omit_zero name n = (if n = 0 then [] else [(name, JInt n)])"

definition ascii_lower :: "char \<Rightarrow> char" where
  "ascii_lower c = (if (65::nat) \<le> of_char c \<and> of_char c \<le> (90::nat) then char_of (of_char c + 32 :: nat) else c)"

text \<open>
  A key selects the field whose name it equals up to Unicode case folding, under which the
  Kelvin sign is a \<open>k\<close> and the long s an \<open>s\<close>.
\<close>

definition fold_rune :: "string \<Rightarrow> string" where
  "fold_rune r =
     (case r of
        [c] \<Rightarrow> [ascii_lower c]
      | _ \<Rightarrow> if r = [CHR 0xC5, CHR 0xBF] then ''s''
             else if r = [CHR 0xE2, CHR 0x84, CHR 0xAA] then ''k''
             else r)"

definition foldName :: "string \<Rightarrow> string" where
  "foldName s = concat (map fold_rune (runes s))"

definition field_match :: "string \<Rightarrow> string \<Rightarrow> bool" where
  "field_match k name \<longleftrightarrow> foldName k = foldName name"

fun decode_string :: "json \<Rightarrow> string \<Rightarrow> string option" where
  "decode_string (JStr s) old = Some s"
| "decode_string JNull old = Some old"
| "decode_string _ old = None"

fun decode_int64 :: "json \<Rightarrow> int \<Rightarrow> int option" where
  "decode_int64 (JInt n) old = (if - (2 ^ 63) \<le> n \<and> n < 2 ^ 63 then Some n else None)"
| "decode_int64 JNull old = Some old"
| "decode_int64 _ old = None"

fun decode_uint64 :: "json \<Rightarrow> int \<Rightarrow> int option" where
  "decode_uint64 (JInt n) old = (if 0 \<le> n \<and> n < 2 ^ 64 then Some n else None)"
| "decode_uint64 JNull old = Some old"
| "decode_uint64 _ old = None"

fun decode_bool :: "json \<Rightarrow> bool \<Rightarrow> bool option" where
  "decode_bool (JBool b) old = Some b"
| "decode_bool JNull old = Some old"
| "decode_bool _ old = None"

lemma foldName_ascii:
  "list_all (\<lambda>c. byte c < 0x80) s \<Longrightarrow> foldName s = map ascii_lower s"
  unfolding foldName_def by (induction s) (simp_all add: runes_Cons_ascii fold_rune_def)


text \<open>
  Decoding into a variable that is kept after an error: the new value and whether all went well.
  A field of the wrong type keeps its value and the rest is decoded. An element of a slice is
  decoded into the element the slice had there.
\<close>

definition keep_old :: "(json \<Rightarrow> 'a \<Rightarrow> 'a option) \<Rightarrow> json \<Rightarrow> 'a \<Rightarrow> 'a \<times> bool" where
  "keep_old dec j old = (case dec j old of None \<Rightarrow> (old, False) | Some x \<Rightarrow> (x, True))"

fun decode_list :: "(json \<Rightarrow> 'a \<Rightarrow> 'a \<times> bool) \<Rightarrow> 'a \<Rightarrow> json list \<Rightarrow> 'a list \<Rightarrow> 'a list \<times> bool" where
  "decode_list dec zero [] old = ([], True)"
| "decode_list dec zero (j # js) old =
     (let (x, a) = dec j (case old of [] \<Rightarrow> zero | y # ys \<Rightarrow> y);
          (xs, b) = decode_list dec zero js (tl old)
      in (x # xs, a \<and> b))"

definition decode_slice :: "(json \<Rightarrow> 'a \<Rightarrow> 'a \<times> bool) \<Rightarrow> 'a \<Rightarrow> json \<Rightarrow> 'a list \<Rightarrow> 'a list \<times> bool" where
  "decode_slice dec zero j old =
     (case j of
        JArr js \<Rightarrow> decode_list dec zero js old
      | JNull \<Rightarrow> ([], True)
      | _ \<Rightarrow> (old, False))"

fun decode_fields :: "(string \<Rightarrow> json \<Rightarrow> 's \<Rightarrow> 's \<times> bool) \<Rightarrow> (string \<times> json) list \<Rightarrow> 's \<Rightarrow> 's \<times> bool" where
  "decode_fields field [] s = (s, True)"
| "decode_fields field ((k, v) # kvs) s =
     (let (s', a) = field k v s; (s'', b) = decode_fields field kvs s' in (s'', a \<and> b))"

definition decode_struct :: "(string \<Rightarrow> json \<Rightarrow> 's \<Rightarrow> 's \<times> bool) \<Rightarrow> json \<Rightarrow> 's \<Rightarrow> 's \<times> bool" where
  "decode_struct field j s =
     (case j of
        JObj kvs \<Rightarrow> decode_fields field kvs s
      | JNull \<Rightarrow> (s, True)
      | _ \<Rightarrow> (s, False))"

lemma decode_list_map:
  "(\<And>x. x \<in> set xs \<Longrightarrow> dec (enc x) zero = (x, True)) \<Longrightarrow> decode_list dec zero (map enc xs) [] = (xs, True)"
  by (induction xs) simp_all


subsection \<open>A compact value is one line\<close>

lemma encoded_no_newline: "encoded r \<Longrightarrow> r \<noteq> [CHR 0x0A] \<Longrightarrow> CHR 0x0A \<notin> set r"
  by (auto simp: encoded_def between_def second_ok_def byte_Char split: list.splits if_splits)

lemma hex_digit_line: "d < 16 \<Longrightarrow> hex_digit d \<noteq> CHR 0x0A"
proof -
  have "\<forall>d \<in> set [0..<16]. hex_digit d \<noteq> CHR 0x0A"
    by (simp add: hex_digit_def byte_def upt_rec byte_eq_iff [symmetric])
  then show "d < 16 \<Longrightarrow> hex_digit d \<noteq> CHR 0x0A" by simp
qed

lemma escape_rune_line: "CHR 0x0A \<notin> set (concat (escape_rune r))"
proof -
  have u: "CHR 0x0A \<notin> set (escape_u n)" if "n < 65536" for n
    using that less_mult_imp_div_less [of n 16 4096] hex_digit_line [of "n div 4096"] hex_digit_line [of "n div 256 mod 16"]
      hex_digit_line [of "n div 16 mod 16"] hex_digit_line [of "n mod 16"]
    by (auto simp: escape_u_def dest: sym)
  have c: "CHR 0x0A \<notin> set (escape_char c)" for c
    using u [of "byte c"] byte_less [of c] by (auto simp: escape_char_def Let_def byte_Char)
  show ?thesis
    using u [of "0xFFFD"] u [of "0x2028"] u [of "0x2029"] c encoded_no_newline [of r]
    by (cases r rule: remdups_adj.cases) (auto simp: escape_rune_def simp del: set_concat)
qed

lemma print_string_line: "CHR 0x0A \<notin> set (concat (print_string s))"
  using escape_rune_line by (force simp: print_string_def)

lemma itoa_line: "CHR 0x0A \<notin> set (itoa i)"
  using digits_chars [of _ "CHR 0x0A"] by (auto simp: itoa_def is_digit_def)

lemma print_line:
  "integral j \<Longrightarrow> CHR 0x0A \<notin> set (concat (print_json False d j))"
  "list_all integral js \<Longrightarrow> CHR 0x0A \<notin> set (concat (print_elems False d js))"
  "list_all (\<lambda>(k, j). integral j) kvs \<Longrightarrow> CHR 0x0A \<notin> set (concat (print_members False d kvs))"
  by (induction "False" d j and "False" d js and "False" d kvs rule: print_json_print_elems_print_members.induct)
    (simp_all add: newline_def print_colon_def itoa_line del: set_concat, simp_all add: print_string_line del: set_concat)

lemma Marshal_object:
  assumes "integral (JObj kvs)" and "kvs \<noteq> []"
  shows "Marshal (JObj kvs) \<noteq> []" and "hd (Marshal (JObj kvs)) = CHR ''{''" and "last (Marshal (JObj kvs)) = CHR ''}''"
    and "CHR 0x0A \<notin> set (Marshal (JObj kvs))"
  using assms print_line(1) [OF assms(1)] by (simp_all add: Marshal_def newline_def del: set_concat)

end
