(* ===== verification/GoTime.thy ===== *)
theory GoTime
  imports GoLib
begin

section \<open>Calendar time as text (the \<open>time\<close> package)\<close>

text \<open>
  An instant counts nanoseconds from the Unix epoch. \<open>civil\<close> is Go's way from a day to year and
  day of the year through cycles of 400, 100, 4 and 1 years, counted from 1 January of year 1.
  \<open>zone\<close> is the local time zone at the instant that is printed: its offset in seconds and its
  abbreviation. Times are printed by their layouts, and JSON times are read by \<open>Parse\<close> with the
  layout RFC 3339, which is a little more liberal than the standard: the hour may have one digit,
  a comma may stand for the point, and an offset may reach 24:60.
\<close>

subsection \<open>Days and dates\<close>

record zone =
  zn_offset :: int
  zn_name :: string

definition is_leap :: "int \<Rightarrow> bool" where
  "is_leap y \<longleftrightarrow> y mod 4 = 0 \<and> (y mod 100 \<noteq> 0 \<or> y mod 400 = 0)"

definition days_to_year :: "int \<Rightarrow> int" where
  "days_to_year y = (let p = y - 1 in 365 * p + p div 4 - p div 100 + p div 400)"

definition epoch_day :: int where "epoch_day = 719162"

definition civil :: "int \<Rightarrow> int \<times> int" where
  "civil d =
     (let a = d div 146097; d1 = d mod 146097;
          b = min 3 (d1 div 36524); d2 = d1 - 36524 * b;
          c = d2 div 1461; d3 = d2 mod 1461;
          e = min 3 (d3 div 365)
      in (400 * a + 100 * b + 4 * c + e + 1, d3 - 365 * e))"

definition month_lengths :: "bool \<Rightarrow> int list" where
  "month_lengths leap = [31, if leap then 29 else 28, 31, 30, 31, 30, 31, 31, 30, 31, 30, 31]"

fun month_day :: "int list \<Rightarrow> int \<Rightarrow> int \<Rightarrow> int \<times> int" where
  "month_day [] m n = (m, n + 1)"
| "month_day (l # ls) m n = (if n < l then (m, n + 1) else month_day ls (m + 1) (n - l))"

definition daysIn :: "int \<Rightarrow> int \<Rightarrow> int" where
  "daysIn m y = month_lengths (is_leap y) ! nat (m - 1)"

definition date_days :: "int \<Rightarrow> int \<Rightarrow> int \<Rightarrow> int" where
  "date_days y m d = days_to_year y + sum_list (take (nat (m - 1)) (month_lengths (is_leap y))) + d - 1"

record clock_time =
  ct_year :: int
  ct_month :: int
  ct_day :: int
  ct_hour :: int
  ct_min :: int
  ct_sec :: int
  ct_nano :: int

definition local_time :: "int \<Rightarrow> instant \<Rightarrow> clock_time" where
  "local_time off t =
     (let s = t div 1000000000 + off; tod = s mod 86400;
          (y, yday) = civil (s div 86400 + epoch_day);
          (m, d) = month_day (month_lengths (is_leap y)) 1 yday
      in \<lparr>ct_year = y, ct_month = m, ct_day = d, ct_hour = tod div 3600, ct_min = tod div 60 mod 60,
          ct_sec = tod mod 60, ct_nano = t mod 1000000000\<rparr>)"

text \<open>\<open>Date\<close> in UTC, for fields in range.\<close>

definition date_instant :: "clock_time \<Rightarrow> instant" where
  "date_instant c =
     (((date_days (ct_year c) (ct_month c) (ct_day c) - epoch_day) * 86400
       + ct_hour c * 3600 + ct_min c * 60 + ct_sec c) * 1000000000 + ct_nano c)"

subsection \<open>Printing\<close>

definition pad_int :: "nat \<Rightarrow> int \<Rightarrow> string" where
  "pad_int w n =
     (let ds = digits \<bar>n\<bar> in (if n < 0 then ''-'' else []) @ replicate (w - length ds) (CHR ''0'') @ ds)"

definition date_text :: "clock_time \<Rightarrow> string" where
  "date_text c = pad_int 4 (ct_year c) @ ''-'' @ pad_int 2 (ct_month c) @ ''-'' @ pad_int 2 (ct_day c)"

definition minute_text :: "clock_time \<Rightarrow> string" where
  "minute_text c = pad_int 2 (ct_hour c) @ '':'' @ pad_int 2 (ct_min c)"

definition second_text :: "clock_time \<Rightarrow> string" where
  "second_text c = minute_text c @ '':'' @ pad_int 2 (ct_sec c)"

text \<open>The offset \<open>Z07:00\<close>: whole minutes, towards zero.\<close>

definition offset_text :: "int \<Rightarrow> string" where
  "offset_text off =
     (if off = 0 then ''Z''
      else let z = \<bar>off\<bar> div 60 in
        (if off \<le> - 60 then ''-'' else ''+'') @ pad_int 2 (z div 60) @ '':'' @ pad_int 2 (z mod 60))"

text \<open>The layouts \<open>RFC3339\<close> and \<open>RFC3339Nano\<close>.\<close>

definition rfc3339 :: "int \<Rightarrow> instant \<Rightarrow> string" where
  "rfc3339 off t = (let c = local_time off t in date_text c @ ''T'' @ second_text c @ offset_text off)"

definition rfc3339_nano :: "int \<Rightarrow> instant \<Rightarrow> string" where
  "rfc3339_nano off t =
     (let c = local_time off t in
      date_text c @ ''T'' @ second_text c @ frac_string (ct_nano c) 9 @ offset_text off)"

text \<open>\<open>2006-01-02 15:04 MST\<close> and \<open>15:04:05\<close>; a zone without a name is printed as \<open>-0700\<close>.\<close>

definition zone_text :: "zone \<Rightarrow> string" where
  "zone_text z =
     (if zn_name z \<noteq> [] then zn_name z
      else let m = \<bar>zn_offset z\<bar> div 60 in
        (if zn_offset z \<le> - 60 then ''-'' else ''+'') @ pad_int 2 (m div 60) @ pad_int 2 (m mod 60))"

definition minute_layout :: "zone \<Rightarrow> instant \<Rightarrow> string" where
  "minute_layout z t =
     (let c = local_time (zn_offset z) t in date_text c @ '' '' @ minute_text c @ '' '' @ zone_text z)"

definition clock_layout :: "zone \<Rightarrow> instant \<Rightarrow> string" where
  "clock_layout z t = second_text (local_time (zn_offset z) t)"

text \<open>\<open>Time.MarshalJSON\<close>: the text inside the quotes, or an error.\<close>

definition json_time :: "int \<Rightarrow> instant \<Rightarrow> string option" where
  "json_time off t =
     (let y = ct_year (local_time off t) in
      if y < 0 \<or> 9999 < y \<or> 24 \<le> \<bar>off\<bar> div 3600 then None else Some (rfc3339_nano off t))"

definition json_time_error :: "int \<Rightarrow> instant \<Rightarrow> string" where
  "json_time_error off t =
     ''json: error calling MarshalJSON for type time.Time: Time.MarshalJSON: '' @
     (let y = ct_year (local_time off t) in
      if y < 0 \<or> 9999 < y then ''year outside of range [0,9999]''
      else ''timezone hour outside of range [0,23]'')"

subsection \<open>Reading\<close>

text \<open>\<open>getnum\<close>: two digits, or one where \<open>fixed\<close> does not hold.\<close>

fun getnum :: "bool \<Rightarrow> string \<Rightarrow> (int \<times> string) option" where
  "getnum fixed [] = None"
| "getnum fixed (c # s) =
     (if \<not> is_digit c then None
      else case s of
        d # s' \<Rightarrow> if is_digit d then Some (digits_value [c, d], s') else if fixed then None
                  else Some (digits_value [c], s)
      | [] \<Rightarrow> if fixed then None else Some (digits_value [c], s))"

definition num_in :: "bool \<Rightarrow> int \<Rightarrow> int \<Rightarrow> string \<Rightarrow> (int \<times> string) option" where
  "num_in fixed lo hi s =
     Option.bind (getnum fixed s) (\<lambda>(n, r). if lo \<le> n \<and> n \<le> hi then Some (n, r) else None)"

definition get_year :: "string \<Rightarrow> (int \<times> string) option" where
  "get_year s =
     (if 4 \<le> length s \<and> list_all is_digit (take 4 s) then Some (digits_value (take 4 s), drop 4 s) else None)"

definition skip_char :: "char \<Rightarrow> string \<Rightarrow> string option" where
  "skip_char c s = (case s of d # r \<Rightarrow> if c = d then Some r else None | [] \<Rightarrow> None)"

text \<open>A fraction of a second: the digits after the ninth are dropped.\<close>

definition get_fraction :: "string \<Rightarrow> int \<times> string" where
  "get_fraction s =
     (case s of
        p # c # r \<Rightarrow>
          if (p = CHR ''.'' \<or> p = CHR '','') \<and> is_digit c then
            let ds = takeWhile is_digit (c # r); n = take 9 ds in
            (digits_value n * 10 ^ (9 - length n), drop (length ds) (c # r))
          else (0, s)
      | _ \<Rightarrow> (0, s))"

definition get_offset :: "string \<Rightarrow> (int \<times> string) option" where
  "get_offset s =
     (if take 1 s = ''Z'' then Some (0, drop 1 s)
      else if length s < 6 \<or> s ! 3 \<noteq> CHR '':'' then None
      else Option.bind (getnum True (take 2 (drop 1 s))) (\<lambda>(hr, _).
           Option.bind (getnum True (take 2 (drop 4 s))) (\<lambda>(mm, _).
             let off = (hr * 60 + mm) * 60 in
             if 24 < hr \<or> 60 < mm then None
             else if hd s = CHR ''+'' then Some (off, drop 6 s)
             else if hd s = CHR ''-'' then Some (- off, drop 6 s)
             else None)))"

definition parse_rfc3339 :: "string \<Rightarrow> instant option" where
  "parse_rfc3339 s0 =
     Option.bind (get_year s0) (\<lambda>(y, s).
     Option.bind (skip_char (CHR ''-'') s) (\<lambda>s.
     Option.bind (num_in True 1 12 s) (\<lambda>(m, s).
     Option.bind (skip_char (CHR ''-'') s) (\<lambda>s.
     Option.bind (num_in True 0 99 s) (\<lambda>(d, s).
     Option.bind (skip_char (CHR ''T'') s) (\<lambda>s.
     Option.bind (num_in False 0 23 s) (\<lambda>(h, s).
     Option.bind (skip_char (CHR '':'') s) (\<lambda>s.
     Option.bind (num_in True 0 59 s) (\<lambda>(mi, s).
     Option.bind (skip_char (CHR '':'') s) (\<lambda>s.
     Option.bind (num_in True 0 59 s) (\<lambda>(sc, s).
     case get_fraction s of (ns, s) \<Rightarrow>
     Option.bind (get_offset s) (\<lambda>(off, s).
       if s \<noteq> [] \<or> d < 1 \<or> daysIn m y < d then None
       else Some (date_instant \<lparr>ct_year = y, ct_month = m, ct_day = d, ct_hour = h, ct_min = mi,
         ct_sec = sc, ct_nano = ns\<rparr> - off * 1000000000)))))))))))))"

subsection \<open>A day is the day of its date\<close>

lemma quotient_rest:
  fixes p :: int
  assumes "p = q * m + r" and "0 \<le> r" and "r < m"
  shows "p div m = q" and "(p + 1) mod m = 0 \<longleftrightarrow> r + 1 = m"
proof -
  show "p div m = q" using assms by (simp add: div_pos_pos_trivial)
  have "(p + 1) mod m = (r + 1) mod m" unfolding assms(1) by (metis add.assoc mod_mult_self3)
  then show "(p + 1) mod m = 0 \<longleftrightarrow> r + 1 = m"
    using assms(2,3) by (cases "r + 1 = m") (simp_all add: mod_pos_pos_trivial)
qed

text \<open>A quotient that is cut at 3: the rest of the last part may be one too long.\<close>

lemma cut_quotient:
  fixes x k :: int
  assumes "0 \<le> x" and "x \<le> 4 * k" and "0 < k"
  defines "q \<equiv> min 3 (x div k)"
  shows "0 \<le> q" "q \<le> 3" "0 \<le> x - k * q" "x - k * q \<le> k" "q < 3 \<Longrightarrow> x - k * q < k"
proof -
  have x: "x = k * (x div k) + x mod k" "0 \<le> x mod k" "x mod k < k" "0 \<le> x div k"
    using assms(1,3) by (simp_all add: pos_imp_zdiv_nonneg_iff)
  show "0 \<le> q" "q \<le> 3" using x(4) by (simp_all add: q_def)
  show rest: "0 \<le> x - k * q"
  proof -
    have "k * q \<le> k * (x div k)" using assms(3) by (simp add: q_def)
    then show ?thesis using x(1,2) by linarith
  qed
  show small: "x - k * q < k" if "q < 3"
  proof -
    have "q = x div k" using that by (simp add: q_def min_def split: if_splits)
    then show ?thesis using x(3) by (simp add: minus_mult_div_eq_mod)
  qed
  show "x - k * q \<le> k"
  proof (cases "q < 3")
    case False
    then have "q = 3" by (simp add: q_def)
    then show ?thesis using assms(2) by simp
  qed (use small in simp)
qed

lemma cycle_parts:
  fixes a b c e :: int
  assumes "0 \<le> b" "b \<le> 3" "0 \<le> c" "c \<le> 24" "0 \<le> e" "e \<le> 3"
  defines "p \<equiv> 400 * a + 100 * b + 4 * c + e"
  shows "p div 4 = 100 * a + 25 * b + c" "p div 100 = 4 * a + b" "p div 400 = a"
    "(p + 1) mod 4 = 0 \<longleftrightarrow> e = 3" "(p + 1) mod 100 = 0 \<longleftrightarrow> 4 * c + e = 99"
    "(p + 1) mod 400 = 0 \<longleftrightarrow> 100 * b + 4 * c + e = 399"
proof -
  have e4: "p = (100 * a + 25 * b + c) * 4 + e" and e100: "p = (4 * a + b) * 100 + (4 * c + e)"
    and e400: "p = a * 400 + (100 * b + 4 * c + e)"
    by (simp_all add: p_def)
  have r: "0 \<le> e" "e < 4" "0 \<le> 4 * c + e" "4 * c + e < 100" "0 \<le> 100 * b + 4 * c + e" "100 * b + 4 * c + e < 400"
    using assms by linarith+
  show "p div 4 = 100 * a + 25 * b + c" "(p + 1) mod 4 = 0 \<longleftrightarrow> e = 3" using quotient_rest [OF e4 r(1,2)] by auto
  show "p div 100 = 4 * a + b" "(p + 1) mod 100 = 0 \<longleftrightarrow> 4 * c + e = 99" using quotient_rest [OF e100 r(3,4)] by auto
  show "p div 400 = a" "(p + 1) mod 400 = 0 \<longleftrightarrow> 100 * b + 4 * c + e = 399" using quotient_rest [OF e400 r(5,6)] by auto
qed

lemma civil_spec:
  assumes "civil d = (y, n)"
  shows "days_to_year y + n = d" and "0 \<le> n" and "n < (if is_leap y then 366 else 365)"
proof -
  define a d1 where "a = d div 146097" and "d1 = d mod 146097"
  define b d2 where "b = min 3 (d1 div 36524)" and "d2 = d1 - 36524 * b"
  define c d3 where "c = d2 div 1461" and "d3 = d2 mod 1461"
  define e where "e = min 3 (d3 div 365)"
  have y: "y = 400 * a + 100 * b + 4 * c + e + 1" and n: "n = d3 - 365 * e"
    using assms by (simp_all add: civil_def Let_def a_def d1_def b_def d2_def c_def d3_def e_def)
  have d: "d = 146097 * a + d1" "0 \<le> d1" "d1 < 146097" by (simp_all add: a_def d1_def)
  have b: "0 \<le> b" "b \<le> 3" "0 \<le> d2" "d2 \<le> 36524" "b < 3 \<Longrightarrow> d2 < 36524"
    using cut_quotient [of d1 36524] d(2,3) unfolding b_def d2_def by simp_all
  have c: "d2 = 1461 * c + d3" "0 \<le> c" "c \<le> 24" "0 \<le> d3" "d3 < 1461"
    using b(3,4) by (simp_all add: c_def d3_def)
  have e: "0 \<le> e" "e \<le> 3" "0 \<le> n" "n \<le> 365" "e < 3 \<Longrightarrow> n < 365"
    using cut_quotient [of d3 365, folded e_def, folded n] c(4,5) by simp_all
  have last: "d3 = 1460" if "n = 365" using that e(1,2,5) c(5) n by linarith
  note parts = cycle_parts [OF b(1,2) c(2,3) e(1,2), of a]
  have "y - 1 = 400 * a + 100 * b + 4 * c + e" by (simp add: y)
  then have "days_to_year y = 365 * (400 * a + 100 * b + 4 * c + e) + (100 * a + 25 * b + c) - (4 * a + b) + a"
    unfolding days_to_year_def Let_def by (simp only: parts(1-3))
  then show "days_to_year y + n = d"
    using d(1) c(1) n by (simp add: d2_def)
  show "0 \<le> n" by (rule e(3))
  have leap: "is_leap y \<longleftrightarrow> e = 3 \<and> (4 * c + e \<noteq> 99 \<or> 100 * b + 4 * c + e = 399)"
    unfolding is_leap_def y parts(4-6) by simp
  show "n < (if is_leap y then 366 else 365)"
  proof (cases "n = 365")
    case True
    then have "e = 3" "d3 = 1460" using e(2,5) last by force+
    moreover have "c \<noteq> 24 \<or> b = 3" using b(2,5) c(1) \<open>d3 = 1460\<close> by linarith
    ultimately have "is_leap y" unfolding leap by auto
    then show ?thesis using True by simp
  next
    case False
    then show ?thesis using e(4) by simp
  qed
qed

lemma month_day_spec:
  assumes "month_day ls m n = (m', d)" and "0 \<le> n" and "n < sum_list ls" and "\<forall>l \<in> set ls. 0 < l"
  shows "m \<le> m' \<and> m' < m + int (length ls) \<and> 1 \<le> d \<and> d \<le> ls ! nat (m' - m) \<and>
         sum_list (take (nat (m' - m)) ls) + d = n + 1"
  using assms
proof (induction ls m n rule: month_day.induct)
  case (2 l ls m n)
  show ?case
  proof (cases "n < l")
    case False
    then have ih: "m + 1 \<le> m'" "m' < m + 1 + int (length ls)" "1 \<le> d" "d \<le> ls ! nat (m' - (m + 1))"
        "sum_list (take (nat (m' - (m + 1))) ls) + d = n - l + 1"
      using 2 by auto
    then have "nat (m' - m) = Suc (nat (m' - (m + 1)))" by linarith
    then show ?thesis using ih by simp
  qed (use 2 in auto)
qed simp

lemma month_lengths_sum: "sum_list (month_lengths leap) = (if leap then 366 else 365)"
  by (simp add: month_lengths_def)

lemma month_lengths_pos: "\<forall>l \<in> set (month_lengths leap). 0 < l \<and> l \<le> 31"
  by (simp add: month_lengths_def)

definition clock_ok :: "clock_time \<Rightarrow> bool" where
  "clock_ok c \<longleftrightarrow> 1 \<le> ct_month c \<and> ct_month c \<le> 12 \<and> 1 \<le> ct_day c \<and>
     ct_day c \<le> daysIn (ct_month c) (ct_year c) \<and>
     0 \<le> ct_hour c \<and> ct_hour c < 24 \<and> 0 \<le> ct_min c \<and> ct_min c < 60 \<and> 0 \<le> ct_sec c \<and> ct_sec c < 60 \<and>
     0 \<le> ct_nano c \<and> ct_nano c < 1000000000"

lemma daysIn_le:
  assumes "1 \<le> m" and "m \<le> 12"
  shows "daysIn m y \<le> 31"
proof -
  have "nat (m - 1) < length (month_lengths (is_leap y))" using assms by (simp add: month_lengths_def)
  from nth_mem [OF this] show ?thesis using month_lengths_pos [of "is_leap y"] by (simp add: daysIn_def)
qed

lemma tod_parts:
  fixes s :: int
  defines "tod \<equiv> s mod 86400"
  shows "0 \<le> tod div 3600" "tod div 3600 < 24" "0 \<le> tod div 60 mod 60" "tod div 60 mod 60 < 60"
    "0 \<le> tod mod 60" "tod mod 60 < 60"
    "s = s div 86400 * 86400 + (tod div 3600 * 3600 + tod div 60 mod 60 * 60 + tod mod 60)"
proof -
  have r: "0 \<le> tod" "tod < 86400" by (simp_all add: tod_def)
  then show "0 \<le> tod div 3600" "tod div 3600 < 24" "0 \<le> tod div 60 mod 60" "tod div 60 mod 60 < 60"
    "0 \<le> tod mod 60" "tod mod 60 < 60"
    by (simp_all add: pos_imp_zdiv_nonneg_iff)
  have "tod = tod div 60 * 60 + tod mod 60" by simp
  moreover have "tod div 60 = tod div 60 div 60 * 60 + tod div 60 mod 60" by simp
  moreover have "tod div 60 div 60 = tod div 3600" by (simp add: zdiv_zmult2_eq [of 60 tod 60, symmetric])
  moreover have "s = s div 86400 * 86400 + tod" by (simp add: tod_def)
  ultimately show "s = s div 86400 * 86400 + (tod div 3600 * 3600 + tod div 60 mod 60 * 60 + tod mod 60)"
    by linarith
qed

text \<open>The clock shows the instant: read back in UTC it is the instant moved by the offset.\<close>

lemma local_time_spec:
  "clock_ok (local_time off t)" "date_instant (local_time off t) = t + off * 1000000000"
proof -
  define s where "s = t div 1000000000 + off"
  obtain y n where yn: "civil (s div 86400 + epoch_day) = (y, n)" by fastforce
  obtain m d where md: "month_day (month_lengths (is_leap y)) 1 n = (m, d)" by fastforce
  have lt: "local_time off t = \<lparr>ct_year = y, ct_month = m, ct_day = d, ct_hour = s mod 86400 div 3600,
      ct_min = s mod 86400 div 60 mod 60, ct_sec = s mod 86400 mod 60, ct_nano = t mod 1000000000\<rparr>"
    unfolding local_time_def Let_def s_def [symmetric] yn prod.case md by (rule refl)
  have n: "0 \<le> n" "n < sum_list (month_lengths (is_leap y))"
    using civil_spec [OF yn] by (simp_all add: month_lengths_sum)
  then have md: "1 \<le> m" "m < 13" "1 \<le> d" "d \<le> month_lengths (is_leap y) ! nat (m - 1)"
      "sum_list (take (nat (m - 1)) (month_lengths (is_leap y))) + d = n + 1"
    using month_day_spec [OF md] month_lengths_pos [of "is_leap y"] by (auto simp: month_lengths_def)
  show "clock_ok (local_time off t)"
    unfolding lt clock_ok_def daysIn_def using md tod_parts(1-6) [of s] by simp
  have "date_days y m d = s div 86400 + epoch_day"
    using md(5) civil_spec(1) [OF yn] by (simp add: date_days_def)
  then have "date_instant (local_time off t) = (s div 86400 * 86400 + s mod 86400 div 3600 * 3600 +
      s mod 86400 div 60 mod 60 * 60 + s mod 86400 mod 60) * 1000000000 + t mod 1000000000"
    unfolding lt date_instant_def clock_time.select_convs by (simp only: add_diff_cancel_right')
  also have "s div 86400 * 86400 + s mod 86400 div 3600 * 3600 + s mod 86400 div 60 mod 60 * 60 + s mod 86400 mod 60 = s"
    using tod_parts(7) [of s] by linarith
  finally have "date_instant (local_time off t) = s * 1000000000 + t mod 1000000000" .
  then show "date_instant (local_time off t) = t + off * 1000000000"
    by (simp add: s_def distrib_right)
qed

subsection \<open>What is printed is read back\<close>

lemma digits_value_append: "digits_value (a @ b) = digits_value a * 10 ^ length b + digits_value b"
proof (induction b rule: rev_induct)
  case (snoc c b)
  then show ?case
    by (simp add: append_assoc [symmetric] digits_value_snoc algebra_simps del: append_assoc)
qed (simp add: digits_value_def)

lemma digits_value_zeros: "digits_value (replicate k (CHR ''0'')) = 0"
  by (induction k) (simp_all add: digits_value_def)

lemma digits_value_pair: "digits_value [digit a, digit b] = 10 * a + b" if "0 \<le> a" "a < 10" "0 \<le> b" "b < 10"
  using that by (simp add: digits_value_def digit_value)

lemma digits_one: "0 \<le> n \<Longrightarrow> n < 10 \<Longrightarrow> digits n = [digit n]"
  by (simp add: digits.simps [of n])

lemma digits_more: "10 \<le> n \<Longrightarrow> digits n = digits (n div 10) @ [digit (n mod 10)]"
  by (simp add: digits.simps [of n])

lemma digit_zero: "digit 0 = CHR ''0''"
  by code_simp

lemma pad_two: "pad_int 2 n = [digit (n div 10), digit (n mod 10)]" if "0 \<le> n" "n < 100"
  using that
  by (cases "n < 10") (simp_all add: pad_int_def digits_one digits_more digit_zero numeral_2_eq_2)

lemma length_digits: "0 \<le> n \<Longrightarrow> n < 10 ^ Suc k \<Longrightarrow> length (digits n) \<le> Suc k"
proof (induction k arbitrary: n)
  case (Suc k)
  show ?case
  proof (cases "n < 10")
    case False
    then have "length (digits (n div 10)) \<le> Suc k" using Suc.prems by (intro Suc.IH) auto
    then show ?thesis using False by (simp add: digits_more)
  qed (use Suc in \<open>simp add: digits_one\<close>)
qed (simp add: digits_one)

lemma pad_int_spec:
  assumes "0 \<le> n" and "n < 10 ^ Suc k"
  shows "length (pad_int (Suc k) n) = Suc k" and "list_all is_digit (pad_int (Suc k) n)"
    and "digits_value (pad_int (Suc k) n) = n"
  using digits_spec [OF assms(1)] length_digits [OF assms] assms(1)
  by (simp_all add: pad_int_def Let_def digits_value_append digits_value_zeros list_all_iff is_digit_def
      set_replicate_conv_if)

lemma getnum_pad: "0 \<le> n \<Longrightarrow> n < 100 \<Longrightarrow> getnum b (pad_int 2 n @ r) = Some (n, r)"
  by (simp add: pad_two is_digit_digit digits_value_pair)

lemma num_in_pad:
  "0 \<le> n \<Longrightarrow> n < 100 \<Longrightarrow> lo \<le> n \<Longrightarrow> n \<le> hi \<Longrightarrow> num_in b lo hi (pad_int 2 n @ r) = Some (n, r)"
  by (simp add: num_in_def getnum_pad)

lemma get_year_pad: "0 \<le> y \<Longrightarrow> y \<le> 9999 \<Longrightarrow> get_year (pad_int 4 y @ r) = Some (y, r)"
  using pad_int_spec [of y 3] by (simp add: get_year_def eval_nat_numeral)

lemma takeWhile_digits:
  "list_all is_digit ds \<Longrightarrow> r = [] \<or> \<not> is_digit (hd r) \<Longrightarrow> takeWhile is_digit (ds @ r) = ds"
  by (induction ds) (cases r; auto)+

lemma frac_cut:
  assumes "0 < v" and "v < 1000000000"
  obtains ds where "frac_string v 9 = CHR ''.'' # ds" "ds \<noteq> []" "length ds \<le> 9" "list_all is_digit ds"
    "digits_value ds * 10 ^ (9 - length ds) = v"
proof -
  define padded where "padded = pad_int 9 v"
  define ds where "ds = rev (dropWhile (\<lambda>c. c = CHR ''0'') (rev padded))"
  have p: "length padded = 9" "list_all is_digit padded" "digits_value padded = v"
    using pad_int_spec [of v 8] assms by (simp_all add: padded_def eval_nat_numeral)
  define zs where "zs = rev (takeWhile (\<lambda>c. c = CHR ''0'') (rev padded))"
  have split: "padded = ds @ zs"
    unfolding ds_def zs_def by (metis rev_append rev_rev_ident takeWhile_dropWhile_id)
  have "zs = replicate (length zs) (CHR ''0'')"
    unfolding zs_def by (intro replicate_eqI) (auto dest: set_takeWhileD)
  then have "digits_value zs = 0" using digits_value_zeros by metis
  then have v: "digits_value ds * 10 ^ length zs = v" using p(3) by (simp add: split digits_value_append)
  have "length zs = 9 - length ds" "length ds \<le> 9" using p(1) by (simp_all add: split)
  moreover have "ds \<noteq> []" using v assms by (auto simp: digits_value_def)
  moreover have "list_all is_digit ds" using p(2) by (simp add: split)
  moreover have "frac_string v 9 = CHR ''.'' # ds"
    using assms by (simp add: frac_string_def Let_def ds_def padded_def pad_int_def)
  ultimately show ?thesis using that v by metis
qed

lemma get_fraction_text:
  assumes "0 \<le> v" and "v < 1000000000" and "r \<noteq> []" and "hd r \<in> {CHR ''Z'', CHR ''+'', CHR ''-''}"
  shows "get_fraction (frac_string v 9 @ r) = (v, r)"
proof -
  have nd: "\<not> is_digit (hd r)" "hd r \<noteq> CHR ''.''" "hd r \<noteq> CHR '',''" using assms(4) by (auto simp: is_digit_def)
  show ?thesis
  proof (cases "v = 0")
    case True
    then show ?thesis using nd assms(3) by (cases r) (auto simp: frac_string_def get_fraction_def split: list.split)
  next
    case False
    then obtain ds where ds: "frac_string v 9 = CHR ''.'' # ds" "ds \<noteq> []" "length ds \<le> 9" "list_all is_digit ds"
        "digits_value ds * 10 ^ (9 - length ds) = v"
      using frac_cut [of v] assms by auto
    then obtain c cs where c: "ds = c # cs" "is_digit c" by (cases ds) auto
    have "takeWhile is_digit (ds @ r) = ds" using takeWhile_digits [OF ds(4)] nd by blast
    then show ?thesis using ds c by (simp add: get_fraction_def)
  qed
qed

lemma offset_head: "offset_text off \<noteq> [] \<and> hd (offset_text off) \<in> {CHR ''Z'', CHR ''+'', CHR ''-''}"
  by (simp add: offset_text_def Let_def)

lemma get_offset_text:
  assumes "60 dvd off" and "\<bar>off\<bar> div 3600 < 24"
  shows "get_offset (offset_text off) = Some (off, [])"
proof (cases "off = 0")
  case False
  define h m where "h = \<bar>off\<bar> div 60 div 60" and "m = \<bar>off\<bar> div 60 mod 60"
  have "0 \<le> h" "h < 24" "0 \<le> m" "m < 60"
    using assms by (simp_all add: h_def m_def zdiv_zmult2_eq [of 60 _ 60, symmetric] pos_imp_zdiv_nonneg_iff)
  moreover have "(h * 60 + m) * 60 = \<bar>off\<bar>" using assms(1) by (simp add: h_def m_def)
  moreover have "off \<le> - 60 \<or> 60 \<le> off" using assms(1) False by (auto elim!: dvdE)
  moreover have "offset_text off = (if off \<le> - 60 then ''-'' else ''+'') @ pad_int 2 h @ '':'' @ pad_int 2 m"
    using False by (simp add: offset_text_def Let_def h_def m_def)
  ultimately show ?thesis
    by (auto simp: get_offset_def Let_def pad_two is_digit_digit digits_value_pair)
qed (simp add: offset_text_def get_offset_def)

lemma json_time_parses:
  assumes "json_time off t = Some s" and "60 dvd off"
  shows "parse_rfc3339 s = Some t"
proof -
  define c where "c = local_time off t"
  have ok: "clock_ok c" and inst: "date_instant c = t + off * 1000000000"
    using local_time_spec [of off t] by (simp_all add: c_def)
  have y: "0 \<le> ct_year c" "ct_year c \<le> 9999" and o: "\<bar>off\<bar> div 3600 < 24"
    and s: "s = pad_int 4 (ct_year c) @ ''-'' @ pad_int 2 (ct_month c) @ ''-'' @ pad_int 2 (ct_day c) @ ''T'' @
      pad_int 2 (ct_hour c) @ '':'' @ pad_int 2 (ct_min c) @ '':'' @ pad_int 2 (ct_sec c) @
      frac_string (ct_nano c) 9 @ offset_text off"
    using assms(1)
    by (auto simp: json_time_def Let_def c_def rfc3339_nano_def date_text_def second_text_def minute_text_def
        split: if_splits)
  have d: "ct_day c \<le> 31" using ok daysIn_le [of "ct_month c" "ct_year c"] by (simp add: clock_ok_def)
  have frac: "get_fraction (frac_string (ct_nano c) 9 @ offset_text off) = (ct_nano c, offset_text off)"
    using get_fraction_text offset_head ok unfolding clock_ok_def by blast
  have nums: "num_in True 1 12 (pad_int 2 (ct_month c) @ r) = Some (ct_month c, r)"
    "num_in True 0 99 (pad_int 2 (ct_day c) @ r) = Some (ct_day c, r)"
    "num_in False 0 23 (pad_int 2 (ct_hour c) @ r) = Some (ct_hour c, r)"
    "num_in True 0 59 (pad_int 2 (ct_min c) @ r) = Some (ct_min c, r)"
    "num_in True 0 59 (pad_int 2 (ct_sec c) @ r) = Some (ct_sec c, r)" for r
    using ok d by (simp_all add: num_in_pad clock_ok_def)
  have skip: "skip_char x (x # r) = Some r" for x r by (simp add: skip_char_def)
  have "\<lparr>ct_year = ct_year c, ct_month = ct_month c, ct_day = ct_day c, ct_hour = ct_hour c, ct_min = ct_min c,
      ct_sec = ct_sec c, ct_nano = ct_nano c\<rparr> = c"
    by simp
  then have "date_instant \<lparr>ct_year = ct_year c, ct_month = ct_month c, ct_day = ct_day c,
      ct_hour = ct_hour c, ct_min = ct_min c, ct_sec = ct_sec c, ct_nano = ct_nano c\<rparr> - off * 1000000000 = t"
    using inst by (simp only: add_diff_cancel_right')
  then show ?thesis
    unfolding s parse_rfc3339_def
    using ok y
    by (simp add: get_year_pad nums skip frac get_offset_text [OF assms(2) o] clock_ok_def)
qed

text \<open>The texts are printable ASCII.\<close>

definition printable :: "string \<Rightarrow> bool" where
  "printable s \<longleftrightarrow> (\<forall>c \<in> set s. 32 \<le> (of_char c :: nat) \<and> (of_char c :: nat) < 127)"

lemma printable_append [simp]: "printable (a @ b) \<longleftrightarrow> printable a \<and> printable b"
  by (auto simp: printable_def)

lemma printable_simps [simp]: "printable []" "printable (c # s) \<longleftrightarrow> 32 \<le> (of_char c :: nat) \<and> (of_char c :: nat) < 127 \<and> printable s"
  by (auto simp: printable_def)

lemma printable_digits:
  assumes "list_all is_digit s"
  shows "printable s"
proof -
  have "32 \<le> (of_char c :: nat) \<and> (of_char c :: nat) < 127" if "is_digit c" for c
  proof -
    have "int (of_char c) = of_char c" by (rule of_nat_of_char)
    then show ?thesis using that unfolding is_digit_def by linarith
  qed
  with assms show ?thesis by (auto simp: printable_def list_all_iff)
qed

lemma printable_pad: "printable (pad_int w n)"
proof -
  have "printable (digits \<bar>n\<bar>)" using digits_spec [of "\<bar>n\<bar>"] printable_digits by simp
  then show ?thesis by (auto simp: pad_int_def Let_def printable_def)
qed

lemma printable_frac:
  assumes "0 \<le> v" and "v < 1000000000"
  shows "printable (frac_string v 9)"
proof (cases "v = 0")
  case False
  then obtain ds where "frac_string v 9 = CHR ''.'' # ds" "list_all is_digit ds"
    using frac_cut [of v] assms by auto
  then show ?thesis by (simp add: printable_digits)
qed (simp add: frac_string_def)

lemma printable_layouts:
  "printable (date_text c)" "printable (minute_text c)" "printable (second_text c)" "printable (offset_text off)"
  "printable (zn_name z) \<Longrightarrow> printable (zone_text z)"
  by (simp_all add: date_text_def minute_text_def second_text_def offset_text_def zone_text_def Let_def printable_pad)

lemma printable_rfc3339_nano: "printable (rfc3339_nano off t)"
  using local_time_spec(1) [of off t]
  by (simp add: rfc3339_nano_def Let_def printable_layouts printable_frac clock_ok_def)

lemma printable_json_time: "json_time off t = Some s \<Longrightarrow> printable s"
  by (auto simp: json_time_def Let_def printable_rfc3339_nano split: if_splits)

end
