(* ===== verification/BaselineFile.thy ===== *)
theory BaselineFile
  imports Baseline Json GoTime "HOL-Library.AList"
begin

section \<open>The baseline file (internal/result/baseline.go and the JSON tags of result.go)\<close>

text \<open>
  \<open>SaveBaseline\<close> and \<open>LoadBaseline\<close> over a file system that maps paths to contents, and the JSON
  renderer's document. \<open>encode_*\<close> and \<open>decode_*\<close> are what \<open>encoding/json\<close> does for the structs of
  result.go and baseline.go between a struct and the JSON values of \<open>Json\<close>. \<open>None\<close> as the result
  of a decoder is an error of \<open>json.Unmarshal\<close>. \<open>nil\<close> says whether an empty slice is nil, which
  prints as \<open>null\<close>. Time stamps are those of \<open>GoTime\<close>.
\<close>

record baseline = b_findings :: "finding list"

datatype load_error = ReadBaseline string | ParseBaseline string

datatype save_error = WriteBaseline string

subsection \<open>Encoding\<close>

definition encode_detail :: "(string \<times> string) list \<Rightarrow> (string \<times> json) list" where
  "encode_detail d = map (\<lambda>(k, v). (k, JStr v)) (sort_key fst d)"

definition encode_finding :: "finding \<Rightarrow> json" where
  "encode_finding f = JObj
     ([(''check'', JStr (f_check f)), (''status'', JStr (f_status f))]
      @ omit_empty ''resource'' (f_resource f)
      @ omit_empty ''message'' (f_message f)
      @ (if f_detail f = [] then [] else [(''detail'', JObj (encode_detail (f_detail f)))])
      @ (if f_duration f = 0 then [] else [(''duration'', JInt (f_duration f))]))"

definition encode_findings :: "bool \<Rightarrow> finding list \<Rightarrow> json" where
  "encode_findings nil fs = (if fs = [] \<and> nil then JNull else JArr (map encode_finding fs))"

definition encode_baseline :: "bool \<Rightarrow> finding list \<Rightarrow> json" where
  "encode_baseline nil fs = JObj [(''findings'', encode_findings nil fs)]"

definition encode_report :: "string \<Rightarrow> report \<Rightarrow> json" where
  "encode_report time r = JObj
     ([(''generatedAt'', JStr time)]
      @ omit_empty ''cluster'' (r_cluster r)
      @ omit_empty ''distro'' (r_distro r)
      @ [(''findings'', encode_findings (r_nil r) (r_findings r))])"

subsection \<open>Decoding\<close>

fun decode_entries :: "(string \<times> json) list \<Rightarrow> (string \<times> string) list \<Rightarrow> (string \<times> string) list option" where
  "decode_entries [] m = Some m"
| "decode_entries ((k, v) # kvs) m =
     Option.bind (decode_string v []) (\<lambda>s. decode_entries kvs (AList.update k s m))"

fun decode_detail :: "json \<Rightarrow> (string \<times> string) list \<Rightarrow> (string \<times> string) list option" where
  "decode_detail (JObj kvs) old = decode_entries kvs old"
| "decode_detail JNull old = Some []"
| "decode_detail _ old = None"

definition decode_finding_field :: "string \<Rightarrow> json \<Rightarrow> finding \<Rightarrow> finding option" where
  "decode_finding_field k v f =
     (if field_match k ''check'' then
        map_option (\<lambda>s. f\<lparr>f_check := s\<rparr>) (decode_string v (f_check f))
      else if field_match k ''status'' then
        map_option (\<lambda>s. f\<lparr>f_status := s\<rparr>) (decode_string v (f_status f))
      else if field_match k ''resource'' then
        map_option (\<lambda>s. f\<lparr>f_resource := s\<rparr>) (decode_string v (f_resource f))
      else if field_match k ''message'' then
        map_option (\<lambda>s. f\<lparr>f_message := s\<rparr>) (decode_string v (f_message f))
      else if field_match k ''detail'' then
        map_option (\<lambda>d. f\<lparr>f_detail := d\<rparr>) (decode_detail v (f_detail f))
      else if field_match k ''duration'' then
        map_option (\<lambda>d. f\<lparr>f_duration := d\<rparr>) (decode_int64 v (f_duration f))
      else Some f)"

fun decode_finding_fields :: "(string \<times> json) list \<Rightarrow> finding \<Rightarrow> finding option" where
  "decode_finding_fields [] f = Some f"
| "decode_finding_fields ((k, v) # kvs) f =
     Option.bind (decode_finding_field k v f) (decode_finding_fields kvs)"

fun decode_finding :: "json \<Rightarrow> finding option" where
  "decode_finding (JObj kvs) = decode_finding_fields kvs finding0"
| "decode_finding JNull = Some finding0"
| "decode_finding _ = None"

text \<open>The slice a \<open>findings\<close> value decodes to: \<open>None\<close> is Go's nil slice.\<close>

fun decode_findings :: "json \<Rightarrow> finding list option option" where
  "decode_findings (JArr js) = map_option Some (those (map decode_finding js))"
| "decode_findings JNull = Some None"
| "decode_findings _ = None"

fun decode_baseline_fields :: "(string \<times> json) list \<Rightarrow> finding list option \<Rightarrow> finding list option option" where
  "decode_baseline_fields [] fs = Some fs"
| "decode_baseline_fields ((k, v) # kvs) fs =
     Option.bind (if field_match k ''findings'' then decode_findings v else Some fs)
       (decode_baseline_fields kvs)"

fun decode_baseline :: "json \<Rightarrow> finding list option option" where
  "decode_baseline (JObj kvs) = decode_baseline_fields kvs None"
| "decode_baseline JNull = Some None"
| "decode_baseline _ = None"

definition decode_report_field ::
  "string \<Rightarrow> json \<Rightarrow> report \<times> finding list option \<Rightarrow> (report \<times> finding list option) option" where
  "decode_report_field k v = (\<lambda>(r, fs).
     (if field_match k ''generatedAt'' then
        (case v of
           JNull \<Rightarrow> Some (r, fs)
         | JStr s \<Rightarrow> map_option (\<lambda>t. (r\<lparr>r_generated_at := t\<rparr>, fs)) (parse_rfc3339 s)
         | _ \<Rightarrow> None)
      else if field_match k ''cluster'' then
        map_option (\<lambda>s. (r\<lparr>r_cluster := s\<rparr>, fs)) (decode_string v (r_cluster r))
      else if field_match k ''distro'' then
        map_option (\<lambda>s. (r\<lparr>r_distro := s\<rparr>, fs)) (decode_string v (r_distro r))
      else if field_match k ''findings'' then
        map_option (\<lambda>fs'. (r, fs')) (decode_findings v)
      else Some (r, fs)))"

fun decode_report_fields ::
  "(string \<times> json) list \<Rightarrow> report \<times> finding list option \<Rightarrow> (report \<times> finding list option) option" where
  "decode_report_fields [] rf = Some rf"
| "decode_report_fields ((k, v) # kvs) rf =
     Option.bind (decode_report_field k v rf) (decode_report_fields kvs)"



fun decode_report :: "json \<Rightarrow> (report \<times> finding list option) option" where
  "decode_report (JObj kvs) = decode_report_fields kvs (report0, None)"
| "decode_report JNull = Some (report0, None)"
| "decode_report _ = None"

subsection \<open>Saving and loading\<close>

definition nil_slice :: "'a list option \<Rightarrow> 'a list" where
  "nil_slice xs = (case xs of None \<Rightarrow> [] | Some ys \<Rightarrow> ys)"

definition LoadBaseline ::
  "(string \<rightharpoonup> string) \<Rightarrow> string \<Rightarrow> load_error + baseline option" where
  "LoadBaseline files path =
     (if path = [] then Inr None
      else case files path of
        None \<Rightarrow> Inl (ReadBaseline path)
      | Some data \<Rightarrow>
          (case Option.bind (json_parse data) decode_baseline of
             Some (Some fs) \<Rightarrow> Inr (Some \<lparr>b_findings = fs\<rparr>)
           | _ \<Rightarrow>
               (case Option.bind (json_parse data) (decode_report) of
                  None \<Rightarrow> Inl (ParseBaseline path)
                | Some (r, fs) \<Rightarrow> Inr (Some \<lparr>b_findings = nil_slice fs\<rparr>))))"

text \<open>
  \<open>writable\<close> says which paths \<open>os.WriteFile\<close> can write. Marshalling a report cannot fail.
\<close>

definition SaveBaseline ::
  "(string \<Rightarrow> bool) \<Rightarrow> (string \<rightharpoonup> string) \<Rightarrow> string \<Rightarrow> report
     \<Rightarrow> save_error + (string \<rightharpoonup> string)" where
  "SaveBaseline writable files path rep =
     (if path = [] then Inr files
      else if writable path then
        Inr (files(path \<mapsto> MarshalIndent (encode_baseline (r_nil rep) (r_findings rep))))
      else Inl (WriteBaseline path))"

subsection \<open>The codec is a round trip\<close>

text \<open>
  A finding as the program holds it: a map has distinct keys, a duration is an int64; and with
  texts in UTF-8, as those of the Kubernetes API are.
\<close>

definition wf_finding :: "finding \<Rightarrow> bool" where
  "wf_finding f \<longleftrightarrow> distinct (map fst (f_detail f)) \<and> - (2 ^ 63) \<le> f_duration f \<and> f_duration f < 2 ^ 63"

definition utf8_finding :: "finding \<Rightarrow> bool" where
  "utf8_finding f \<longleftrightarrow>
     list_all utf8_string [f_check f, f_status f, f_resource f, f_message f] \<and>
     list_all (\<lambda>(k, v). utf8_string k \<and> utf8_string v) (f_detail f)"

text \<open>The same finding with the entries of its map listed by key.\<close>

definition canon :: "finding \<Rightarrow> finding" where
  "canon f = f\<lparr>f_detail := sort_key fst (f_detail f)\<rparr>"

lemma field_match_simps [simp]:
  "field_match ''check'' ''check''" "\<not> field_match ''status'' ''check''"
  "field_match ''status'' ''status''" "\<not> field_match ''resource'' ''check''"
  "\<not> field_match ''resource'' ''status''" "field_match ''resource'' ''resource''"
  "\<not> field_match ''message'' ''check''" "\<not> field_match ''message'' ''status''"
  "\<not> field_match ''message'' ''resource''" "field_match ''message'' ''message''"
  "\<not> field_match ''detail'' ''check''" "\<not> field_match ''detail'' ''status''"
  "\<not> field_match ''detail'' ''resource''" "\<not> field_match ''detail'' ''message''"
  "field_match ''detail'' ''detail''"
  "\<not> field_match ''duration'' ''check''" "\<not> field_match ''duration'' ''status''"
  "\<not> field_match ''duration'' ''resource''" "\<not> field_match ''duration'' ''message''"
  "\<not> field_match ''duration'' ''detail''" "field_match ''duration'' ''duration''"
  "field_match ''findings'' ''findings''" "\<not> field_match ''findings'' ''generatedAt''"
  "\<not> field_match ''findings'' ''cluster''" "\<not> field_match ''findings'' ''distro''"
  "\<not> field_match ''generatedAt'' ''findings''" "\<not> field_match ''cluster'' ''findings''"
  "\<not> field_match ''distro'' ''findings''" "field_match ''generatedAt'' ''generatedAt''"
  "\<not> field_match ''cluster'' ''generatedAt''" "field_match ''cluster'' ''cluster''"
  "\<not> field_match ''distro'' ''generatedAt''" "\<not> field_match ''distro'' ''cluster''"
  "field_match ''distro'' ''distro''"
  by (simp_all add: field_match_def foldName_ascii byte_Char ascii_lower_def)

lemma alist_update_fresh: "k \<notin> fst ` set m \<Longrightarrow> AList.update k v m = m @ [(k, v)]"
  by (induction m) auto

lemma decode_entries_fresh:
  "distinct (map fst (m @ d)) \<Longrightarrow>
     decode_entries (map (\<lambda>(k, v). (k, JStr v)) d) m = Some (m @ d)"
proof (induction d arbitrary: m)
  case (Cons kv d)
  obtain k v where kv: "kv = (k, v)" by (cases kv)
  have "AList.update k v m = m @ [(k, v)]"
    using Cons.prems kv by (intro alist_update_fresh) force
  then show ?case using Cons kv by simp
qed simp

lemma decode_detail_encode:
  "distinct (map fst d) \<Longrightarrow> decode_detail (JObj (encode_detail d)) [] = Some (sort_key fst d)"
  using decode_entries_fresh [of "[]" "sort_key fst d"]
  by (simp add: encode_detail_def distinct_map)

lemma decode_finding_encode:
  assumes "wf_finding f"
  shows "decode_finding (encode_finding f) = Some (canon f)"
  using assms decode_detail_encode [of "f_detail f"]
  by (cases f) (auto simp: encode_finding_def omit_empty_def decode_finding_field_def wf_finding_def
      canon_def finding0_def simp del: decode_detail.simps)

lemma decode_findings_encode:
  "\<forall>f \<in> set fs. wf_finding f \<Longrightarrow>
     decode_findings (encode_findings nil fs) = Some (if fs = [] \<and> nil then None else Some (map canon fs))"
proof -
  assume wf: "\<forall>f \<in> set fs. wf_finding f"
  then have "those (map decode_finding (map encode_finding fs)) = Some (map canon fs)"
    by (induction fs) (simp_all add: decode_finding_encode)
  then show ?thesis by (simp add: encode_findings_def del: map_map)
qed

lemma utf8_names [simp]:
  "utf8_string ''check''" "utf8_string ''status''" "utf8_string ''resource''" "utf8_string ''message''"
  "utf8_string ''detail''" "utf8_string ''duration''" "utf8_string ''findings''"
  "utf8_string ''generatedAt''" "utf8_string ''cluster''" "utf8_string ''distro''"
  by (rule utf8_ascii; simp add: byte_Char)+

lemma encode_finding_shape:
  "integral (encode_finding f)" "depth (encode_finding f) \<le> 2"
  "utf8_finding f \<Longrightarrow> utf8_json (encode_finding f)"
proof -
  have "foldr max (map (\<lambda>(k, j). depth j) (encode_detail d)) 0 = 0" for d
    by (simp add: encode_detail_def o_def case_prod_beta foldr_max_zero)
  then show "integral (encode_finding f)" "depth (encode_finding f) \<le> 2"
    "utf8_finding f \<Longrightarrow> utf8_json (encode_finding f)"
    by (auto simp: encode_finding_def omit_empty_def encode_detail_def utf8_finding_def list_all_iff)
qed

lemma encode_findings_shape:
  "integral (encode_findings nil fs)" "depth (encode_findings nil fs) \<le> 3"
  "\<forall>f \<in> set fs. utf8_finding f \<Longrightarrow> utf8_json (encode_findings nil fs)"
proof -
  have "foldr max (map depth (map encode_finding fs)) 0 \<le> 2"
    by (induction fs) (simp_all add: encode_finding_shape)
  then show "integral (encode_findings nil fs)" "depth (encode_findings nil fs) \<le> 3"
    "\<forall>f \<in> set fs. utf8_finding f \<Longrightarrow> utf8_json (encode_findings nil fs)"
    by (auto simp: encode_findings_def encode_finding_shape list_all_iff simp del: map_map)
qed

abbreviation good_finding :: "finding \<Rightarrow> bool" where
  "good_finding f \<equiv> wf_finding f \<and> utf8_finding f"

text \<open>The baseline file and the JSON report, each with the decoder of \<open>LoadBaseline\<close> that reads it.\<close>

interpretation bj: json_struct
  "\<lambda>(nil, fs). encode_baseline nil fs" decode_baseline "\<lambda>(nil, fs). \<forall>f \<in> set fs. good_finding f"
  "\<lambda>(nil, fs). if fs = [] \<and> nil then None else Some (map canon fs)"
proof (unfold_locales; clarify)
  fix nil fs
  show "integral (encode_baseline nil fs)" "depth (encode_baseline nil fs) \<le> 10000"
    using encode_findings_shape(1,2) [where nil = nil and fs = fs] by (simp_all add: encode_baseline_def)
  assume g: "\<forall>f \<in> set fs. good_finding f"
  then show "utf8_json (encode_baseline nil fs)"
    using encode_findings_shape(3) [where nil = nil and fs = fs] by (simp add: encode_baseline_def)
  show "decode_baseline (encode_baseline nil fs) = Some (if fs = [] \<and> nil then None else Some (map canon fs))"
    using g decode_findings_encode [of fs nil] by (simp add: encode_baseline_def)
qed

lemma report_shape:
  "integral (encode_report t r)" "depth (encode_report t r) \<le> 10000"
  "utf8_string t \<Longrightarrow> utf8_string (r_cluster r) \<Longrightarrow> utf8_string (r_distro r) \<Longrightarrow>
     \<forall>f \<in> set (r_findings r). utf8_finding f \<Longrightarrow> utf8_json (encode_report t r)"
  using encode_findings_shape [where nil = "r_nil r" and fs = "r_findings r"]
  by (auto simp: encode_report_def omit_empty_def)

interpretation rj: json_struct
  "\<lambda>(t, r). encode_report t r" decode_baseline
  "\<lambda>(t, r). utf8_string t \<and> utf8_string (r_cluster r) \<and> utf8_string (r_distro r) \<and>
     (\<forall>f \<in> set (r_findings r). good_finding f)"
  "\<lambda>(t, r). if r_findings r = [] \<and> r_nil r then None else Some (map canon (r_findings r))"
proof (unfold_locales; clarify)
  fix t r
  show "integral (encode_report t r)" "depth (encode_report t r) \<le> 10000" by (rule report_shape)+
  assume g: "utf8_string t" "utf8_string (r_cluster r)" "utf8_string (r_distro r)"
    "\<forall>f \<in> set (r_findings r). good_finding f"
  then show "utf8_json (encode_report t r)" using report_shape(3) by blast
  show "decode_baseline (encode_report t r) =
      Some (if r_findings r = [] \<and> r_nil r then None else Some (map canon (r_findings r)))"
    using g decode_findings_encode [of "r_findings r" "r_nil r"]
    by (auto simp: encode_report_def omit_empty_def)
qed

lemma compare_key_canon: "compare_key (canon f) = compare_key f"
  by (simp add: compare_key_def canon_def)

lemma load_saved:
  assumes "path \<noteq> []" and "\<forall>f \<in> set (r_findings rep). good_finding f"
    and "SaveBaseline writable files path rep = Inr files'"
  shows "LoadBaseline files' path = Inr (Some \<lparr>b_findings = map canon (r_findings rep)\<rparr>)"
proof -
  let ?j = "encode_baseline (r_nil rep) (r_findings rep)"
  have p: "json_parse (MarshalIndent ?j) = Some ?j"
    and d: "decode_baseline ?j = Some (if r_findings rep = [] \<and> r_nil rep then None else Some (map canon (r_findings rep)))"
    using bj.parse_enc(2) [of "(r_nil rep, r_findings rep)"] bj.dec_enc [of "(r_nil rep, r_findings rep)"] assms(2)
    by simp_all
  show ?thesis
  proof (cases "r_findings rep = [] \<and> r_nil rep")
    case True
    then have "decode_report ?j = Some (report0, None)"
      by (simp add: encode_baseline_def encode_findings_def decode_report_field_def)
    then show ?thesis
      using assms p d True by (auto simp: LoadBaseline_def SaveBaseline_def nil_slice_def split: if_splits)
  next
    case False
    then show ?thesis
      using assms p d by (auto simp: LoadBaseline_def SaveBaseline_def split: if_splits)
  qed
qed


lemma decode_empty_report:
  assumes "parse_rfc3339 t = Some i" and "r_findings r = []" and "r_nil r"
  shows "\<exists>r'. decode_report (encode_report t r) = Some (r', None)"
  using assms by (auto simp: encode_report_def omit_empty_def encode_findings_def decode_report_field_def)

lemma utf8_time: "json_time off i = Some t \<Longrightarrow> utf8_string t"
  using printable_json_time [of off i t] by (intro utf8_ascii) (auto simp: printable_def list_all_iff byte_def)

lemma load_json_output:
  assumes "path \<noteq> []" and "files path = Some (Encode (encode_report t rep))"
    and "\<forall>f \<in> set (r_findings rep). wf_finding f \<and> utf8_finding f"
    and "utf8_string (r_cluster rep)" and "utf8_string (r_distro rep)"
    and "json_time off i = Some t" and "60 dvd off"
  shows "LoadBaseline files path = Inr (Some \<lparr>b_findings = map canon (r_findings rep)\<rparr>)"
proof -
  have p: "json_parse (Encode (encode_report t rep)) = Some (encode_report t rep)"
    and d: "decode_baseline (encode_report t rep) =
      Some (if r_findings rep = [] \<and> r_nil rep then None else Some (map canon (r_findings rep)))"
    using rj.parse_enc(3) [of "(t, rep)"] rj.dec_enc [of "(t, rep)"] assms(3-5) utf8_time [OF assms(6)] by simp_all
  show ?thesis
  proof (cases "r_findings rep = [] \<and> r_nil rep")
    case True
    then obtain r' where "decode_report (encode_report t rep) = Some (r', None)"
      using decode_empty_report [OF json_time_parses [OF assms(6,7)]] by blast
    then show ?thesis using assms(1,2) p d True by (simp add: LoadBaseline_def nil_slice_def)
  next
    case False
    then show ?thesis using assms(1,2) p d [unfolded if_not_P [OF False]] by (simp add: LoadBaseline_def)
  qed
qed

subsection \<open>Properties\<close>

text \<open>
  C14. What \<open>SaveBaseline\<close> writes, \<open>LoadBaseline\<close> reads back, byte for byte through the JSON text:
  loading the saved path gives the report's findings (the entries of each \<open>Detail\<close> map listed
  by key), whatever was in the file before, and saving touches no other file.
\<close>

theorem baseline_roundtrip:
  assumes path: "path \<noteq> []"
    and good: "\<forall>f \<in> set (r_findings rep). wf_finding f \<and> utf8_finding f"
    and save: "SaveBaseline writable files path rep = Inr files'"
  shows "LoadBaseline files' path
           = Inr (Some \<lparr>b_findings = map canon (r_findings rep)\<rparr>) \<and>
         (\<forall>p. p \<noteq> path \<longrightarrow> files' p = files p)"
  using load_saved [of path rep writable files files'] assms
  by (auto simp: SaveBaseline_def split: if_splits)

text \<open>A report with a map of details, a quote, a newline, an angle bracket and a non-ASCII letter.\<close>

definition demo_saved :: report where
  "demo_saved = report0\<lparr>r_findings := [(mk_finding ''pods.backoff'' StatusCritical ''pod/a''
       ([CHR 0x22, CHR 0x0A, CHR ''<'', CHR 0xC3, CHR 0xA9]))
       \<lparr>f_detail := [(''reason'', ''x''), (''image'', ''y'')], f_duration := 1500\<rparr>]\<rparr>"

lemma demo_saved_good: "\<forall>f \<in> set (r_findings demo_saved). wf_finding f \<and> utf8_finding f"
  unfolding demo_saved_def by code_simp

lemma demo_saved_canon:
  "map canon (r_findings demo_saved) = [(mk_finding ''pods.backoff'' StatusCritical ''pod/a''
       ([CHR 0x22, CHR 0x0A, CHR ''<'', CHR 0xC3, CHR 0xA9]))
       \<lparr>f_detail := [(''image'', ''y''), (''reason'', ''x'')], f_duration := 1500\<rparr>]"
proof -
  have "sort_key fst [(''reason'', ''x''), (''image'', ''y'')] =
      [(''image'', ''y''), (''reason'', ''x'')]" by code_simp
  then show ?thesis by (simp add: demo_saved_def canon_def)
qed

theorem baseline_roundtrip_witness:
  "\<exists>files'. SaveBaseline (\<lambda>_. True) Map.empty ''base.json'' demo_saved = Inr files' \<and>
     LoadBaseline files' ''base.json'' =
       Inr (Some \<lparr>b_findings = [(mk_finding ''pods.backoff'' StatusCritical ''pod/a''
         ([CHR 0x22, CHR 0x0A, CHR ''<'', CHR 0xC3, CHR 0xA9]))
         \<lparr>f_detail := [(''image'', ''y''), (''reason'', ''x'')], f_duration := 1500\<rparr>]\<rparr>)"
  using baseline_roundtrip [OF _ demo_saved_good, of "''base.json''" "\<lambda>_. True" Map.empty]
  by (simp add: SaveBaseline_def demo_saved_canon)

text \<open>
  Saving a run as the baseline and comparing the same findings with it leaves nothing New
  and nothing Cleared: everything is Persisting, in order.
\<close>

lemma compare_with_saved_self:
  assumes path: "path \<noteq> []"
    and good: "\<forall>f \<in> set (r_findings rep). good_finding f"
    and save: "SaveBaseline writable files path rep = Inr files'"
  shows "\<exists>b. LoadBaseline files' path = Inr (Some b) \<and>
             Compare (b_findings b) (r_findings rep) =
               \<lparr>d_new = [], d_cleared = [], d_persisting = r_findings rep\<rparr>"
proof -
  have "compare_key ` set (map canon (r_findings rep)) = compare_key ` set (r_findings rep)"
    by (simp add: image_image compare_key_canon)
  then show ?thesis
    using load_saved [of path rep writable files files'] assms
    by (auto simp: Compare_eq compare_key_canon filter_empty_conv)
qed

end
