(* ===== verification/Registry.thy ===== *)
theory Registry
  imports Result "HOL-Library.Word"
begin

unbundle bit_operations_syntax

section \<open>Checks, their registry and distributions (internal/checks/registry.go, distro*.go)\<close>

text \<open>
  A \<open>Check\<close> is an interface value: a record of what its methods return, with \<open>Run\<close> as a
  function of the environment \<open>'e\<close>; \<open>chk_distros\<close> is \<open>None\<close> for a check that does not
  implement \<open>DistroAware\<close>. The registry's map is an association list whose order stands for
  the unspecified iteration order of a Go map: \<open>All\<close> sorts, and \<open>all_order_irrelevant\<close>
  shows that the order never shows. \<open>Register\<close> returns \<open>Inl\<close> of the panic message.
  The mutex is not modelled: every operation is one atomic step.
\<close>

subsection \<open>Categories and capabilities\<close>

definition CategoryWorkload :: string where "CategoryWorkload = ''workload''"
definition CategoryNode :: string where "CategoryNode = ''node''"
definition CategoryStorage :: string where "CategoryStorage = ''storage''"
definition CategoryNetwork :: string where "CategoryNetwork = ''network''"
definition CategoryControlPlane :: string where "CategoryControlPlane = ''controlplane''"
definition CategoryEvents :: string where "CategoryEvents = ''events''"

type_synonym capabilities = "32 word"

definition CapAPIServer :: capabilities where "CapAPIServer = push_bit 0 1"
definition CapInCluster :: capabilities where "CapInCluster = push_bit 1 1"

definition Has :: "capabilities \<Rightarrow> capabilities \<Rightarrow> bool" where
  "Has c want \<longleftrightarrow> c AND want = want"

lemma Has_refl: "Has c c"
  by (simp add: Has_def)

lemma Has_or: "Has c want \<Longrightarrow> Has (c OR d) want"
  by (auto simp: Has_def bit_eq_iff bit_simps)

subsection \<open>The registry\<close>

record 'e check =
  chk_id :: string
  chk_desc :: string
  chk_cats :: "string list"
  chk_requires :: capabilities
  chk_distros :: "string list option"
  chk_run :: "'e \<Rightarrow> finding list"

record 'e registry = reg_m :: "(string \<times> 'e check) list"

definition NewRegistry :: "'e registry" where
  "NewRegistry = \<lparr>reg_m = []\<rparr>"

definition Register :: "'e check \<Rightarrow> 'e registry \<Rightarrow> string + 'e registry" where
  "Register c r =
     (if map_of (reg_m r) (chk_id c) \<noteq> None then Inl (''checks: duplicate id: '' @ chk_id c)
      else Inr (r\<lparr>reg_m := (chk_id c, c) # reg_m r\<rparr>))"

definition All_checks :: "'e registry \<Rightarrow> 'e check list" where
  "All_checks r = sort_key chk_id (map snd (reg_m r))"

text \<open>The \<open>init\<close> functions of the package register one check after another.\<close>

fun register_all :: "'e check list \<Rightarrow> 'e registry \<Rightarrow> string + 'e registry" where
  "register_all [] r = Inr r"
| "register_all (c # cs) r = (case Register c r of Inl e \<Rightarrow> Inl e | Inr r' \<Rightarrow> register_all cs r')"

subsection \<open>Distributions\<close>

definition DistroAuto :: string where "DistroAuto = ''auto''"
definition DistroRKE2 :: string where "DistroRKE2 = ''rke2''"
definition DistroK3s :: string where "DistroK3s = ''k3s''"
definition DistroKubeadm :: string where "DistroKubeadm = ''kubeadm''"
definition DistroEKS :: string where "DistroEKS = ''eks''"

lemmas distro_defs = DistroAuto_def DistroRKE2_def DistroK3s_def DistroKubeadm_def DistroEKS_def

definition AllDistros :: "string list" where
  "AllDistros = [DistroRKE2, DistroK3s, DistroKubeadm, DistroEKS]"

datatype distro_error = UnknownDistro string

definition ParseDistro :: "string \<Rightarrow> distro_error + string" where
  "ParseDistro s =
     (if s = DistroAuto \<or> s = DistroRKE2 \<or> s = DistroK3s \<or> s = DistroKubeadm \<or> s = DistroEKS
      then Inr s
      else if s = [] then Inr DistroAuto
      else Inl (UnknownDistro s))"

definition AppliesToDistro :: "'e check \<Rightarrow> string \<Rightarrow> bool" where
  "AppliesToDistro c distro =
     (case chk_distros c of None \<Rightarrow> True | Some ds \<Rightarrow> list_ex (\<lambda>d. d = distro) ds)"

text \<open>
  What \<open>DetectDistro\<close> asks the cluster: whether the Get of a Lease succeeds, and the label
  keys of the nodes a List with a limit returns (\<open>None\<close> is an error).
\<close>

record detect_env =
  de_lease :: "string \<Rightarrow> string \<Rightarrow> bool"
  de_nodes :: "nat \<Rightarrow> string list list option"

definition has_prefix :: "string \<Rightarrow> string \<Rightarrow> bool" where
  "has_prefix s p \<longleftrightarrow> take (length p) s = p"

definition nodeLabelPrefixExists :: "detect_env \<Rightarrow> string \<Rightarrow> bool" where
  "nodeLabelPrefixExists env p =
     (case de_nodes env 1 of
        None \<Rightarrow> False
      | Some nodes \<Rightarrow> list_ex (\<lambda>labels. list_ex (\<lambda>k. has_prefix k p) labels) nodes)"

definition DetectDistro :: "detect_env option \<Rightarrow> string" where
  "DetectDistro e =
     (case e of
        None \<Rightarrow> DistroKubeadm
      | Some env \<Rightarrow>
          if de_lease env ''kube-system'' ''rke2'' then DistroRKE2
          else if de_lease env ''kube-system'' ''k3s'' then DistroK3s
          else if nodeLabelPrefixExists env ''eks.amazonaws.com/'' then DistroEKS
          else DistroKubeadm)"

subsection \<open>Filtering\<close>

fun stringSet_loop :: "string list \<Rightarrow> string set \<Rightarrow> string set" where
  "stringSet_loop [] m = m"
| "stringSet_loop (s # ss) m = stringSet_loop ss (if s = [] then m else insert s m)"

definition stringSet :: "string list \<Rightarrow> string set" where
  "stringSet xs = stringSet_loop xs {}"

definition categoryMatch :: "'e check \<Rightarrow> string set \<Rightarrow> bool" where
  "categoryMatch c want = list_ex (\<lambda>cat. cat \<in> want) (chk_cats c)"

definition keeps :: "string set \<Rightarrow> string set \<Rightarrow> string set \<Rightarrow> string \<Rightarrow> 'e check \<Rightarrow> bool" where
  "keeps includeSet excludeSet catSet distro c =
     (if chk_id c \<in> excludeSet then False
      else if includeSet \<noteq> {} \<and> chk_id c \<notin> includeSet then False
      else if catSet \<noteq> {} \<and> \<not> categoryMatch c catSet then False
      else if distro \<noteq> [] \<and> distro \<noteq> DistroAuto \<and> \<not> AppliesToDistro c distro then False
      else True)"

fun filter_loop :: "('e check \<Rightarrow> bool) \<Rightarrow> 'e check list \<Rightarrow> 'e check list \<Rightarrow> 'e check list" where
  "filter_loop keep [] out = out"
| "filter_loop keep (c # cs) out = filter_loop keep cs (if keep c then out @ [c] else out)"

definition Filter_checks ::
  "'e registry \<Rightarrow> string list \<Rightarrow> string list \<Rightarrow> string list \<Rightarrow> string \<Rightarrow> 'e check list" where
  "Filter_checks r include exclude cats distro =
     filter_loop (keeps (stringSet include) (stringSet exclude) (set cats) distro) (All_checks r) []"

lemma stringSet_eq: "stringSet xs = set xs - {[]}"
proof -
  have "stringSet_loop xs m = m \<union> (set xs - {[]})" for m
    by (induction xs arbitrary: m) auto
  then show ?thesis by (simp add: stringSet_def)
qed

lemma filter_loop_eq: "filter_loop keep cs out = out @ filter keep cs"
  by (induction cs arbitrary: out) auto

lemma Filter_checks_eq:
  "Filter_checks r include exclude cats distro =
     filter (keeps (stringSet include) (stringSet exclude) (set cats) distro) (All_checks r)"
  by (simp add: Filter_checks_def filter_loop_eq)

lemma ParseDistro_result: "ParseDistro s = Inr d \<Longrightarrow> d = (if s = [] then DistroAuto else s)"
  by (auto simp: ParseDistro_def distro_defs split: if_splits)

lemma categoryMatch_iff: "categoryMatch c want \<longleftrightarrow> set (chk_cats c) \<inter> want \<noteq> {}"
  by (auto simp: categoryMatch_def list_ex_iff)

lemma AppliesToDistro_iff:
  "AppliesToDistro c d \<longleftrightarrow> (case chk_distros c of None \<Rightarrow> True | Some ds \<Rightarrow> d \<in> set ds)"
  by (auto simp: AppliesToDistro_def list_ex_iff split: option.splits)

subsection \<open>The contract of a registry\<close>

locale check_registry =
  fixes empty :: "'r"
    and register :: "'c \<Rightarrow> 'r \<Rightarrow> string + 'r"
    and listing :: "'r \<Rightarrow> 'c list"
    and ident :: "'c \<Rightarrow> string"
    and inv :: "'r \<Rightarrow> bool"
  assumes inv_empty: "inv empty"
    and listing_empty: "listing empty = []"
    and register_dup: "inv r \<Longrightarrow> ident c \<in> ident ` set (listing r) \<Longrightarrow> \<exists>e. register c r = Inl e"
    and register_new: "inv r \<Longrightarrow> ident c \<notin> ident ` set (listing r) \<Longrightarrow>
      \<exists>r'. register c r = Inr r' \<and> inv r' \<and> set (listing r') = insert c (set (listing r))"
    and listing_sorted: "inv r \<Longrightarrow> sorted (map ident (listing r))"
    and listing_distinct: "inv r \<Longrightarrow> distinct (map ident (listing r))"
begin

lemma listing_strict: "inv r \<Longrightarrow> sorted_wrt (<) (map ident (listing r))"
  using listing_sorted listing_distinct by (simp add: strict_sorted_iff)

lemma register_cases:
  assumes "inv r"
  obtains (dup) e where "register c r = Inl e" "ident c \<in> ident ` set (listing r)"
  | (new) r' where "register c r = Inr r'" "inv r'" "set (listing r') = insert c (set (listing r))"
      "ident c \<notin> ident ` set (listing r)"
  using register_dup [OF assms, of c] register_new [OF assms, of c] by metis

end

definition wf_registry :: "'e registry \<Rightarrow> bool" where
  "wf_registry r \<longleftrightarrow> distinct (map fst (reg_m r)) \<and> (\<forall>(k, c) \<in> set (reg_m r). k = chk_id c)"

lemma wf_registry_ids: "wf_registry r \<Longrightarrow> map chk_id (map snd (reg_m r)) = map fst (reg_m r)"
  by (auto simp: wf_registry_def)

lemma set_All_checks [simp]: "set (All_checks r) = snd ` set (reg_m r)"
  by (simp add: All_checks_def)

lemma distinct_All_checks: "wf_registry r \<Longrightarrow> distinct (map chk_id (All_checks r))"
proof -
  assume wf: "wf_registry r"
  have "mset (map chk_id (All_checks r)) = mset (map chk_id (map snd (reg_m r)))"
    by (simp only: All_checks_def mset_map mset_sort)
  then show ?thesis
    using wf wf_registry_ids [OF wf] mset_eq_imp_distinct_iff
    by (metis wf_registry_def)
qed

lemma ids_All_checks: "wf_registry r \<Longrightarrow> chk_id ` set (All_checks r) = fst ` set (reg_m r)"
  by (force simp: wf_registry_def image_image)

interpretation rg: check_registry NewRegistry Register All_checks chk_id wf_registry
proof
  fix r :: "'a registry" and c :: "'a check"
  assume wf: "wf_registry r"
  show "\<exists>e. Register c r = Inl e" if "chk_id c \<in> chk_id ` set (All_checks r)"
    using that ids_All_checks [OF wf] by (simp add: Register_def map_of_eq_None_iff)
  show "\<exists>r'. Register c r = Inr r' \<and> wf_registry r' \<and>
      set (All_checks r') = insert c (set (All_checks r))"
    if "chk_id c \<notin> chk_id ` set (All_checks r)"
    using that wf ids_All_checks [OF wf]
    by (simp add: Register_def map_of_eq_None_iff wf_registry_def)
  show "sorted (map chk_id (All_checks r))" by (simp add: All_checks_def)
  show "distinct (map chk_id (All_checks r))" using wf by (rule distinct_All_checks)
qed (simp_all add: wf_registry_def NewRegistry_def All_checks_def)

lemma register_all_fresh:
  assumes "wf_registry r" and "distinct (map chk_id cs)"
    and "chk_id ` set cs \<inter> chk_id ` set (All_checks r) = {}"
  shows "\<exists>r'. register_all cs r = Inr r' \<and> wf_registry r' \<and>
           set (All_checks r') = set cs \<union> set (All_checks r)"
  using assms
proof (induction cs arbitrary: r)
  case (Cons c cs)
  from Cons.prems(1) show ?case
  proof (cases rule: rg.register_cases [where c = c])
    case (dup e)
    then show ?thesis using Cons.prems(3) by auto
  next
    case (new r')
    have "chk_id ` set cs \<inter> chk_id ` set (All_checks r') = {}"
      using Cons.prems(2,3) new(3) by (auto simp del: set_All_checks)
    then show ?thesis
      using Cons.IH [OF new(2)] Cons.prems(2) new(1,3) by (auto simp del: set_All_checks)
  qed
qed simp

lemma register_all_ids:
  "wf_registry r \<Longrightarrow> register_all cs r = Inr r' \<Longrightarrow> wf_registry r' \<and>
     distinct (map chk_id cs) \<and> chk_id ` set cs \<inter> chk_id ` set (All_checks r) = {}"
proof (induction cs arbitrary: r)
  case (Cons c cs)
  from Cons.prems(1) show ?case
  proof (cases rule: rg.register_cases [where c = c])
    case (dup e)
    then show ?thesis using Cons.prems(2) by simp
  next
    case (new r1)
    then show ?thesis
      using Cons.IH [of r1] Cons.prems(2) by (auto simp del: set_All_checks)
  qed
qed simp

lemma sorted_set_unique_checks:
  assumes "sorted (map chk_id xs)" "distinct (map chk_id xs)" "distinct (map chk_id ys)"
    and "set xs = set ys"
  shows "xs = sort_key chk_id ys"
proof -
  have "mset xs = mset ys"
    using assms by (metis distinct_map set_eq_iff_mset_eq_distinct)
  then have "sort_key chk_id xs = sort_key chk_id ys"
    using assms(2) by (rule sort_key_perm_eq)
  then show ?thesis using assms(1) by (simp add: sort_key_id_if_sorted)
qed

lemma register_distinct:
  assumes "distinct (map chk_id cs)"
  shows "\<exists>r. register_all cs NewRegistry = Inr r \<and> All_checks r = sort_key chk_id cs"
proof -
  obtain r where r: "register_all cs NewRegistry = Inr r" "wf_registry r" "set (All_checks r) = set cs"
    using register_all_fresh [OF rg.inv_empty, of cs] assms
    by (auto simp: rg.listing_empty simp del: set_All_checks)
  then have "All_checks r = sort_key chk_id cs"
    using sorted_set_unique_checks [OF rg.listing_sorted rg.listing_distinct assms r(3)] by simp
  with r(1) show ?thesis by blast
qed

subsection \<open>Properties\<close>

text \<open>
  Registration: registering a list of checks succeeds exactly when their ids are pairwise
  distinct, and then \<open>All\<close> lists exactly these checks, sorted by id; a duplicate id panics.
\<close>

lemma registration_complete:
  "(if distinct (map chk_id cs)
    then \<exists>r. register_all cs NewRegistry = Inr r \<and> All_checks r = sort_key chk_id cs
    else \<exists>e. register_all cs NewRegistry = Inl e)"
proof (cases "distinct (map chk_id cs)")
  case True
  then show ?thesis using register_distinct by simp
next
  case False
  then show ?thesis
    using register_all_ids [OF rg.inv_empty, of cs] by (cases "register_all cs NewRegistry") auto
qed

text \<open>
  The output of \<open>All\<close> does not depend on the iteration order of the registry's map: any
  two orders of the same entries give the same list.
\<close>

lemma all_order_irrelevant:
  assumes "wf_registry r" and "mset (reg_m r) = mset (reg_m r')"
  shows "All_checks r = All_checks r'"
proof -
  have "mset (map snd (reg_m r)) = mset (map snd (reg_m r'))" using assms(2) by simp
  moreover have "distinct (map chk_id (map snd (reg_m r)))"
    unfolding wf_registry_ids [OF assms(1)] using assms(1) by (simp add: wf_registry_def)
  ultimately show ?thesis unfolding All_checks_def by (rule sort_key_perm_eq)
qed

definition demo_check :: "string \<Rightarrow> string list \<Rightarrow> string list option \<Rightarrow> unit check" where
  "demo_check i cats ds = \<lparr>chk_id = i, chk_desc = [], chk_cats = cats, chk_requires = CapAPIServer,
     chk_distros = ds, chk_run = (\<lambda>_. [mk_finding i StatusOK [] []])\<rparr>"

lemma all_order_irrelevant_example:
  "All_checks \<lparr>reg_m = [(''b'', demo_check ''b'' [] None), (''a'', demo_check ''a'' [] None)]\<rparr> =
   All_checks \<lparr>reg_m = [(''a'', demo_check ''a'' [] None), (''b'', demo_check ''b'' [] None)]\<rparr>"
  by (rule all_order_irrelevant) (simp_all add: wf_registry_def demo_check_def)

text \<open>
  C10. \<open>Filter\<close> selects exactly the registered checks that are not excluded, are named by
  \<open>include\<close> unless it names none, share a category unless none is given, and apply to the
  distribution unless it is empty or \<open>auto\<close>; empty strings in the two lists are ignored, an
  exclusion wins over an inclusion, and the result is sorted by id without duplicates.
\<close>

theorem filter_selects:
  assumes "wf_registry r"
  shows "(c \<in> set (Filter_checks r include exclude cats distro) \<longleftrightarrow>
            c \<in> set (All_checks r) \<and>
            (chk_id c \<noteq> [] \<longrightarrow> chk_id c \<notin> set exclude) \<and>
            (set include \<subseteq> {[]} \<or> (chk_id c \<noteq> [] \<and> chk_id c \<in> set include)) \<and>
            (cats = [] \<or> set (chk_cats c) \<inter> set cats \<noteq> {}) \<and>
            (distro \<in> {[], DistroAuto} \<or>
               (case chk_distros c of None \<Rightarrow> True | Some ds \<Rightarrow> distro \<in> set ds))) \<and>
         sorted_wrt (<) (map chk_id (Filter_checks r include exclude cats distro))"
proof
  show "c \<in> set (Filter_checks r include exclude cats distro) \<longleftrightarrow>
      c \<in> set (All_checks r) \<and> (chk_id c \<noteq> [] \<longrightarrow> chk_id c \<notin> set exclude) \<and>
      (set include \<subseteq> {[]} \<or> (chk_id c \<noteq> [] \<and> chk_id c \<in> set include)) \<and>
      (cats = [] \<or> set (chk_cats c) \<inter> set cats \<noteq> {}) \<and>
      (distro \<in> {[], DistroAuto} \<or>
         (case chk_distros c of None \<Rightarrow> True | Some ds \<Rightarrow> distro \<in> set ds))"
    by (auto simp: Filter_checks_eq keeps_def stringSet_eq categoryMatch_iff AppliesToDistro_iff
        simp del: set_All_checks split: if_splits)
  show "sorted_wrt (<) (map chk_id (Filter_checks r include exclude cats distro))"
    using rg.listing_strict [OF assms] by (simp add: Filter_checks_eq sorted_wrt_map sorted_wrt_filter)
qed

theorem filter_selects_witness:
  "demo_check ''a'' [CategoryNode] None \<in> set (Filter_checks
     \<lparr>reg_m = [(''b'', demo_check ''b'' [CategoryNode] (Some [DistroRKE2])),
               (''a'', demo_check ''a'' [CategoryNode] None)]\<rparr>
     [[]] [''b''] [CategoryNode] DistroK3s)"
proof -
  have wf: "wf_registry \<lparr>reg_m = [(''b'', demo_check ''b'' [CategoryNode] (Some [DistroRKE2])),
      (''a'', demo_check ''a'' [CategoryNode] None)]\<rparr>"
    by (simp add: wf_registry_def demo_check_def)
  show ?thesis
    using filter_selects [OF wf, of "demo_check ''a'' [CategoryNode] None" "[[]]" "[''b'']"
        "[CategoryNode]" DistroK3s]
    by (simp add: demo_check_def)
qed

text \<open>
  Distro detection never yields the sentinel \<open>auto\<close> and always yields a distro that
  \<open>ParseDistro\<close> accepts; an unreachable cluster is kubeadm; and the RKE2 lease wins over the
  k3s lease, which wins over the EKS node labels.
\<close>

lemma detect_distro_total:
  "DetectDistro e \<in> set AllDistros \<and> ParseDistro (DetectDistro e) = Inr (DetectDistro e) \<and>
   DetectDistro e \<noteq> DistroAuto \<and> DetectDistro None = DistroKubeadm \<and>
   (DetectDistro e = DistroRKE2 \<longleftrightarrow> (\<exists>env. e = Some env \<and> de_lease env ''kube-system'' ''rke2'')) \<and>
   (DetectDistro e = DistroK3s \<longleftrightarrow> (\<exists>env. e = Some env \<and> de_lease env ''kube-system'' ''k3s'' \<and>
      \<not> de_lease env ''kube-system'' ''rke2''))"
  by (cases e) (auto simp: DetectDistro_def ParseDistro_def AllDistros_def distro_defs)

end
