(* ===== verification/Runner.thy ===== *)
theory Runner
  imports Registry
begin

section \<open>The runner: one check, and the worker pool (internal/runner/runner.go)\<close>

text \<open>
  \<open>runOne\<close> is the per-check function. \<open>Run\<close>'s goroutines are a step relation on a pool
  state: the feeder's remaining checks, whether it has closed the jobs channel, the workers,
  the findings the collector has appended, and the state of the context. Both channels are
  unbuffered, so a send and its receive are one step. A worker is idle (ranging over jobs),
  running a check, sending the findings of its check one by one, or returned. The feeder's
  \<open>select\<close> may take either branch when both are ready, so \<open>dispatch\<close> stays possible after
  the context is done. The call returns when every worker has returned.

  The clock is a parameter (\<open>dur\<close>: the measured duration of each check), and so is
  \<open>with_timeout\<close> (what \<open>context.WithTimeout\<close> does to the environment a check sees).
\<close>

record run_options =
  opt_workers :: int
  opt_timeout :: duration
  opt_caps :: capabilities

definition defaultWorkers :: int where "defaultWorkers = 8"

definition worker_count :: "run_options \<Rightarrow> nat" where
  "worker_count opts = nat (if opt_workers opts \<le> 0 then defaultWorkers else opt_workers opts)"

definition runOne ::
  "run_options \<Rightarrow> (duration \<Rightarrow> 'e \<Rightarrow> 'e) \<Rightarrow> 'e \<Rightarrow> (string \<Rightarrow> duration) \<Rightarrow> 'e check \<Rightarrow> finding list" where
  "runOne opts with_timeout env dur c =
     (if \<not> Has (opt_caps opts) (chk_requires c) then
        [mk_finding (chk_id c) StatusSkipped [] ''missing required capability for this environment'']
      else
        let runEnv = (if opt_timeout opts > 0 then with_timeout (opt_timeout opts) env else env);
            out = chk_run c runEnv
        in map (\<lambda>f. f\<lparr>f_duration := dur (chk_id c)\<rparr>) out)"

definition clusterName :: "string option \<Rightarrow> string" where
  "clusterName env = (case env of None \<Rightarrow> [] | Some c \<Rightarrow> c)"

subsection \<open>The pool\<close>

datatype 'c worker = WIdle | WRun 'c | WSend "finding list" | WExit

datatype ctx_err = CtxLive | CtxCanceled | CtxDeadline

record 'c pool =
  p_todo :: "'c list"
  p_closed :: bool
  p_workers :: "'c worker list"
  p_report :: "finding list"
  p_ctx :: ctx_err

definition init_pool :: "nat \<Rightarrow> 'c list \<Rightarrow> 'c pool" where
  "init_pool n cs = \<lparr>p_todo = cs, p_closed = False, p_workers = replicate n WIdle,
     p_report = [], p_ctx = CtxLive\<rparr>"

inductive pool_step :: "('c \<Rightarrow> finding list) \<Rightarrow> 'c pool \<Rightarrow> 'c pool \<Rightarrow> bool"
  for work :: "'c \<Rightarrow> finding list" where
  dispatch: "\<not> p_closed s \<Longrightarrow> p_todo s = c # cs \<Longrightarrow> i < length (p_workers s) \<Longrightarrow>
     p_workers s ! i = WIdle \<Longrightarrow>
     pool_step work s (s\<lparr>p_todo := cs, p_workers := (p_workers s)[i := WRun c]\<rparr>)"
| run_done: "i < length (p_workers s) \<Longrightarrow> p_workers s ! i = WRun c \<Longrightarrow>
     pool_step work s (s\<lparr>p_workers := (p_workers s)[i := WSend (work c)]\<rparr>)"
| emit: "i < length (p_workers s) \<Longrightarrow> p_workers s ! i = WSend (f # fs) \<Longrightarrow>
     pool_step work s (s\<lparr>p_workers := (p_workers s)[i := WSend fs], p_report := p_report s @ [f]\<rparr>)"
| job_done: "i < length (p_workers s) \<Longrightarrow> p_workers s ! i = WSend [] \<Longrightarrow>
     pool_step work s (s\<lparr>p_workers := (p_workers s)[i := WIdle]\<rparr>)"
| feed_end: "\<not> p_closed s \<Longrightarrow> p_todo s = [] \<Longrightarrow> pool_step work s (s\<lparr>p_closed := True\<rparr>)"
| feed_abort: "\<not> p_closed s \<Longrightarrow> p_todo s \<noteq> [] \<Longrightarrow> p_ctx s \<noteq> CtxLive \<Longrightarrow>
     pool_step work s (s\<lparr>p_closed := True\<rparr>)"
| worker_exit: "p_closed s \<Longrightarrow> i < length (p_workers s) \<Longrightarrow> p_workers s ! i = WIdle \<Longrightarrow>
     pool_step work s (s\<lparr>p_workers := (p_workers s)[i := WExit]\<rparr>)"
| ctx_done: "p_ctx s = CtxLive \<Longrightarrow> e \<noteq> CtxLive \<Longrightarrow> pool_step work s (s\<lparr>p_ctx := e\<rparr>)"

definition pool_final :: "'c pool \<Rightarrow> bool" where
  "pool_final s \<longleftrightarrow> (\<forall>w \<in> set (p_workers s). w = WExit)"

definition pool_reaches :: "('c \<Rightarrow> finding list) \<Rightarrow> nat \<Rightarrow> 'c list \<Rightarrow> 'c pool \<Rightarrow> bool" where
  "pool_reaches work n cs s \<longleftrightarrow> (pool_step work)\<^sup>*\<^sup>* (init_pool n cs) s"

definition pool_returns :: "('c \<Rightarrow> finding list) \<Rightarrow> nat \<Rightarrow> 'c list \<Rightarrow> 'c pool \<Rightarrow> bool" where
  "pool_returns work n cs s \<longleftrightarrow> pool_reaches work n cs s \<and> pool_final s"

text \<open>What \<open>Run\<close> returns: an error only for a context error other than cancellation.\<close>

datatype run_error = DeadlineExceeded

definition Run_result :: "instant \<Rightarrow> string option \<Rightarrow> 'c pool \<Rightarrow> report \<times> run_error option" where
  "Run_result now env s =
     (\<lparr>r_generated_at = now, r_cluster = clusterName env, r_distro = [], r_findings = p_report s,
       r_nil = True\<rparr>,
      if p_ctx s = CtxDeadline then Some DeadlineExceeded else None)"

subsection \<open>What is in flight\<close>

fun pending :: "('c \<Rightarrow> finding list) \<Rightarrow> 'c worker \<Rightarrow> finding list" where
  "pending work WIdle = []"
| "pending work (WRun c) = work c"
| "pending work (WSend fs) = fs"
| "pending work WExit = []"

abbreviation in_flight :: "('c \<Rightarrow> finding list) \<Rightarrow> 'c pool \<Rightarrow> finding list" where
  "in_flight work s \<equiv> concat (map (pending work) (p_workers s))"

lemma in_flight_update:
  assumes "i < length ws"
  shows "mset (concat (map (pending work) (ws[i := w]))) + mset (pending work (ws ! i)) =
         mset (concat (map (pending work) ws)) + mset (pending work w)"
  using mset_concat_update [OF assms] .

text \<open>The pool's invariant: nothing is lost, nothing is duplicated, nothing is made up.\<close>

definition pool_inv :: "('c \<Rightarrow> finding list) \<Rightarrow> nat \<Rightarrow> 'c list \<Rightarrow> 'c pool \<Rightarrow> bool" where
  "pool_inv work n cs s \<longleftrightarrow>
     length (p_workers s) = n \<and>
     (\<exists>started. cs = started @ p_todo s \<and>
        mset (p_report s) + mset (in_flight work s) = mset (concat (map work started))) \<and>
     (WExit \<in> set (p_workers s) \<longrightarrow> p_closed s) \<and>
     (p_closed s \<and> p_ctx s = CtxLive \<longrightarrow> p_todo s = [])"

lemma pool_inv_init: "pool_inv work n cs (init_pool n cs)"
  by (auto simp: pool_inv_def init_pool_def)

lemma pool_invI:
  assumes "length (p_workers s) = n" and "cs = started @ p_todo s"
    and "mset (p_report s) + mset (in_flight work s) = mset (concat (map work started))"
    and "WExit \<in> set (p_workers s) \<Longrightarrow> p_closed s"
    and "p_closed s \<Longrightarrow> p_ctx s = CtxLive \<Longrightarrow> p_todo s = []"
  shows "pool_inv work n cs s"
  using assms by (auto simp: pool_inv_def)

lemma exit_update: "WExit \<in> set (ws[i := w]) \<Longrightarrow> w \<noteq> WExit \<Longrightarrow> WExit \<in> set ws"
  by (metis insertE set_update_subset_insert subsetD)

lemma pool_step_inv:
  assumes "pool_step work s t" and "pool_inv work n cs s"
  shows "pool_inv work n cs t"
proof -
  from assms(2) obtain started where inv: "length (p_workers s) = n" "cs = started @ p_todo s"
      "mset (p_report s) + mset (in_flight work s) = mset (concat (map work started))"
      "WExit \<in> set (p_workers s) \<longrightarrow> p_closed s"
      "p_closed s \<and> p_ctx s = CtxLive \<longrightarrow> p_todo s = []"
    by (auto simp: pool_inv_def)
  from assms(1) show ?thesis
  proof cases
    case (dispatch c ds i)
    have "mset (concat (map (pending work) ((p_workers s)[i := WRun c]))) =
        mset (in_flight work s) + mset (work c)"
      using in_flight_update [OF dispatch(4), of work "WRun c"] dispatch(5) by simp
    then show ?thesis
      using inv dispatch by (intro pool_invI [where started = "started @ [c]"])
        (auto dest!: exit_update simp flip: inv(3) simp: add.assoc)
  next
    case (run_done i c)
    have "mset (concat (map (pending work) ((p_workers s)[i := WSend (work c)]))) =
        mset (in_flight work s)"
      using in_flight_update [OF run_done(2), of work "WSend (work c)"] run_done(3) by simp
    then show ?thesis
      using inv run_done by (intro pool_invI [where started = started]) (auto dest!: exit_update)
  next
    case (emit i f fs)
    have "mset (concat (map (pending work) ((p_workers s)[i := WSend fs]))) + {#f#} =
        mset (in_flight work s)"
      using in_flight_update [OF emit(2), of work "WSend fs"] emit(3) by simp
    then show ?thesis
      using inv emit by (intro pool_invI [where started = started])
        (auto dest!: exit_update simp flip: inv(3) simp: add.assoc add.commute)
  next
    case (job_done i)
    have "mset (concat (map (pending work) ((p_workers s)[i := WIdle]))) = mset (in_flight work s)"
      using in_flight_update [OF job_done(2), of work WIdle] job_done(3) by simp
    then show ?thesis
      using inv job_done by (intro pool_invI [where started = started]) (auto dest!: exit_update)
  next
    case (worker_exit i)
    have "mset (concat (map (pending work) ((p_workers s)[i := WExit]))) = mset (in_flight work s)"
      using in_flight_update [OF worker_exit(3), of work WExit] worker_exit(4) by simp
    then show ?thesis
      using inv worker_exit by (intro pool_invI [where started = started]) auto
  qed (use inv in \<open>auto simp: pool_inv_def\<close>)
qed

lemma pool_reaches_inv: "pool_reaches work n cs s \<Longrightarrow> pool_inv work n cs s"
  unfolding pool_reaches_def
  by (induction rule: rtranclp_induct) (auto intro: pool_inv_init pool_step_inv)

lemma pool_final_in_flight: "pool_final s \<Longrightarrow> in_flight work s = []"
  by (auto simp: pool_final_def)

lemma pool_final_closed: "pool_inv work n cs s \<Longrightarrow> pool_final s \<Longrightarrow> 0 < n \<Longrightarrow> p_closed s"
  by (cases "p_workers s") (auto simp: pool_inv_def pool_final_def)

lemma pool_returns_prefix:
  assumes "pool_returns work n cs s"
  obtains started where "cs = started @ p_todo s" "mset (p_report s) = mset (concat (map work started))"
proof -
  from assms have "pool_inv work n cs s" and fin: "pool_final s"
    using pool_reaches_inv by (auto simp: pool_returns_def)
  then show ?thesis
    using that pool_final_in_flight [OF fin] by (auto simp: pool_inv_def)
qed

lemma pool_returns_live:
  assumes "pool_returns work n cs s" and "0 < n" and "p_ctx s = CtxLive"
  shows "mset (p_report s) = mset (concat (map work cs))"
proof -
  from assms have inv: "pool_inv work n cs s" and fin: "pool_final s"
    using pool_reaches_inv by (auto simp: pool_returns_def)
  then have "p_todo s = []"
    using pool_final_closed [OF inv fin] assms by (auto simp: pool_inv_def)
  then show ?thesis
    using pool_returns_prefix [OF assms(1)] by (metis append_Nil2)
qed

subsection \<open>Termination and progress\<close>

fun worker_weight :: "('c \<Rightarrow> finding list) \<Rightarrow> 'c worker \<Rightarrow> nat" where
  "worker_weight work WIdle = 1"
| "worker_weight work (WRun c) = length (work c) + 3"
| "worker_weight work (WSend fs) = length fs + 2"
| "worker_weight work WExit = 0"

definition pool_weight :: "('c \<Rightarrow> finding list) \<Rightarrow> 'c pool \<Rightarrow> nat" where
  "pool_weight work s =
     sum_list (map (\<lambda>c. length (work c) + 3) (p_todo s)) +
     sum_list (map (worker_weight work) (p_workers s)) +
     (if p_closed s then 0 else 1) + (if p_ctx s = CtxLive then 1 else 0)"

lemma worker_weight_update:
  assumes "i < length ws"
  shows "sum_list (map (worker_weight work) (ws[i := w])) + worker_weight work (ws ! i) =
         sum_list (map (worker_weight work) ws) + worker_weight work w"
  using sum_list_map_update_nat [OF assms] .

lemma pool_step_decreases: "pool_step work s t \<Longrightarrow> pool_weight work t < pool_weight work s"
proof (induction rule: pool_step.induct)
  case (dispatch s c cs i)
  then show ?case
    using worker_weight_update [of i "p_workers s" work "WRun c"] by (simp add: pool_weight_def)
next
  case (run_done i s c)
  then show ?case
    using worker_weight_update [of i "p_workers s" work "WSend (work c)"]
    by (simp add: pool_weight_def)
next
  case (emit i s f fs)
  then show ?case
    using worker_weight_update [of i "p_workers s" work "WSend fs"] by (simp add: pool_weight_def)
next
  case (job_done i s)
  then show ?case
    using worker_weight_update [of i "p_workers s" work WIdle] by (simp add: pool_weight_def)
next
  case (worker_exit s i)
  then show ?case
    using worker_weight_update [of i "p_workers s" work WExit] by (simp add: pool_weight_def)
qed (simp_all add: pool_weight_def)

text \<open>A pool that has not returned can always take a step that is not the context ending.\<close>

lemma pool_progress:
  assumes inv: "pool_inv work n cs s" and "\<not> pool_final s"
  shows "\<exists>t. pool_step work s t \<and> p_ctx t = p_ctx s"
proof -
  obtain i where i: "i < length (p_workers s)" "p_workers s ! i \<noteq> WExit"
    using assms(2) by (auto simp: pool_final_def in_set_conv_nth)
  show ?thesis
  proof (cases "p_workers s ! i")
    case WIdle
    show ?thesis
    proof (cases "p_closed s")
      case True
      then show ?thesis using pool_step.worker_exit [of s i work] i WIdle by fastforce
    next
      case False
      then show ?thesis
        using pool_step.feed_end [of s work] pool_step.dispatch [of s _ _ i work] i WIdle
        by (cases "p_todo s") fastforce+
    qed
  next
    case (WRun c)
    then show ?thesis using pool_step.run_done [OF i(1)] by fastforce
  next
    case (WSend fs)
    then show ?thesis
      using pool_step.job_done [OF i(1)] pool_step.emit [OF i(1)] by (cases fs) fastforce+
  next
    case WExit
    then show ?thesis using i(2) by simp
  qed
qed

lemma pool_can_return:
  assumes "pool_inv work n cs s"
  shows "\<exists>t. (pool_step work)\<^sup>*\<^sup>* s t \<and> pool_final t \<and> p_ctx t = p_ctx s"
  using assms
proof (induction "pool_weight work s" arbitrary: s rule: less_induct)
  case less
  show ?case
  proof (cases "pool_final s")
    case True
    then show ?thesis by blast
  next
    case False
    then obtain t where t: "pool_step work s t" "p_ctx t = p_ctx s"
      using pool_progress [OF less.prems] by blast
    then obtain u where "(pool_step work)\<^sup>*\<^sup>* t u" "pool_final u" "p_ctx u = p_ctx t"
      using less.hyps [OF pool_step_decreases pool_step_inv] less.prems by blast
    then show ?thesis using t by (metis converse_rtranclp_into_rtranclp)
  qed
qed

subsection \<open>Order within a check\<close>

text \<open>
  What the order-sensitive users of a report (the grouping renderers) rely on: every check
  reports under its own id. It is a contract of the checks, discharged for each modelled
  check in its theory, and used here for any set \<open>good\<close> of checks that keep it.
\<close>

definition of_check :: "string \<Rightarrow> finding list \<Rightarrow> finding list" where
  "of_check k fs = filter (\<lambda>f. f_check f = k) fs"

lemma of_check_simps [simp]:
  "of_check k [] = []"
  "of_check k (f # fs) = (if f_check f = k then f # of_check k fs else of_check k fs)"
  "of_check k (fs @ gs) = of_check k fs @ of_check k gs"
  by (simp_all add: of_check_def)

locale check_source =
  fixes work :: "'c \<Rightarrow> finding list"
    and ident :: "'c \<Rightarrow> string"
    and good :: "'c set"
  assumes own_id: "c \<in> good \<Longrightarrow> f \<in> set (work c) \<Longrightarrow> f_check f = ident c"
begin

lemma of_check_other: "c \<in> good \<Longrightarrow> ident c \<noteq> k \<Longrightarrow> of_check k (work c) = []"
  using own_id by (auto simp: of_check_def filter_empty_conv)

lemma of_check_own: "c \<in> good \<Longrightarrow> of_check (ident c) (work c) = work c"
  using own_id by (auto simp: of_check_def intro: filter_True)

lemma of_check_started:
  assumes "set cs \<subseteq> good" and "distinct (map ident cs)" and "c \<in> set cs"
  shows "of_check (ident c) (concat (map work cs)) = work c"
  using assms
proof (induction cs)
  case (Cons d ds)
  have "of_check (ident d) (work e) = []" if "e \<in> set ds" for e
    using that Cons.prems(1,2) by (intro of_check_other) (auto simp: image_iff)
  then have rest: "of_check (ident d) (concat (map work ds)) = []"
    by (simp add: of_check_def filter_concat_map concat_eq_Nil_iff)
  show ?case
  proof (cases "c = d")
    case True
    then show ?thesis using rest of_check_own [of d] Cons.prems(1) by simp
  next
    case False
    then have "ident d \<noteq> ident c" using Cons.prems(2,3) by (auto simp: image_iff)
    then show ?thesis using Cons False of_check_other [of d] by simp
  qed
qed simp

text \<open>
  The invariant of one id: its reported findings, then the pending ones of the only worker
  that can hold any, are a prefix of the order of the started checks.
\<close>

definition id_inv :: "string \<Rightarrow> 'c list \<Rightarrow> 'c pool \<Rightarrow> bool" where
  "id_inv k cs s \<longleftrightarrow>
     (\<exists>started. cs = started @ p_todo s \<and>
        of_check k (p_report s) @ of_check k (in_flight work s) =
          of_check k (concat (map work started)) \<and>
        (\<forall>i < length (p_workers s). \<forall>j < length (p_workers s).
           of_check k (pending work (p_workers s ! i)) \<noteq> [] \<longrightarrow>
           of_check k (pending work (p_workers s ! j)) \<noteq> [] \<longrightarrow> i = j))"

lemma of_check_in_flight:
  "of_check k (concat (map (pending work) ws)) = concat (map (\<lambda>w. of_check k (pending work w)) ws)"
  by (simp add: of_check_def filter_concat_map)

lemma id_inv_init: "id_inv k cs (init_pool n cs)"
  by (auto simp: id_inv_def init_pool_def of_check_in_flight concat_eq_Nil_iff)

lemma in_flight_replace:
  assumes i: "i < length ws"
    and one: "\<forall>a < length ws. \<forall>b < length ws. of_check k (pending work (ws ! a)) \<noteq> [] \<longrightarrow>
           of_check k (pending work (ws ! b)) \<noteq> [] \<longrightarrow> a = b"
    and old: "of_check k (pending work (ws ! i)) \<noteq> []"
  shows "of_check k (concat (map (pending work) ws)) = of_check k (pending work (ws ! i))"
    and "of_check k (concat (map (pending work) (ws[i := w]))) = of_check k (pending work w)"
  using concat_nth_one [OF i, of "\<lambda>w. of_check k (pending work w)"]
    concat_update_one [OF i, of "\<lambda>w. of_check k (pending work w)"] one i old
  by (auto simp: of_check_in_flight)

lemma in_flight_same:
  assumes "i < length ws" and "of_check k (pending work w) = of_check k (pending work (ws ! i))"
  shows "of_check k (concat (map (pending work) (ws[i := w]))) =
         of_check k (concat (map (pending work) ws))"
proof -
  have "map (\<lambda>w. of_check k (pending work w)) (ws[i := w]) =
      map (\<lambda>w. of_check k (pending work w)) ws"
    using assms list_update_id [of "map (\<lambda>w. of_check k (pending work w)) ws" i]
    by (simp add: map_update)
  then show ?thesis by (simp only: of_check_in_flight)
qed

lemma id_inv_same:
  assumes "id_inv k cs s" and "i < length (p_workers s)"
    and "of_check k (pending work w) = of_check k (pending work (p_workers s ! i))"
  shows "id_inv k cs (s\<lparr>p_workers := (p_workers s)[i := w]\<rparr>)"
  using assms in_flight_same [OF assms(2,3)]
  by (auto simp: id_inv_def nth_list_update)

end

context check_source
begin

lemma id_invI:
  assumes "cs = started @ p_todo s"
    and "of_check k (p_report s) @ of_check k (in_flight work s) =
          of_check k (concat (map work started))"
    and "\<forall>a < length (p_workers s). of_check k (pending work (p_workers s ! a)) \<noteq> [] \<longrightarrow> a = i"
  shows "id_inv k cs s"
  using assms unfolding id_inv_def by blast

lemma id_inv_dispatch:
  assumes inv: "id_inv k cs s" and good: "set cs \<subseteq> good" and ids: "distinct (map ident cs)"
    and todo: "p_todo s = c # ds" and i: "i < length (p_workers s)" and idle: "p_workers s ! i = WIdle"
  shows "id_inv k cs (s\<lparr>p_todo := ds, p_workers := (p_workers s)[i := WRun c]\<rparr>)"
proof -
  from inv obtain st where st: "cs = st @ c # ds"
      "of_check k (p_report s) @ of_check k (in_flight work s) = of_check k (concat (map work st))"
    and one: "\<forall>a < length (p_workers s). \<forall>b < length (p_workers s).
           of_check k (pending work (p_workers s ! a)) \<noteq> [] \<longrightarrow>
           of_check k (pending work (p_workers s ! b)) \<noteq> [] \<longrightarrow> a = b"
    unfolding id_inv_def todo by blast
  let ?ws = "(p_workers s)[i := WRun c]"
  show ?thesis
  proof (cases "ident c = k")
    case False
    then have no: "of_check k (work c) = []" using of_check_other good st(1) by simp
    have "of_check k (concat (map (pending work) ?ws)) = of_check k (in_flight work s)"
      using no idle by (intro in_flight_same [OF i]) simp
    moreover have "\<forall>a < length ?ws. of_check k (pending work (?ws ! a)) =
        of_check k (pending work (p_workers s ! a))"
      using no idle i by (auto simp: nth_list_update)
    ultimately show ?thesis
      using st one no unfolding id_inv_def by (intro exI [of _ "st @ [c]"]) simp
  next
    case True
    have "of_check k (work e) = []" if "e \<in> set st" for e
      using that True ids good st(1) by (intro of_check_other) (auto, metis image_eqI)
    then have z: "of_check k (concat (map work st)) = []"
      by (simp add: of_check_def filter_concat_map concat_eq_Nil_iff)
    then have empty: "\<forall>w \<in> set (p_workers s). of_check k (pending work w) = []"
      using st(2) by (simp add: of_check_in_flight concat_eq_Nil_iff)
    then have "of_check k (concat (map (pending work) ?ws)) = of_check k (work c)"
      using concat_update_one [OF i, of "\<lambda>w. of_check k (pending work w)" "WRun c"]
      by (simp add: of_check_in_flight)
    moreover have "\<forall>a < length ?ws. of_check k (pending work (?ws ! a)) \<noteq> [] \<longrightarrow> a = i"
      using empty i by (auto simp: nth_list_update)
    ultimately show ?thesis
      using st z empty by (intro id_invI [where started = "st @ [c]" and i = i])
        (simp_all add: of_check_in_flight concat_map_Nil)
  qed
qed

lemma id_inv_emit:
  assumes inv: "id_inv k cs s" and i: "i < length (p_workers s)"
    and snd: "p_workers s ! i = WSend (f # fs)"
  shows "id_inv k cs
    (s\<lparr>p_workers := (p_workers s)[i := WSend fs], p_report := p_report s @ [f]\<rparr>)"
proof (cases "f_check f = k")
  case False
  then have "of_check k (concat (map (pending work) ((p_workers s)[i := WSend fs]))) =
      of_check k (in_flight work s)"
    using snd by (intro in_flight_same [OF i]) simp
  moreover have "of_check k (pending work ((p_workers s)[i := WSend fs] ! a)) =
      of_check k (pending work (p_workers s ! a))" if "a < length (p_workers s)" for a
    using that False snd i by (auto simp: nth_list_update)
  ultimately show ?thesis using inv False by (auto simp: id_inv_def)
next
  case True
  from inv obtain st where st: "cs = st @ p_todo s"
      "of_check k (p_report s) @ of_check k (in_flight work s) = of_check k (concat (map work st))"
    and one: "\<forall>a < length (p_workers s). \<forall>b < length (p_workers s).
           of_check k (pending work (p_workers s ! a)) \<noteq> [] \<longrightarrow>
           of_check k (pending work (p_workers s ! b)) \<noteq> [] \<longrightarrow> a = b"
    unfolding id_inv_def by blast
  have old: "of_check k (pending work (p_workers s ! i)) \<noteq> []" using True snd by simp
  have "of_check k (in_flight work s) = f # of_check k fs"
    using in_flight_replace(1) [OF i one old] True snd by simp
  moreover have "of_check k (concat (map (pending work) ((p_workers s)[i := WSend fs]))) =
      of_check k fs"
    using in_flight_replace(2) [OF i one old, of "WSend fs"] by simp
  moreover have "\<forall>a < length (p_workers s).
      of_check k (pending work ((p_workers s)[i := WSend fs] ! a)) \<noteq> [] \<longrightarrow> a = i"
    using one old i by (auto simp: nth_list_update)
  ultimately show ?thesis
    using st True by (intro id_invI [where started = st and i = i]) simp_all
qed

lemma id_inv_step:
  assumes "pool_step work s t" and "id_inv k cs s" and "set cs \<subseteq> good" and "distinct (map ident cs)"
  shows "id_inv k cs t"
  using assms(1)
proof cases
  case (dispatch c ds i)
  then show ?thesis using id_inv_dispatch assms(2-4) by blast
next
  case (run_done i c)
  then show ?thesis using id_inv_same [OF assms(2)] by simp
next
  case (emit i f fs)
  then show ?thesis using id_inv_emit assms(2) by blast
next
  case (job_done i)
  then show ?thesis using id_inv_same [OF assms(2)] by simp
next
  case (worker_exit i)
  then show ?thesis using id_inv_same [OF assms(2)] by simp
qed (use assms(2) in \<open>simp_all add: id_inv_def\<close>)

lemma id_inv_reaches:
  assumes "pool_reaches work n cs s" and "set cs \<subseteq> good" and "distinct (map ident cs)"
  shows "id_inv k cs s"
  using assms(1) unfolding pool_reaches_def
proof (induction rule: rtranclp_induct)
  case base
  show ?case by (rule id_inv_init)
next
  case (step s t)
  then show ?case using id_inv_step [OF _ _ assms(2,3)] by blast
qed

lemma returned_in_order:
  assumes "pool_returns work n cs s" and "set cs \<subseteq> good" and "distinct (map ident cs)"
    and "c \<in> set cs"
  shows "of_check (ident c) (p_report s) = (if c \<in> set (p_todo s) then [] else work c)"
proof -
  from assms have "id_inv (ident c) cs s" and fin: "pool_final s"
    using id_inv_reaches by (auto simp: pool_returns_def)
  then obtain st where st: "cs = st @ p_todo s"
      "of_check (ident c) (p_report s) = of_check (ident c) (concat (map work st))"
    using pool_final_in_flight [OF fin, of work] by (auto simp: id_inv_def)
  show ?thesis
  proof (cases "c \<in> set (p_todo s)")
    case True
    have "of_check (ident c) (work e) = []" if "e \<in> set st" for e
      using that True assms(2,3) st(1) by (intro of_check_other) auto
    then show ?thesis
      using st True by (simp add: of_check_def filter_concat_map concat_eq_Nil_iff)
  next
    case False
    then have "c \<in> set st" "set st \<subseteq> good" "distinct (map ident st)"
      using assms(2-4) st(1) by (auto simp: distinct_map inj_on_def)
    then show ?thesis using of_check_started st(2) False by simp
  qed
qed

end

definition honest :: "'e check \<Rightarrow> bool" where
  "honest c \<longleftrightarrow> (\<forall>e. \<forall>f \<in> set (chk_run c e). f_check f = chk_id c)"

lemma runOne_own_id: "honest c \<Longrightarrow> f \<in> set (runOne opts wt env dur c) \<Longrightarrow> f_check f = chk_id c"
  by (auto simp: runOne_def honest_def Let_def split: if_splits)

interpretation own: check_source "runOne opts wt env dur" chk_id "{c. honest c}"
  for opts :: run_options and wt :: "duration \<Rightarrow> 'e \<Rightarrow> 'e" and env :: 'e and dur
  by unfold_locales (auto intro: runOne_own_id)

subsection \<open>Executable schedules\<close>

text \<open>A move names the rule and the worker; a schedule is a list of moves.\<close>

datatype move = MDispatch nat | MRun nat | MEmit nat | MDone nat | MClose | MExit nat | MCtx ctx_err

fun pool_move :: "('c \<Rightarrow> finding list) \<Rightarrow> move \<Rightarrow> 'c pool \<Rightarrow> 'c pool option" where
  "pool_move work (MDispatch i) s =
     (case p_todo s of
        [] \<Rightarrow> None
      | c # cs \<Rightarrow>
          if \<not> p_closed s \<and> i < length (p_workers s) \<and> p_workers s ! i = WIdle
          then Some (s\<lparr>p_todo := cs, p_workers := (p_workers s)[i := WRun c]\<rparr>) else None)"
| "pool_move work (MRun i) s =
     (if i < length (p_workers s) then
        (case p_workers s ! i of
           WRun c \<Rightarrow> Some (s\<lparr>p_workers := (p_workers s)[i := WSend (work c)]\<rparr>)
         | _ \<Rightarrow> None)
      else None)"
| "pool_move work (MEmit i) s =
     (if i < length (p_workers s) then
        (case p_workers s ! i of
           WSend (f # fs) \<Rightarrow>
             Some (s\<lparr>p_workers := (p_workers s)[i := WSend fs], p_report := p_report s @ [f]\<rparr>)
         | _ \<Rightarrow> None)
      else None)"
| "pool_move work (MDone i) s =
     (if i < length (p_workers s) \<and> p_workers s ! i = WSend []
      then Some (s\<lparr>p_workers := (p_workers s)[i := WIdle]\<rparr>) else None)"
| "pool_move work MClose s =
     (if \<not> p_closed s \<and> (p_todo s = [] \<or> p_ctx s \<noteq> CtxLive)
      then Some (s\<lparr>p_closed := True\<rparr>) else None)"
| "pool_move work (MExit i) s =
     (if p_closed s \<and> i < length (p_workers s) \<and> p_workers s ! i = WIdle
      then Some (s\<lparr>p_workers := (p_workers s)[i := WExit]\<rparr>) else None)"
| "pool_move work (MCtx e) s =
     (if p_ctx s = CtxLive \<and> e \<noteq> CtxLive then Some (s\<lparr>p_ctx := e\<rparr>) else None)"

fun pool_exec :: "('c \<Rightarrow> finding list) \<Rightarrow> move list \<Rightarrow> 'c pool \<Rightarrow> 'c pool option" where
  "pool_exec work [] s = Some s"
| "pool_exec work (m # ms) s = Option.bind (pool_move work m s) (pool_exec work ms)"

lemma pool_move_sound: "pool_move work m s = Some t \<Longrightarrow> pool_step work s t"
  by (cases m) (auto split: if_splits list.splits worker.splits intro: pool_step.intros)

lemma pool_move_complete: "pool_step work s t \<Longrightarrow> \<exists>m. pool_move work m s = Some t"
proof (induction rule: pool_step.induct)
  case (dispatch s c cs i)
  then show ?case by (intro exI [of _ "MDispatch i"]) simp
next
  case (run_done i s c)
  then show ?case by (intro exI [of _ "MRun i"]) simp
next
  case (emit i s f fs)
  then show ?case by (intro exI [of _ "MEmit i"]) simp
next
  case (job_done i s)
  then show ?case by (intro exI [of _ "MDone i"]) simp
next
  case (feed_end s)
  then show ?case by (intro exI [of _ MClose]) simp
next
  case (feed_abort s)
  then show ?case by (intro exI [of _ MClose]) simp
next
  case (worker_exit s i)
  then show ?case by (intro exI [of _ "MExit i"]) simp
next
  case (ctx_done s e)
  then show ?case by (intro exI [of _ "MCtx e"]) simp
qed

lemma pool_exec_reaches: "pool_exec work ms s = Some t \<Longrightarrow> (pool_step work)\<^sup>*\<^sup>* s t"
proof (induction ms arbitrary: s)
  case (Cons m ms)
  then obtain u where "pool_move work m s = Some u" "pool_exec work ms u = Some t"
    by (auto split: Option.bind_splits)
  then show ?case
    using Cons.IH pool_move_sound by (metis converse_rtranclp_into_rtranclp)
qed simp

lemma pool_exec_returns:
  "pool_exec work ms (init_pool n cs) = Some t \<Longrightarrow> pool_final t \<Longrightarrow> pool_returns work n cs t"
  by (simp add: pool_returns_def pool_reaches_def pool_exec_reaches)

lemma pool_returns_exists: "\<exists>s. pool_returns work n cs s \<and> p_ctx s = CtxLive"
  using pool_can_return [OF pool_inv_init, of work n cs]
  by (auto simp: pool_returns_def pool_reaches_def init_pool_def)

subsection \<open>A runner that exists: one worker takes every check\<close>

definition seq_pool :: "('c \<Rightarrow> finding list) \<Rightarrow> nat \<Rightarrow> 'c list \<Rightarrow> 'c pool" where
  "seq_pool work n cs = \<lparr>p_todo = [], p_closed = True, p_workers = replicate n WExit,
     p_report = concat (map work cs), p_ctx = CtxLive\<rparr>"

fun check_moves :: "finding list \<Rightarrow> move list" where
  "check_moves fs = [MDispatch 0, MRun 0] @ map (\<lambda>_. MEmit 0) fs @ [MDone 0]"

definition seq_moves :: "('c \<Rightarrow> finding list) \<Rightarrow> nat \<Rightarrow> 'c list \<Rightarrow> move list" where
  "seq_moves work n cs =
     concat (map (\<lambda>c. check_moves (work c)) cs) @ MClose # map MExit [0..<n]"

lemma pool_exec_append:
  "pool_exec work (ms @ ns) s = Option.bind (pool_exec work ms s) (pool_exec work ns)"
  by (induction ms arbitrary: s) (auto split: Option.bind_splits)

lemma exec_emits:
  assumes "p_workers s = WSend fs # ws"
  shows "pool_exec work (map (\<lambda>_. MEmit 0) fs) s =
    Some (s\<lparr>p_workers := WSend [] # ws, p_report := p_report s @ fs\<rparr>)"
  using assms by (induction fs arbitrary: s) simp_all

lemma exec_check:
  assumes "p_workers s = WIdle # ws" and "\<not> p_closed s" and "p_todo s = c # cs"
  shows "pool_exec work (check_moves (work c)) s =
    Some (s\<lparr>p_todo := cs, p_workers := WIdle # ws, p_report := p_report s @ work c\<rparr>)"
  using assms by (simp add: pool_exec_append exec_emits)

lemma exec_checks:
  assumes "p_workers s = WIdle # ws" and "\<not> p_closed s"
  shows "pool_exec work (concat (map (\<lambda>c. check_moves (work c)) (p_todo s))) s =
    Some (s\<lparr>p_todo := [], p_report := p_report s @ concat (map work (p_todo s))\<rparr>)"
  using assms
proof (induction "p_todo s" arbitrary: s)
  case Nil
  then show ?case by (cases s) simp
next
  case (Cons c cs)
  let ?t = "s\<lparr>p_todo := cs, p_workers := WIdle # ws, p_report := p_report s @ work c\<rparr>"
  have "pool_exec work (check_moves (work c)) s = Some ?t"
    using Cons.prems Cons.hyps(2) by (intro exec_check) simp_all
  then show ?case
    using Cons.hyps(1) [of ?t] Cons.hyps(2) [symmetric] Cons.prems
    by (simp add: pool_exec_append del: check_moves.simps)
qed

lemma exec_exits:
  assumes "p_closed s" and "p_workers s = replicate k WExit @ replicate n WIdle"
  shows "pool_exec work (map MExit [k..<k + n]) s = Some (s\<lparr>p_workers := replicate (k + n) WExit\<rparr>)"
  using assms
proof (induction n arbitrary: s k)
  case 0
  then show ?case by (cases s) simp
next
  case (Suc n)
  let ?t = "s\<lparr>p_workers := replicate (Suc k) WExit @ replicate n WIdle\<rparr>"
  have "(p_workers s)[k := WExit] = replicate (Suc k) WExit @ replicate n WIdle"
    using Suc.prems by (simp add: list_update_append replicate_app_Cons_same)
  then have "pool_move work (MExit k) s = Some ?t"
    using Suc.prems by (simp add: nth_append)
  moreover have "map MExit [k..<k + Suc n] = MExit k # map MExit [Suc k..<Suc k + n]"
    by (simp add: upt_conv_Cons del: upt_Suc)
  moreover have "pool_exec work (map MExit [Suc k..<Suc k + n]) ?t =
      Some (?t\<lparr>p_workers := replicate (Suc k + n) WExit\<rparr>)"
    using Suc.IH [of ?t "Suc k"] Suc.prems(1) by simp
  ultimately show ?case by (simp del: upt_Suc pool_move.simps)
qed

lemma seq_pool_returns: "0 < n \<Longrightarrow> pool_returns work n cs (seq_pool work n cs)"
proof (rule pool_exec_returns [of work "seq_moves work n cs"])
  assume "0 < n"
  then obtain m where n: "n = Suc m" by (cases n) auto
  have "pool_exec work (concat (map (\<lambda>c. check_moves (work c)) cs)) (init_pool n cs) =
      Some ((init_pool n cs)\<lparr>p_todo := [], p_report := concat (map work cs)\<rparr>)"
    using exec_checks [of "init_pool n cs" "replicate m WIdle" work] by (simp add: init_pool_def n)
  then show "pool_exec work (seq_moves work n cs) (init_pool n cs) = Some (seq_pool work n cs)"
    using exec_exits [of "(init_pool n cs)\<lparr>p_todo := [], p_report := concat (map work cs), p_closed := True\<rparr>" 0 n]
    by (simp add: seq_moves_def pool_exec_append init_pool_def seq_pool_def)
qed (simp add: pool_final_def seq_pool_def)

subsection \<open>Properties\<close>

text \<open>
  C2. A run whose context stays live reports every finding of every selected check exactly
  once, whatever the interleaving of the workers, and returns no error: the report is, as a
  multiset, the concatenation of \<open>runOne\<close> over the checks.
\<close>

theorem run_complete:
  assumes "pool_returns (runOne opts wt env dur) (worker_count opts) cs s" and "p_ctx s = CtxLive"
  shows "mset (r_findings (fst (Run_result now cl s))) =
           mset (concat (map (runOne opts wt env dur) cs)) \<and>
         snd (Run_result now cl s) = None"
proof -
  have "0 < worker_count opts" by (simp add: worker_count_def defaultWorkers_def)
  then show ?thesis
    using pool_returns_live [OF assms(1) _ assms(2)] assms(2) by (simp add: Run_result_def)
qed

definition opts2 :: run_options where
  "opts2 = \<lparr>opt_workers = 2, opt_timeout = 0, opt_caps = CapAPIServer\<rparr>"

abbreviation demo_work :: "unit check \<Rightarrow> finding list" where
  "demo_work \<equiv> runOne opts2 (\<lambda>_ _. ()) () (\<lambda>_. 7)"

theorem run_complete_witness:
  "\<exists>s. pool_returns demo_work (worker_count opts2)
         [demo_check ''a'' [] None, demo_check ''b'' [] None] s \<and>
       length (r_findings (fst (Run_result 0 None s))) = 2"
proof -
  obtain s where s: "pool_returns demo_work (worker_count opts2)
      [demo_check ''a'' [] None, demo_check ''b'' [] None] s" "p_ctx s = CtxLive"
    using pool_returns_exists by blast
  have "mset (r_findings (fst (Run_result 0 None s))) =
      mset (concat (map demo_work [demo_check ''a'' [] None, demo_check ''b'' [] None]))"
    using run_complete [OF s] by blast
  then have "size (mset (r_findings (fst (Run_result 0 None s)))) = 2"
    by (simp add: runOne_def opts2_def demo_check_def Has_def)
  then show ?thesis using s(1) by auto
qed

text \<open>
  Within one check the report keeps the order in which the check returned its findings:
  for honest checks with distinct ids, the findings of a check's id in the report of a
  finished run are exactly what \<open>runOne\<close> returned for it, in order, or none if the context
  ended before the check was started.
\<close>

lemma run_keeps_check_order:
  assumes "pool_returns (runOne opts wt env dur) n cs s"
    and "\<forall>c \<in> set cs. honest c" and "distinct (map chk_id cs)" and "c \<in> set cs"
  shows "filter (\<lambda>f. f_check f = chk_id c) (p_report s) =
           (if c \<in> set (p_todo s) then [] else runOne opts wt env dur c)"
  using own.returned_in_order [OF assms(1) _ assms(3,4)] assms(2)
  by (auto simp: of_check_def subset_iff)

lemma run_keeps_check_order_example:
  "\<exists>s. pool_returns demo_work 2 [demo_check ''a'' [] None, demo_check ''b'' [] None] s \<and>
       filter (\<lambda>f. f_check f = ''b'') (p_report s) =
         (if demo_check ''b'' [] None \<in> set (p_todo s) then []
          else demo_work (demo_check ''b'' [] None))"
proof -
  obtain s where s: "pool_returns demo_work 2
      [demo_check ''a'' [] None, demo_check ''b'' [] None] s"
    using pool_returns_exists by blast
  show ?thesis
    using run_keeps_check_order [OF s, of "demo_check ''b'' [] None"] s
    by (auto simp: honest_def demo_check_def)
qed

text \<open>
  C3. \<open>Run\<close> always returns: no schedule of the goroutines goes on for ever, and from every
  reachable state of the pool, also after the context has ended, the remaining steps can
  finish without the context's help (no deadlock).
\<close>

theorem run_terminates:
  "(\<nexists>\<sigma>. \<sigma> 0 = init_pool n cs \<and> (\<forall>i. pool_step work (\<sigma> i) (\<sigma> (Suc i)))) \<and>
   (\<forall>s. pool_reaches work n cs s \<longrightarrow> pool_final s \<or> (\<exists>t. pool_step work s t \<and> p_ctx t = p_ctx s)) \<and>
   (\<forall>s. pool_reaches work n cs s \<longrightarrow> (\<exists>t. pool_returns work n cs t \<and> p_ctx t = p_ctx s))"
proof (intro conjI allI impI)
  show "\<nexists>\<sigma>. \<sigma> 0 = init_pool n cs \<and> (\<forall>i. pool_step work (\<sigma> i) (\<sigma> (Suc i)))"
  proof
    assume "\<exists>\<sigma>. \<sigma> 0 = init_pool n cs \<and> (\<forall>i. pool_step work (\<sigma> i) (\<sigma> (Suc i)))"
    then obtain \<sigma> where "\<forall>i. pool_step work (\<sigma> i) (\<sigma> (Suc i))" by blast
    then have "\<forall>i. (\<sigma> (Suc i), \<sigma> i) \<in> measure (pool_weight work)"
      by (simp add: pool_step_decreases)
    then show False using wf_measure wf_iff_no_infinite_down_chain by blast
  qed
next
  fix s assume r: "pool_reaches work n cs s"
  then show "pool_final s \<or> (\<exists>t. pool_step work s t \<and> p_ctx t = p_ctx s)"
    using pool_progress [OF pool_reaches_inv] by blast
  show "\<exists>t. pool_returns work n cs t \<and> p_ctx t = p_ctx s"
    using pool_can_return [OF pool_reaches_inv [OF r]] r
    by (auto simp: pool_returns_def pool_reaches_def intro: rtranclp_trans)
qed

theorem run_terminates_witness:
  "\<exists>t. pool_returns demo_work 2 [demo_check ''a'' [] None] t \<and>
       p_ctx t = p_ctx (init_pool 2 [demo_check ''a'' [] None])"
proof -
  have "pool_reaches demo_work 2 [demo_check ''a'' [] None] (init_pool 2 [demo_check ''a'' [] None])"
    by (simp add: pool_reaches_def)
  then show ?thesis using run_terminates [of 2 "[demo_check ''a'' [] None]" demo_work] by blast
qed

text \<open>
  The exit code does not depend on the schedule: any two complete runs of the same
  checks, with any numbers of workers, give the same exit code and the same number of
  findings of each status.
\<close>

lemma exit_code_schedule_independent:
  assumes "pool_returns work n cs s" and "pool_returns work m cs t" and "0 < n" and "0 < m"
    and "p_ctx s = CtxLive" and "p_ctx t = CtxLive"
  shows "ExitCode (fst (Run_result now cl s)) strict = ExitCode (fst (Run_result now' cl' t)) strict \<and>
         image_mset f_status (mset (p_report s)) = image_mset f_status (mset (p_report t))"
proof -
  have eq: "mset (p_report s) = mset (p_report t)"
    using pool_returns_live [OF assms(1,3,5)] pool_returns_live [OF assms(2,4,6)] by simp
  then have "set (p_report s) = set (p_report t)" by (metis set_mset_mset)
  then have "ExitCode (fst (Run_result now cl s)) strict =
      ExitCode (fst (Run_result now' cl' t)) strict"
    by (intro ExitCode_status_set) (simp add: Run_result_def)
  then show ?thesis using eq by simp
qed

lemma exit_code_schedule_independent_example:
  "\<exists>s t. pool_returns demo_work 1 [demo_check ''a'' [] None, demo_check ''b'' [] None] s \<and>
         pool_returns demo_work 2 [demo_check ''a'' [] None, demo_check ''b'' [] None] t \<and>
         ExitCode (fst (Run_result 0 None s)) True = ExitCode (fst (Run_result 1 None t)) True"
proof -
  obtain s t where
    "pool_returns demo_work 1 [demo_check ''a'' [] None, demo_check ''b'' [] None] s \<and> p_ctx s = CtxLive"
    "pool_returns demo_work 2 [demo_check ''a'' [] None, demo_check ''b'' [] None] t \<and> p_ctx t = CtxLive"
    using pool_returns_exists by metis
  then show ?thesis
    using exit_code_schedule_independent [of demo_work 1 _ s 2 t 0 None True 1 None] by auto
qed

text \<open>
  The report is not sorted: the doc comment of \<open>Run\<close> says that the findings are sorted
  by check id, but a complete run of two checks listed by id, with two workers, can report
  the second check's finding first.
\<close>

lemma run_may_be_unsorted:
  "\<exists>s. pool_returns demo_work 2 [demo_check ''a'' [] None, demo_check ''b'' [] None] s \<and>
       p_ctx s = CtxLive \<and>
       \<not> sorted (map f_check (r_findings (fst (Run_result 0 None s))))"
proof -
  let ?cs = "[demo_check ''a'' [] None, demo_check ''b'' [] None]"
  let ?ms = "[MDispatch 0, MDispatch 1, MRun 1, MEmit 1, MRun 0, MEmit 0, MDone 0, MDone 1,
    MClose, MExit 0, MExit 1]"
  let ?t = "\<lparr>p_todo = [], p_closed = True, p_workers = [WExit, WExit],
    p_report = demo_work (demo_check ''b'' [] None) @ demo_work (demo_check ''a'' [] None),
    p_ctx = CtxLive\<rparr> :: unit check pool"
  have w: "demo_work (demo_check i [] None) =
      [(mk_finding i StatusOK [] [])\<lparr>f_duration := 7\<rparr>]" for i
    by (simp add: runOne_def opts2_def demo_check_def Has_def)
  have "pool_exec demo_work ?ms (init_pool 2 ?cs) = Some ?t"
    by (simp add: init_pool_def numeral_2_eq_2 w)
  then have "pool_returns demo_work 2 ?cs ?t"
    by (rule pool_exec_returns) (simp add: pool_final_def)
  moreover have "\<not> (''b'' \<le> (''a'' :: string))" by code_simp
  ultimately show ?thesis
    by (intro exI [of _ ?t]) (simp add: Run_result_def w)
qed

end
