(* ===== verification/Watch.thy ===== *)
theory Watch
  imports Baseline
begin

section \<open>The watch loop (internal/watch/diff.go, model.go, watch.go)\<close>

text \<open>
  \<open>Tracker.Diff\<close> labels the findings of a tick as new or persisting; \<open>Model.Update\<close> is the
  message handler of the TUI. The model value holds its tracker by value (the source shares
  one pointer, but every copy of the model but the last is dropped). Commands are what
  \<open>Update\<close> hands back to the event loop: start one round of checks, arm one tick timer, quit.
  The event loop itself (bubbletea) is a step relation: an armed timer may fire, an
  outstanding round may complete, in any order, and the user may press keys at any time.
  The clock is the parameter \<open>now\<close> of each step. The window size, \<open>View\<close>'s input, is kept.
\<close>

subsection \<open>The tracker\<close>

definition Key :: "finding \<Rightarrow> string" where
  "Key f = f_status f @ ''|'' @ f_check f @ ''|'' @ f_resource f"

lemma Key_compare_key: "Key = compare_key"
  by (simp add: Key_def compare_key_def fun_eq_iff)

interpretation wk: finding_identity Key
  using ck.finding_identity_axioms by (simp add: Key_compare_key)

record tracker =
  t_prev :: "string set"
  t_first_tick_new :: bool
  t_seen_any :: bool

definition NewTracker :: tracker where
  "NewTracker = \<lparr>t_prev = {}, t_first_tick_new = False, t_seen_any = False\<rparr>"

fun diff_loop :: "tracker \<Rightarrow> finding list \<Rightarrow> string set \<Rightarrow> string set \<Rightarrow> string set \<times> string set" where
  "diff_loop t [] cur newKeys = (cur, newKeys)"
| "diff_loop t (f # fs) cur newKeys =
     (let k = Key f; cur' = insert k cur in
      if \<not> t_seen_any t \<and> \<not> t_first_tick_new t then diff_loop t fs cur' newKeys
      else if k \<notin> t_prev t then diff_loop t fs cur' (insert k newKeys)
      else diff_loop t fs cur' newKeys)"

definition Diff :: "tracker \<Rightarrow> finding list \<Rightarrow> tracker \<times> string set" where
  "Diff t fs =
     (let (cur, newKeys) = diff_loop t fs {} {}
      in (t\<lparr>t_prev := cur, t_seen_any := True\<rparr>, newKeys))"

lemma diff_loop_eq:
  "diff_loop t fs cur nk =
     (cur \<union> Key ` set fs,
      nk \<union> (if \<not> t_seen_any t \<and> \<not> t_first_tick_new t then {} else Key ` set fs - t_prev t))"
  by (induction fs arbitrary: cur nk) (auto simp: Let_def)

lemma Diff_eq:
  "Diff t fs = (t\<lparr>t_prev := Key ` set fs, t_seen_any := True\<rparr>,
     if \<not> t_seen_any t \<and> \<not> t_first_tick_new t then {} else Key ` set fs - t_prev t)"
  by (simp add: Diff_def diff_loop_eq)

text \<open>A sequence of ticks: the label sets in order.\<close>

fun run_ticks :: "tracker \<Rightarrow> finding list list \<Rightarrow> string set list" where
  "run_ticks t [] = []"
| "run_ticks t (fs # fss) = (let (t', nk) = Diff t fs in nk # run_ticks t' fss)"

lemma run_ticks_seen:
  "t_seen_any t \<Longrightarrow> i < length fss \<Longrightarrow>
     run_ticks t fss ! i =
       Key ` set (fss ! i) - (if i = 0 then t_prev t else Key ` set (fss ! (i - 1)))"
proof (induction fss arbitrary: t i)
  case (Cons fs fss)
  show ?case
  proof (cases i)
    case 0
    then show ?thesis using Cons.prems by (simp add: Diff_eq)
  next
    case (Suc j)
    then show ?thesis
      using Cons.prems Cons.IH [of "t\<lparr>t_prev := Key ` set fs, t_seen_any := True\<rparr>" j]
      by (cases j) (simp_all add: Diff_eq)
  qed
qed simp

subsection \<open>The model and its messages\<close>

record model =
  m_interval :: duration
  m_tracker :: tracker
  m_rep :: report
  m_new_keys :: "string set"
  m_err :: "string option"
  m_paused :: bool
  m_runs :: nat
  m_last_run :: instant
  m_last_dur :: duration
  m_width :: int
  m_height :: int
  m_quitting :: bool

datatype msg =
    KeyMsg string
  | WindowSizeMsg int int
  | TickMsg
  | ReportMsg report duration
  | ErrMsg string
  | OtherMsg

datatype cmd = CmdQuit | CmdRun | CmdTick

definition NewModel :: "duration \<Rightarrow> model" where
  "NewModel interval = \<lparr>m_interval = interval, m_tracker = NewTracker, m_rep = report0,
     m_new_keys = {}, m_err = None, m_paused = False, m_runs = 0, m_last_run = zero_time,
     m_last_dur = 0, m_width = 0, m_height = 0, m_quitting = False\<rparr>"

definition Init :: "model \<Rightarrow> cmd list" where
  "Init m = [CmdRun, CmdTick]"

text \<open>The message a round of checks ends with: \<open>Inl\<close> is the error it returned.\<close>

definition runOnce :: "string + report \<Rightarrow> duration \<Rightarrow> msg" where
  "runOnce res dur = (case res of Inl err \<Rightarrow> ErrMsg err | Inr rep \<Rightarrow> ReportMsg rep dur)"

fun Update :: "instant \<Rightarrow> model \<Rightarrow> msg \<Rightarrow> model \<times> cmd list" where
  "Update now m (KeyMsg k) =
     (if k = ''q'' \<or> k = ''ctrl+c'' \<or> k = ''esc'' then (m\<lparr>m_quitting := True\<rparr>, [CmdQuit])
      else if k = ''p'' then (m\<lparr>m_paused := \<not> m_paused m\<rparr>, [])
      else if k = ''r'' then (m, [CmdRun])
      else (m, []))"
| "Update now m (WindowSizeMsg w h) = (m\<lparr>m_width := w, m_height := h\<rparr>, [])"
| "Update now m TickMsg = (if m_paused m then (m, [CmdTick]) else (m, [CmdRun, CmdTick]))"
| "Update now m (ReportMsg rep dur) =
     (let (t', nk) = Diff (m_tracker m) (r_findings rep)
      in (m\<lparr>m_rep := rep, m_last_dur := dur, m_last_run := now, m_runs := m_runs m + 1,
            m_tracker := t', m_new_keys := nk, m_err := None\<rparr>, []))"
| "Update now m (ErrMsg e) = (m\<lparr>m_err := Some e, m_last_run := now\<rparr>, [])"
| "Update now m OtherMsg = (m, [])"

text \<open>The guards of \<open>watch.Run\<close> before the program starts (\<open>None\<close>: it starts).\<close>

definition Run_guard :: "bool \<Rightarrow> duration \<Rightarrow> string option" where
  "Run_guard has_run interval =
     (if \<not> has_run then Some ''watch: Options.Run is required''
      else if interval \<le> 0 then Some ''watch: Options.Interval must be positive''
      else None)"

subsection \<open>The event loop\<close>

text \<open>
  \<open>l_ticks\<close> counts armed timers; \<open>l_running\<close> lists the rounds in flight by the number they
  were started with, \<open>l_next\<close> is the next number; \<open>l_done\<close> is the history of delivered
  reports with their round numbers, newest first.
\<close>

record loop =
  l_model :: model
  l_ticks :: nat
  l_running :: "nat list"
  l_next :: nat
  l_done :: "(nat \<times> report) list"
  l_quit :: bool

fun issue :: "cmd list \<Rightarrow> loop \<Rightarrow> loop" where
  "issue [] l = l"
| "issue (CmdQuit # cs) l = issue cs (l\<lparr>l_quit := True\<rparr>)"
| "issue (CmdRun # cs) l = issue cs (l\<lparr>l_running := l_running l @ [l_next l], l_next := Suc (l_next l)\<rparr>)"
| "issue (CmdTick # cs) l = issue cs (l\<lparr>l_ticks := Suc (l_ticks l)\<rparr>)"

definition deliver :: "instant \<Rightarrow> msg \<Rightarrow> loop \<Rightarrow> loop" where
  "deliver now x l = (let (m, cs) = Update now (l_model l) x in issue cs (l\<lparr>l_model := m\<rparr>))"

definition init_loop :: "duration \<Rightarrow> loop" where
  "init_loop interval = issue (Init (NewModel interval))
     \<lparr>l_model = NewModel interval, l_ticks = 0, l_running = [], l_next = 0, l_done = [], l_quit = False\<rparr>"

inductive loop_step :: "loop \<Rightarrow> loop \<Rightarrow> bool" where
  tick: "\<not> l_quit l \<Longrightarrow> l_ticks l > 0 \<Longrightarrow>
     loop_step l (deliver now TickMsg (l\<lparr>l_ticks := l_ticks l - 1\<rparr>))"
| round_ok: "\<not> l_quit l \<Longrightarrow> n \<in> set (l_running l) \<Longrightarrow>
     loop_step l (deliver now (runOnce (Inr rep) dur)
       (l\<lparr>l_running := removeAll n (l_running l), l_done := (n, rep) # l_done l\<rparr>))"
| round_err: "\<not> l_quit l \<Longrightarrow> n \<in> set (l_running l) \<Longrightarrow>
     loop_step l (deliver now (runOnce (Inl e) dur) (l\<lparr>l_running := removeAll n (l_running l)\<rparr>))"
| key: "\<not> l_quit l \<Longrightarrow> loop_step l (deliver now (KeyMsg k) l)"
| resize: "\<not> l_quit l \<Longrightarrow> loop_step l (deliver now (WindowSizeMsg w h) l)"

definition watch_reaches :: "duration \<Rightarrow> loop \<Rightarrow> bool" where
  "watch_reaches interval l \<longleftrightarrow> loop_step\<^sup>*\<^sup>* (init_loop interval) l"

definition keys_of :: "report \<Rightarrow> string set" where
  "keys_of rep = Key ` set (r_findings rep)"

text \<open>What the loop keeps true between its fields.\<close>

definition loop_inv :: "loop \<Rightarrow> bool" where
  "loop_inv l \<longleftrightarrow>
     l_ticks l = 1 \<and>
     l_quit l = m_quitting (l_model l) \<and>
     distinct (l_running l) \<and> (\<forall>n \<in> set (l_running l). n < l_next l) \<and>
     m_runs (l_model l) = length (l_done l) \<and>
     m_rep (l_model l) = (case l_done l of [] \<Rightarrow> report0 | (n, r) # _ \<Rightarrow> r) \<and>
     \<not> t_first_tick_new (m_tracker (l_model l)) \<and>
     t_seen_any (m_tracker (l_model l)) = (l_done l \<noteq> []) \<and>
     t_prev (m_tracker (l_model l)) = (case l_done l of [] \<Rightarrow> {} | (n, r) # _ \<Rightarrow> keys_of r) \<and>
     m_new_keys (l_model l) =
       (case map snd (l_done l) of r # r' # _ \<Rightarrow> keys_of r - keys_of r' | _ \<Rightarrow> {})"

lemma loop_inv_init: "loop_inv (init_loop interval)"
  by (simp add: loop_inv_def init_loop_def Init_def NewModel_def NewTracker_def)

lemma deliver_simps [simp]:
  "deliver now (KeyMsg k) l =
     (let (m, cs) = Update now (l_model l) (KeyMsg k) in issue cs (l\<lparr>l_model := m\<rparr>))"
  "deliver now TickMsg l =
     (let (m, cs) = Update now (l_model l) TickMsg in issue cs (l\<lparr>l_model := m\<rparr>))"
  "deliver now (WindowSizeMsg w h) l =
     l\<lparr>l_model := (l_model l)\<lparr>m_width := w, m_height := h\<rparr>\<rparr>"
  "deliver now (runOnce (Inl e) dur) l =
     l\<lparr>l_model := (l_model l)\<lparr>m_err := Some e, m_last_run := now\<rparr>\<rparr>"
  by (simp_all add: deliver_def runOnce_def)

lemma loop_inv_report:
  assumes "loop_inv l" and "n \<in> set (l_running l)"
  shows "loop_inv (deliver now (runOnce (Inr rep) dur)
       (l\<lparr>l_running := removeAll n (l_running l), l_done := (n, rep) # l_done l\<rparr>))"
  using assms
  by (auto simp: loop_inv_def deliver_def runOnce_def Diff_eq keys_of_def distinct_removeAll
      split: list.splits)

lemma loop_step_inv: "loop_step l l' \<Longrightarrow> loop_inv l \<Longrightarrow> loop_inv l'"
proof (induction rule: loop_step.induct)
  case (tick l now)
  then show ?case by (auto simp: loop_inv_def less_Suc_eq)
next
  case (round_ok l n now rep dur)
  then show ?case using loop_inv_report by blast
next
  case (round_err l n now e dur)
  then show ?case by (auto simp: loop_inv_def distinct_removeAll)
next
  case (key l now k)
  then show ?case by (auto simp: loop_inv_def less_Suc_eq)
next
  case (resize l now w h)
  then show ?case by (simp add: loop_inv_def)
qed

lemma watch_reaches_inv: "watch_reaches interval l \<Longrightarrow> loop_inv l"
  unfolding watch_reaches_def
  by (induction rule: rtranclp_induct) (auto intro: loop_inv_init loop_step_inv)

subsection \<open>Properties\<close>

text \<open>
  C11. Labels over a whole session of a fresh tracker: nothing is new on the first tick
  (everything is, when \<open>FirstTickNew\<close> is set), and on every later tick exactly the keys
  absent from the tick before it are new, however often they were seen earlier.
\<close>

theorem tracker_labels:
  assumes "i < length fss"
  shows "run_ticks (NewTracker\<lparr>t_first_tick_new := b\<rparr>) fss ! i =
    (if i = 0 then (if b then Key ` set (fss ! 0) else {})
     else Key ` set (fss ! i) - Key ` set (fss ! (i - 1)))"
proof (cases fss)
  case Nil
  then show ?thesis using assms by simp
next
  case (Cons fs gss)
  show ?thesis
  proof (cases i)
    case 0
    then show ?thesis using Cons by (simp add: Diff_eq NewTracker_def)
  next
    case (Suc j)
    then show ?thesis
      using Cons assms run_ticks_seen [of "NewTracker\<lparr>t_first_tick_new := b, t_prev := Key ` set fs,
        t_seen_any := True\<rparr>" j gss]
      by (cases j) (simp_all add: Diff_eq NewTracker_def)
  qed
qed

theorem tracker_labels_witness:
  "run_ticks (NewTracker\<lparr>t_first_tick_new := False\<rparr>)
     [[mk_finding ''a'' StatusOK [] []], [mk_finding ''b'' StatusOK [] []],
      [mk_finding ''a'' StatusOK [] []]] ! 2 = {''OK|a|''}"
  using tracker_labels [of 2 "[[mk_finding ''a'' StatusOK [] []], [mk_finding ''b'' StatusOK [] []],
      [mk_finding ''a'' StatusOK [] []]]" False]
  by (simp add: Key_def status_defs)

text \<open>
  The tracker and the baseline comparison agree: once a tick has been seen, the keys
  \<open>Diff\<close> labels new are the keys of the findings \<open>Compare\<close> puts in New against the
  previous tick.
\<close>

lemma tracker_refines_compare:
  "snd (Diff (fst (Diff t prev)) cur) = compare_key ` set (d_new (Compare prev cur))"
  by (auto simp: Diff_eq Compare_sel Key_compare_key)

text \<open>
  C12. In every reachable state of the watch session exactly one tick timer is armed, also
  while paused and whatever the keys pressed (ticks never multiply and never die out); the
  model counts the delivered reports, shows the last one delivered, and highlights exactly
  its findings that the report delivered before it did not have.
\<close>

theorem watch_session_invariant:
  assumes "watch_reaches interval l"
  shows "l_ticks l = 1 \<and> m_runs (l_model l) = length (l_done l) \<and>
    (l_quit l \<longleftrightarrow> m_quitting (l_model l)) \<and>
    (\<forall>n rep rest. l_done l = (n, rep) # rest \<longrightarrow> m_rep (l_model l) = rep \<and>
       m_new_keys (l_model l) =
         (case rest of [] \<Rightarrow> {} | (n', rep') # _ \<Rightarrow>
            Key ` set (r_findings rep) - Key ` set (r_findings rep')))"
  using watch_reaches_inv [OF assms] by (auto simp: loop_inv_def keys_of_def split: list.splits)

definition demo_report :: "string \<Rightarrow> report" where
  "demo_report i = report0\<lparr>r_findings := [mk_finding i StatusCritical [] []]\<rparr>"

lemma watch_demo:
  "\<exists>l. watch_reaches 10 l \<and>
     l_done l = [(0, demo_report ''old''), (1, demo_report ''new'')] \<and>
     m_rep (l_model l) = demo_report ''old'' \<and> \<not> m_paused (l_model l) \<and>
     \<not> l_quit l \<and> m_err (l_model l) = None"
proof -
  let ?l0 = "init_loop 10"
  let ?l1 = "deliver 0 TickMsg (?l0\<lparr>l_ticks := l_ticks ?l0 - 1\<rparr>)"
  let ?l2 = "deliver 1 (runOnce (Inr (demo_report ''new'')) 5)
    (?l1\<lparr>l_running := removeAll 1 (l_running ?l1), l_done := (1, demo_report ''new'') # l_done ?l1\<rparr>)"
  let ?l3 = "deliver 2 (runOnce (Inr (demo_report ''old'')) 9)
    (?l2\<lparr>l_running := removeAll 0 (l_running ?l2), l_done := (0, demo_report ''old'') # l_done ?l2\<rparr>)"
  note defs = init_loop_def Init_def NewModel_def runOnce_def Diff_eq
  have "loop_step ?l0 ?l1" by (rule loop_step.tick) (simp_all add: defs)
  moreover have "loop_step ?l1 ?l2" by (rule loop_step.round_ok) (simp_all add: defs)
  moreover have "loop_step ?l2 ?l3"
    by (rule loop_step.round_ok) (simp_all add: defs deliver_def)
  ultimately have "watch_reaches 10 ?l3"
    unfolding watch_reaches_def by (meson rtranclp.rtrancl_into_rtrancl rtranclp.rtrancl_refl)
  moreover have "l_done ?l3 = [(0, demo_report ''old''), (1, demo_report ''new'')] \<and>
      m_rep (l_model ?l3) = demo_report ''old'' \<and> \<not> m_paused (l_model ?l3) \<and>
      \<not> l_quit ?l3 \<and> m_err (l_model ?l3) = None"
    by (simp add: defs deliver_def)
  ultimately show ?thesis by blast
qed

theorem watch_session_invariant_witness:
  "\<exists>l. watch_reaches 10 l \<and> l_ticks l = 1 \<and> m_new_keys (l_model l) = {''CRIT|old|''}"
proof -
  obtain l where l: "watch_reaches 10 l"
      "l_done l = [(0, demo_report ''old''), (1, demo_report ''new'')]"
    using watch_demo by blast
  then show ?thesis
    using watch_session_invariant [OF l(1)]
    by (intro exI [of _ l]) (simp add: demo_report_def Key_def status_defs)
qed

text \<open>
  C39. Rounds may overlap and overtake each other: a timer starts a round without waiting for
  the one in flight, so there is a session in which the report of the first round arrives
  after the report of the second one and replaces it on the screen.
\<close>

theorem stale_report_replaces_newer:
  "\<exists>l m n rep rep' rest. watch_reaches 10 l \<and> l_done l = (m, rep) # (n, rep') # rest \<and> m < n \<and>
     rep \<noteq> rep' \<and> m_rep (l_model l) = rep"
proof -
  obtain l where l: "watch_reaches 10 l"
      "l_done l = [(0, demo_report ''old''), (1, demo_report ''new'')]"
      "m_rep (l_model l) = demo_report ''old''"
    using watch_demo by blast
  moreover have "demo_report ''old'' \<noteq> demo_report ''new''"
    by (simp add: demo_report_def report0_def mk_finding_def finding0_def)
  ultimately show ?thesis by (metis less_one)
qed

end
