(* ===== verification/Kube.thy ===== *)
theory Kube
  imports GoLib
begin

section \<open>Launch mode and namespace scope (internal/kube/kube.go)\<close>

text \<open>
  \<open>Build\<close> and \<open>resolveConfig\<close> with everything the code asks of the process environment and
  of client-go in one record \<open>kube_world\<close>: the variable KUBERNETES_SERVICE_HOST, the stat of
  the token file, and the results of \<open>rest.InClusterConfig\<close>, of the kubeconfig loader (for an
  explicit path and a context override), of its \<open>RawConfig\<close> and of the two client
  constructors. A \<open>rest.Config\<close> is represented by its \<open>Host\<close>; the clients are not modelled.
\<close>

definition ModeInCluster :: string where "ModeInCluster = ''in-cluster''"
definition ModeOutOfCluster :: string where "ModeOutOfCluster = ''out-of-cluster''"
definition ModeAuto :: string where "ModeAuto = ''auto''"

lemmas mode_defs = ModeInCluster_def ModeOutOfCluster_def ModeAuto_def

text \<open>\<open>EtcdOptions\<close> of \<open>internal/kube\<close>.\<close>

record etcd_flags =
  ef_mode :: string
  ef_endpoints :: "string list"
  ef_ca :: string
  ef_cert :: string
  ef_key :: string
  ef_job_image :: string
  ef_quota :: int

record kube_options =
  ko_kubeconfig :: string
  ko_context :: string
  ko_launch_mode :: string
  ko_namespace :: string
  ko_all_namespaces :: bool
  ko_etcd :: etcd_flags

datatype stat_result = StatNotExist | StatError | StatDir | StatFile

record kube_world =
  kw_service_host :: string
  kw_token :: stat_result
  kw_in_cluster_config :: "string + string"
  kw_client_config :: "string \<Rightarrow> string \<Rightarrow> string + string"
  kw_raw_context :: "string \<Rightarrow> string \<Rightarrow> string option"
  kw_typed_client :: "string \<Rightarrow> string option"
  kw_dynamic_client :: "string \<Rightarrow> string option"

record kube_env =
  ke_mode :: string
  ke_config :: string
  ke_namespace :: string
  ke_all_namespaces :: bool
  ke_cluster :: string
  ke_etcd :: etcd_flags

datatype kube_error =
    InClusterConfigErr string
  | UnknownLaunchMode string
  | LoadKubeconfigErr string
  | TypedClientErr string
  | DynamicClientErr string

text \<open>The zero \<open>EtcdOptions\<close>.\<close>

definition no_etcd_flags :: etcd_flags where
  "no_etcd_flags = \<lparr>ef_mode = [], ef_endpoints = [], ef_ca = [], ef_cert = [], ef_key = [],
     ef_job_image = [], ef_quota = 0\<rparr>"

definition NamespaceForList :: "kube_env \<Rightarrow> string" where
  "NamespaceForList e = (if ke_all_namespaces e then [] else ke_namespace e)"

definition isInCluster :: "kube_world \<Rightarrow> bool" where
  "isInCluster w =
     (if kw_service_host w = [] then False
      else case kw_token w of
          StatNotExist \<Rightarrow> False
        | StatError \<Rightarrow> False
        | StatDir \<Rightarrow> False
        | StatFile \<Rightarrow> True)"

definition loadKubeconfig :: "kube_world \<Rightarrow> kube_options \<Rightarrow> kube_error + string \<times> string \<times> string" where
  "loadKubeconfig w opts =
     (case kw_client_config w (ko_kubeconfig opts) (ko_context opts) of
        Inl e \<Rightarrow> Inl (LoadKubeconfigErr e)
      | Inr host \<Rightarrow>
          let cluster = ko_context opts;
              cluster = (if cluster = [] then
                 (case kw_raw_context w (ko_kubeconfig opts) (ko_context opts) of
                    None \<Rightarrow> cluster | Some c \<Rightarrow> c) else cluster);
              cluster = (if cluster = [] then host else cluster)
          in Inr (ModeOutOfCluster, host, cluster))"

definition resolveConfig :: "kube_world \<Rightarrow> kube_options \<Rightarrow> kube_error + string \<times> string \<times> string" where
  "resolveConfig w opts =
     (if ko_launch_mode opts = ModeInCluster then
        (case kw_in_cluster_config w of
           Inl e \<Rightarrow> Inl (InClusterConfigErr e)
         | Inr host \<Rightarrow> Inr (ModeInCluster, host, host))
      else if ko_launch_mode opts = ModeOutOfCluster then loadKubeconfig w opts
      else if ko_launch_mode opts = [] \<or> ko_launch_mode opts = ModeAuto then
        (if isInCluster w then
           (case kw_in_cluster_config w of
              Inr host \<Rightarrow> Inr (ModeInCluster, host, host)
            | Inl e \<Rightarrow> loadKubeconfig w opts)
         else loadKubeconfig w opts)
      else Inl (UnknownLaunchMode (ko_launch_mode opts)))"

definition Build :: "kube_world \<Rightarrow> kube_options \<Rightarrow> kube_error + kube_env" where
  "Build w opts =
     (case resolveConfig w opts of
        Inl e \<Rightarrow> Inl e
      | Inr (mode, cfg, cluster) \<Rightarrow>
          (case kw_typed_client w cfg of
             Some e \<Rightarrow> Inl (TypedClientErr e)
           | None \<Rightarrow>
               (case kw_dynamic_client w cfg of
                  Some e \<Rightarrow> Inl (DynamicClientErr e)
                | None \<Rightarrow>
                    let ns = ko_namespace opts;
                        ns = (if ns = [] \<and> \<not> ko_all_namespaces opts then ''default'' else ns)
                    in Inr \<lparr>ke_mode = mode, ke_config = cfg, ke_namespace = ns,
                            ke_all_namespaces = ko_all_namespaces opts, ke_cluster = cluster,
                            ke_etcd = ko_etcd opts\<rparr>)))"

subsection \<open>The conventional path\<close>

text \<open>
  \<open>filepath.Clean\<close> and \<open>filepath.Join\<close> on Unix: \<open>.\<close> and empty elements go, \<open>..\<close> takes back the
  element before it, except at the root.
\<close>

fun clean_elems :: "bool \<Rightarrow> string list \<Rightarrow> string list \<Rightarrow> string list" where
  "clean_elems rooted [] out = rev out"
| "clean_elems rooted (e # es) out =
     (if e = [] \<or> e = ''.'' then clean_elems rooted es out
      else if e = ''..'' then
        (case out of
           [] \<Rightarrow> clean_elems rooted es (if rooted then [] else [''..''])
         | o1 # os \<Rightarrow> if o1 = ''..'' then clean_elems rooted es (''..'' # out) else clean_elems rooted es os)
      else clean_elems rooted es (e # out))"

definition filepath_Clean :: "string \<Rightarrow> string" where
  "filepath_Clean path =
     (let rooted = (take 1 path = ''/''); body = join ''/'' (clean_elems rooted (split_on (CHR ''/'') path) [])
      in if rooted then CHR ''/'' # body else if body = [] then ''.'' else body)"

definition filepath_Join :: "string list \<Rightarrow> string" where
  "filepath_Join elems =
     (let es = dropWhile (\<lambda>e. e = []) elems in if es = [] then [] else filepath_Clean (join ''/'' es))"

text \<open>The arguments are the variables KUBECONFIG and HOME, the latter as \<open>os.UserHomeDir\<close> reads it.\<close>

definition DefaultKubeconfigPath :: "string \<Rightarrow> string \<Rightarrow> string" where
  "DefaultKubeconfigPath kubeconfig home =
     (if kubeconfig \<noteq> [] then kubeconfig
      else if home = [] then []
      else filepath_Join [home, ''.kube'', ''config''])"

lemma default_kubeconfig_examples:
  "DefaultKubeconfigPath ''/tmp/foo'' ''/root'' = ''/tmp/foo''"
  "DefaultKubeconfigPath [] ''/home/a/'' = ''/home/a/.kube/config''"
  "DefaultKubeconfigPath [] ''/home/b/../a'' = ''/home/a/.kube/config''"
  "DefaultKubeconfigPath [] [] = []"
  by code_simp+

lemma loadKubeconfig_mode: "loadKubeconfig w opts = Inr (m, h, c) \<Longrightarrow> m = ModeOutOfCluster"
  by (auto simp: loadKubeconfig_def Let_def split: sum.splits)

lemma mode_distinct [simp]: "ModeInCluster \<noteq> ModeOutOfCluster" "ModeOutOfCluster \<noteq> ModeInCluster"
  "ModeInCluster \<noteq> ModeAuto" "ModeAuto \<noteq> ModeInCluster" "ModeOutOfCluster \<noteq> ModeAuto"
  "ModeAuto \<noteq> ModeOutOfCluster" "ModeInCluster \<noteq> []" "ModeOutOfCluster \<noteq> []" "ModeAuto \<noteq> []"
  by (simp_all add: mode_defs)

lemma Build_resolve:
  assumes "Build w opts = Inr env"
  shows "resolveConfig w opts = Inr (ke_mode env, ke_config env, ke_cluster env)"
  using assms by (auto simp: Build_def Let_def split: sum.splits option.splits prod.splits)

subsection \<open>Properties\<close>

text \<open>
  The namespace a namespaced check lists is the empty one (all namespaces) exactly when
  the user asked for all namespaces; otherwise it is the requested namespace, or \<open>default\<close>
  when none was requested.
\<close>

lemma namespace_scope:
  assumes "Build w opts = Inr env"
  shows "(NamespaceForList env = [] \<longleftrightarrow> ko_all_namespaces opts) \<and>
         (\<not> ko_all_namespaces opts \<longrightarrow>
            NamespaceForList env = (if ko_namespace opts = [] then ''default'' else ko_namespace opts))"
  using assms
  by (auto simp: Build_def NamespaceForList_def Let_def split: sum.splits option.splits prod.splits)

definition demo_world :: kube_world where
  "demo_world = \<lparr>kw_service_host = ''10.0.0.1'', kw_token = StatFile,
     kw_in_cluster_config = Inr ''https://10.0.0.1'', kw_client_config = (\<lambda>_ _. Inr ''https://prod''),
     kw_raw_context = (\<lambda>_ _. None), kw_typed_client = (\<lambda>_. None), kw_dynamic_client = (\<lambda>_. None)\<rparr>"

lemma namespace_scope_example:
  "\<exists>env. Build demo_world \<lparr>ko_kubeconfig = [], ko_context = [], ko_launch_mode = [],
      ko_namespace = [], ko_all_namespaces = False, ko_etcd = no_etcd_flags\<rparr> = Inr env \<and> NamespaceForList env = ''default''"
proof -
  obtain env where e: "Build demo_world \<lparr>ko_kubeconfig = [], ko_context = [], ko_launch_mode = [],
      ko_namespace = [], ko_all_namespaces = False, ko_etcd = no_etcd_flags\<rparr> = Inr env"
    by (simp add: Build_def resolveConfig_def isInCluster_def demo_world_def mode_defs)
  then show ?thesis using namespace_scope [OF e] by simp
qed

text \<open>
  Mode resolution: an explicit \<open>--launch-mode\<close> is never overridden; in auto mode the run
  is in-cluster exactly when the service host is set, the token is a regular file and the
  in-cluster configuration loads; any other mode string is rejected.
\<close>

lemma launch_mode_resolution:
  assumes "Build w opts = Inr env"
  shows "(ko_launch_mode opts = ModeInCluster \<longrightarrow> ke_mode env = ModeInCluster) \<and>
         (ko_launch_mode opts = ModeOutOfCluster \<longrightarrow> ke_mode env = ModeOutOfCluster) \<and>
         (ko_launch_mode opts \<in> {[], ModeAuto} \<longrightarrow>
            ke_mode env = (if kw_service_host w \<noteq> [] \<and> kw_token w = StatFile \<and>
                              (\<exists>h. kw_in_cluster_config w = Inr h)
                           then ModeInCluster else ModeOutOfCluster)) \<and>
         ko_launch_mode opts \<in> {ModeInCluster, ModeOutOfCluster, [], ModeAuto}"
  using Build_resolve [OF assms]
  by (auto simp: resolveConfig_def isInCluster_def dest: loadKubeconfig_mode
      split: sum.splits if_splits stat_result.splits)

lemma launch_mode_resolution_example:
  "\<exists>env. Build demo_world \<lparr>ko_kubeconfig = [], ko_context = [], ko_launch_mode = ModeOutOfCluster,
      ko_namespace = [], ko_all_namespaces = False, ko_etcd = no_etcd_flags\<rparr> = Inr env \<and> ke_mode env = ModeOutOfCluster"
proof -
  obtain env where e: "Build demo_world \<lparr>ko_kubeconfig = [], ko_context = [],
      ko_launch_mode = ModeOutOfCluster, ko_namespace = [], ko_all_namespaces = False, ko_etcd = no_etcd_flags\<rparr> = Inr env"
    by (simp add: Build_def resolveConfig_def loadKubeconfig_def demo_world_def mode_defs)
  then show ?thesis using launch_mode_resolution [OF e] by simp
qed

text \<open>
  In auto mode an explicit \<open>--kubeconfig\<close> does not win: inside a pod the run uses the
  in-cluster configuration and ignores the given kubeconfig, whatever it would load.
\<close>

lemma auto_mode_ignores_kubeconfig:
  assumes "kw_service_host w \<noteq> []" and "kw_token w = StatFile" and "kw_in_cluster_config w = Inr h"
    and "ko_launch_mode opts = ModeAuto" and "ko_kubeconfig opts \<noteq> []"
  shows "resolveConfig w opts = Inr (ModeInCluster, h, h)"
  using assms by (simp add: resolveConfig_def isInCluster_def)

lemma auto_mode_ignores_kubeconfig_example:
  "resolveConfig demo_world \<lparr>ko_kubeconfig = ''/home/me/prod.yaml'', ko_context = [],
     ko_launch_mode = ModeAuto, ko_namespace = [], ko_all_namespaces = False, ko_etcd = no_etcd_flags\<rparr>
   = Inr (ModeInCluster, ''https://10.0.0.1'', ''https://10.0.0.1'')"
  by (rule auto_mode_ignores_kubeconfig) (simp_all add: demo_world_def)

end
