(* ===== verification/Render.thy ===== *)
theory Render
  imports Runes Result GoTime
begin

section \<open>Text output: colours, pretty and compact (internal/render)\<close>

text \<open>
  A renderer prints a report by a sequence of \<open>Fprint\<close> calls and returns at the first error of
  the writer. It is modelled as the list of the strings of these calls; \<open>emit\<close> is what a
  writer does with it. The terminal, the environment variables and the time zone are the
  record \<open>out_world\<close>. Non-ASCII symbols are written as their UTF-8 bytes.
\<close>

record out_world =
  ow_no_color :: bool
  ow_file :: bool
  ow_terminal :: bool
  ow_size :: "int option"
  ow_columns :: string
  ow_zone :: zone

text \<open>\<open>err n\<close>: the error of the n-th write, if it fails.\<close>

fun emit :: "(nat \<Rightarrow> string option) \<Rightarrow> nat \<Rightarrow> string list \<Rightarrow> string \<times> string option" where
  "emit err n [] = ([], None)"
| "emit err n (s # ss) =
     (case err n of
        Some e \<Rightarrow> ([], Some e)
      | None \<Rightarrow> let (out, e) = emit err (Suc n) ss in (s @ out, e))"

definition line :: "string \<Rightarrow> string" where "line s = s @ [CHR 0x0A]"

subsection \<open>Colours (pretty.go)\<close>

record palette =
  pa_reset :: string
  pa_bold :: string
  pa_dim :: string
  pa_red :: string
  pa_yellow :: string
  pa_green :: string
  pa_cyan :: string
  pa_magenta :: string

definition ESC :: char where "ESC = CHR 0x1B"

definition newPalette :: "bool \<Rightarrow> palette" where
  "newPalette enabled =
     (if \<not> enabled then
        \<lparr>pa_reset = [], pa_bold = [], pa_dim = [], pa_red = [], pa_yellow = [], pa_green = [],
         pa_cyan = [], pa_magenta = []\<rparr>
      else
        \<lparr>pa_reset = ESC # ''[0m'', pa_bold = ESC # ''[1m'', pa_dim = ESC # ''[2m'', pa_red = ESC # ''[31m'',
         pa_yellow = ESC # ''[33m'', pa_green = ESC # ''[32m'', pa_cyan = ESC # ''[36m'',
         pa_magenta = ESC # ''[35m''\<rparr>)"

definition colorEnabled :: "out_world \<Rightarrow> bool" where
  "colorEnabled w = (if ow_no_color w then False else if \<not> ow_file w then False else ow_terminal w)"

definition iconColor :: "status \<Rightarrow> palette \<Rightarrow> string \<times> string" where
  "iconColor s p =
     (if s = StatusCritical then ([CHR 0xE2, CHR 0x9C, CHR 0x96], pa_red p)
      else if s = StatusWarning then ([CHR 0xE2, CHR 0x9A, CHR 0xA0], pa_yellow p)
      else if s = StatusUnknown then (''?'', pa_magenta p)
      else if s = StatusSkipped then ([CHR 0xE2, CHR 0x8F, CHR 0xAD], pa_dim p)
      else if s = StatusOK then ([CHR 0xE2, CHR 0x9C, CHR 0x93], pa_green p)
      else ([CHR 0xC2, CHR 0xB7], []))"

subsection \<open>Grouping\<close>

fun bucket_loop :: "finding list \<Rightarrow> (status \<Rightarrow> finding list) \<Rightarrow> status \<Rightarrow> finding list" where
  "bucket_loop [] m = m"
| "bucket_loop (f # fs) m = bucket_loop fs (m(f_status f := m (f_status f) @ [f]))"

definition bucketByStatus :: "finding list \<Rightarrow> status \<Rightarrow> finding list" where
  "bucketByStatus fs = bucket_loop fs (\<lambda>_. [])"

record check_group =
  cg_check :: string
  cg_findings :: "finding list"

definition add_to_group :: "finding \<Rightarrow> check_group \<Rightarrow> check_group" where
  "add_to_group f g = g\<lparr>cg_findings := cg_findings g @ [f]\<rparr>"

fun group_loop ::
  "finding list \<Rightarrow> (string \<rightharpoonup> nat) \<Rightarrow> check_group list \<Rightarrow> check_group list" where
  "group_loop [] idx out = out"
| "group_loop (f # fs) idx out =
     (let (i, idx, out) =
        (case idx (f_check f) of
           Some i \<Rightarrow> (i, idx, out)
         | None \<Rightarrow> (length out, idx(f_check f \<mapsto> length out),
                    out @ [\<lparr>cg_check = f_check f, cg_findings = []\<rparr>]))
      in group_loop fs idx (out[i := add_to_group f (out ! i)]))"

definition groupByCheck :: "finding list \<Rightarrow> check_group list" where
  "groupByCheck fs =
     sort_key cg_check
       (map (\<lambda>g. g\<lparr>cg_findings := sort_key f_resource (cg_findings g)\<rparr>) (group_loop fs Map.empty []))"

subsection \<open>The pretty renderer\<close>

definition dot_sep :: string where
  "dot_sep = ''  '' @ [CHR 0xC2, CHR 0xB7] @ ''  ''"

definition writePrettyHeader :: "out_world \<Rightarrow> report \<Rightarrow> palette \<Rightarrow> string list" where
  "writePrettyHeader w r p =
     (let parts =
        (if r_cluster r \<noteq> [] then [pa_bold p @ r_cluster r @ pa_reset p] else []) @
        (if r_generated_at r \<noteq> zero_time then [minute_layout (ow_zone w) (r_generated_at r)] else []) @
        (if r_distro r \<noteq> [] then [pa_dim p @ ''distro='' @ r_distro r @ pa_reset p] else [])
      in if parts = [] then [] else [line (join dot_sep parts), line []])"

definition pretty_finding :: "palette \<Rightarrow> finding \<Rightarrow> string list" where
  "pretty_finding p f =
     (if f_resource f \<noteq> [] then
        [line (''    '' @ pa_dim p @ f_resource f @ pa_reset p), line (''      '' @ f_message f)]
      else [line (''    '' @ f_message f)])"

definition pretty_group :: "palette \<Rightarrow> check_group \<Rightarrow> string list" where
  "pretty_group p g =
     line (''  '' @ pa_cyan p @ cg_check g @ pa_reset p) # concat (map (pretty_finding p) (cg_findings g))"

definition section_header :: "status \<Rightarrow> finding list \<Rightarrow> palette \<Rightarrow> string" where
  "section_header s fs p =
     (let (icon, color) = iconColor s p in
      color @ icon @ pa_reset p @ ''  '' @ pa_bold p @ s @ '' ('' @ itoa (int (length fs)) @ '')'' @ pa_reset p)"

definition writeSection :: "status \<Rightarrow> finding list \<Rightarrow> palette \<Rightarrow> string list" where
  "writeSection s fs p =
     line (section_header s fs p) # concat (map (pretty_group p) (groupByCheck fs)) @ [line []]"

definition writeCollapsed :: "finding list \<Rightarrow> finding list \<Rightarrow> palette \<Rightarrow> string list" where
  "writeCollapsed oks skips p =
     (if oks = [] \<and> skips = [] then []
      else
        let parts =
          (if oks \<noteq> [] then [pa_green p @ [CHR 0xE2, CHR 0x9C, CHR 0x93] @ '' '' @
             itoa (int (length oks)) @ '' OK'' @ pa_reset p] else []) @
          (if skips \<noteq> [] then [pa_dim p @ [CHR 0xE2, CHR 0x8F, CHR 0xAD] @ ''  '' @
             itoa (int (length skips)) @ '' SKIP'' @ pa_reset p] else [])
        in [line (line (join ''   '' parts @ ''   '' @ pa_dim p @ ''(use -o table to expand)'' @ pa_reset p))])"

definition summary_counts :: "(status \<Rightarrow> finding list) \<Rightarrow> palette \<Rightarrow> string list" where
  "summary_counts bucket p =
     map (\<lambda>(s, color). color @ itoa (int (length (bucket s))) @ '' '' @ s @ pa_reset p)
       [(StatusCritical, pa_red p), (StatusWarning, pa_yellow p), (StatusUnknown, pa_magenta p),
        (StatusSkipped, pa_dim p), (StatusOK, pa_green p)]"

definition writeSummary :: "report \<Rightarrow> (status \<Rightarrow> finding list) \<Rightarrow> palette \<Rightarrow> string list" where
  "writeSummary r bucket p =
     (let worst = Worst r; code = ExitCode r False; (icon, color) = iconColor worst p in
      [line (''Summary: '' @ join dot_sep (summary_counts bucket p)) @
       line (pa_bold p @ ''Worst: '' @ color @ worst @ pa_reset p @ pa_bold p @ ''   Exit: '' @ itoa code)] @
      (if pa_bold p \<noteq> [] then [pa_reset p] else []))"

definition severe :: "status list" where
  "severe = [StatusCritical, StatusUnknown, StatusWarning]"

text \<open>The frame shared by pretty and compact; \<open>section_of\<close> prints a severity section.\<close>

definition render_sections ::
  "(status \<Rightarrow> finding list \<Rightarrow> palette \<Rightarrow> string list) \<Rightarrow> out_world \<Rightarrow> report \<Rightarrow> string list" where
  "render_sections section_of w r =
     (let p = newPalette (colorEnabled w); bucket = bucketByStatus (r_findings r) in
      writePrettyHeader w r p @
      (if r_findings r = [] then [line ''no findings'']
       else
         concat (map (\<lambda>s. if bucket s = [] then [] else section_of s (bucket s) p) severe) @
         writeCollapsed (bucket StatusOK) (bucket StatusSkipped) p @
         writeSummary r bucket p))"

definition pretty_Render :: "out_world \<Rightarrow> report \<Rightarrow> string list" where
  "pretty_Render = render_sections writeSection"

subsection \<open>The compact renderer (compact.go)\<close>

definition compactCheckCap :: nat where "compactCheckCap = 32"
definition compactResourceCap :: nat where "compactResourceCap = 56"

definition seen_prefix :: string where "seen_prefix = ''[seen-before] ''"

definition stripSeenBefore :: "string \<Rightarrow> bool \<times> string" where
  "stripSeenBefore res =
     (if take (length seen_prefix) res = seen_prefix then (False, trim_prefix res seen_prefix)
      else (True, res))"

definition or_dash :: "string \<Rightarrow> string" where
  "or_dash s = (if s = [] then ''-'' else s)"

fun widths_loop :: "finding list \<Rightarrow> nat \<times> nat \<Rightarrow> nat \<times> nat" where
  "widths_loop [] acc = acc"
| "widths_loop (f # fs) (checkW, resW) =
     (let n = rune_count (f_check f);
          checkW = (if n > checkW then n else checkW);
          m = rune_count (or_dash (snd (stripSeenBefore (f_resource f))));
          resW = (if m > resW then m else resW)
      in widths_loop fs (checkW, resW))"

definition compactWidths :: "finding list \<Rightarrow> nat \<times> nat" where
  "compactWidths fs =
     (let (checkW, resW) = widths_loop fs (0, 0) in
      (if checkW > compactCheckCap then compactCheckCap else checkW,
       if resW > compactResourceCap then compactResourceCap else resW))"

definition padBy :: "string \<Rightarrow> nat \<Rightarrow> nat" where
  "padBy s w = w - rune_count s"

definition padRight :: "string \<Rightarrow> nat \<Rightarrow> string" where
  "padRight s w = s @ replicate (w - rune_count s) (CHR '' '')"

definition truncate_runes :: "string \<Rightarrow> nat \<Rightarrow> string" where
  "truncate_runes s w =
     (if w = 0 \<or> rune_count s \<le> w then s
      else if w \<le> 1 then rune_string (take w (runes s))
      else rune_string (take (w - 1) (runes s)) @ [CHR 0xE2, CHR 0x80, CHR 0xA6])"

text \<open>\<open>strings.Index\<close>: the text before and after the first occurrence of \<open>sep\<close>.\<close>

fun cut_at :: "string \<Rightarrow> string \<Rightarrow> (string \<times> string) option" where
  "cut_at sep s =
     (if take (length sep) s = sep then Some ([], drop (length sep) s)
      else case s of
        [] \<Rightarrow> None
      | c # t \<Rightarrow> (case cut_at sep t of None \<Rightarrow> None | Some (a, b) \<Rightarrow> Some (c # a, b)))"

declare cut_at.simps [simp del]

definition colorizeResource :: "string \<Rightarrow> palette \<Rightarrow> string" where
  "colorizeResource s p =
     (if s = [] \<or> s = ''-'' then pa_dim p @ s @ pa_reset p
      else case cut_at '' in ns/'' s of
        Some (hd_part, ns) \<Rightarrow> pa_dim p @ hd_part @ pa_reset p @ pa_dim p @ '' in ns/'' @ pa_reset p @
          pa_magenta p @ ns @ pa_reset p
      | None \<Rightarrow> pa_dim p @ s @ pa_reset p)"

definition compact_line :: "palette \<Rightarrow> string \<Rightarrow> nat \<Rightarrow> nat \<Rightarrow> finding \<Rightarrow> string" where
  "compact_line p color checkW resW f =
     (let (isNew, res) = stripSeenBefore (f_resource f);
          chk = truncate_runes (f_check f) checkW;
          resPlain = truncate_runes (or_dash res) resW;
          resPad = replicate (padBy resPlain resW) (CHR '' '');
          (emphStart, emphEnd) =
            (if \<not> isNew \<and> pa_dim p \<noteq> [] then (pa_dim p, pa_reset p)
             else if isNew \<and> pa_bold p \<noteq> [] then (pa_bold p, pa_reset p)
             else ([], []))
      in line (''  '' @ color @ [CHR 0xE2, CHR 0x96, CHR 0x8C] @ pa_reset p @ ''  '' @
           pa_cyan p @ padRight chk checkW @ pa_reset p @ ''  '' @
           emphStart @ colorizeResource resPlain p @ resPad @ emphEnd @ ''  '' @
           emphStart @ f_message f @ emphEnd))"

definition sort_findings :: "finding list \<Rightarrow> finding list" where
  "sort_findings = sort_key (\<lambda>f. (f_check f, f_resource f))"

definition writeCompactSection :: "status \<Rightarrow> finding list \<Rightarrow> palette \<Rightarrow> string list" where
  "writeCompactSection s fs p =
     (let sorted_fs = sort_findings fs; (checkW, resW) = compactWidths sorted_fs;
          (icon, color) = iconColor s p
      in line (section_header s fs p) # map (compact_line p color checkW resW) sorted_fs @ [line []])"

definition compact_Render :: "out_world \<Rightarrow> report \<Rightarrow> string list" where
  "compact_Render = render_sections writeCompactSection"

subsection \<open>Lemmas\<close>

lemma bucket_loop_eq: "bucket_loop fs m s = m s @ filter (\<lambda>f. f_status f = s) fs"
  by (induction fs arbitrary: m) auto

lemma bucket_eq: "bucketByStatus fs s = filter (\<lambda>f. f_status f = s) fs"
  by (simp add: bucketByStatus_def bucket_loop_eq)

text \<open>
  The invariant of the grouping loop: one group per check read so far, with its findings in
  order, and the index of each.
\<close>

definition grouped :: "finding list \<Rightarrow> (string \<rightharpoonup> nat) \<Rightarrow> check_group list \<Rightarrow> bool" where
  "grouped fs idx out \<longleftrightarrow>
     distinct (map cg_check out) \<and> cg_check ` set out = f_check ` set fs \<and>
     (\<forall>g \<in> set out. cg_findings g = filter (\<lambda>f. f_check f = cg_check g) fs) \<and>
     (\<forall>k i. idx k = Some i \<longleftrightarrow> i < length out \<and> cg_check (out ! i) = k)"

lemma grouped_step:
  assumes "grouped fs idx out" and "idx (f_check f) = Some i"
  shows "grouped (fs @ [f]) idx (out[i := add_to_group f (out ! i)])"
proof -
  let ?out = "out[i := add_to_group f (out ! i)]"
  have i: "i < length out" "cg_check (out ! i) = f_check f"
    using assms by (auto simp: grouped_def)
  have c: "cg_check (add_to_group f g) = cg_check g" for g by (simp add: add_to_group_def)
  have m: "map cg_check ?out = map cg_check out"
    using i(1) by (auto simp: map_update c intro!: list_update_same_conv [THEN iffD2])
  have s: "cg_check ` set ?out = cg_check ` set out" using m by (metis set_map)
  have f: "f_check f \<in> f_check ` set fs"
    using assms(1) i by (metis (no_types) grouped_def image_eqI nth_mem)
  have "cg_findings g = filter (\<lambda>h. f_check h = cg_check g) (fs @ [f])" if g: "g \<in> set ?out" for g
  proof -
    from g obtain j where j: "j < length out" "g = ?out ! j" by (auto simp: in_set_conv_nth)
    have old: "cg_findings (out ! j) = filter (\<lambda>h. f_check h = cg_check (out ! j)) fs"
      using assms(1) j(1) by (simp add: grouped_def)
    show ?thesis
    proof (cases "j = i")
      case True
      then show ?thesis using j i old by (simp add: add_to_group_def)
    next
      case False
      have "idx (cg_check (out ! j)) = Some j" using assms(1) j(1) by (simp add: grouped_def)
      then have "cg_check (out ! j) \<noteq> f_check f" using assms(2) False by auto
      then show ?thesis using False j old by simp
    qed
  qed
  moreover have "idx k = Some j \<longleftrightarrow> j < length ?out \<and> cg_check (?out ! j) = k" for k j
  proof -
    have "idx k = Some j \<longleftrightarrow> j < length out \<and> cg_check (out ! j) = k"
      using assms(1) unfolding grouped_def by blast
    moreover have "cg_check (?out ! j) = cg_check (out ! j)" if "j < length out"
      using that i(1) by (cases "j = i") (simp_all add: c)
    ultimately show ?thesis by auto
  qed
  moreover have "distinct (map cg_check ?out)" using assms(1) m by (simp add: grouped_def)
  moreover have "cg_check ` set ?out = f_check ` set (fs @ [f])"
    unfolding s using assms(1) f by (auto simp: grouped_def)
  ultimately show ?thesis by (auto simp: grouped_def)
qed

lemma grouped_new:
  assumes "grouped fs idx out" and "idx k = None"
  shows "k \<notin> cg_check ` set out"
proof
  assume "k \<in> cg_check ` set out"
  then obtain i where "i < length out" "cg_check (out ! i) = k" by (auto simp: in_set_conv_nth)
  then have "idx k = Some i" using assms(1) unfolding grouped_def by blast
  then show False using assms(2) by simp
qed

text \<open>
  Adding an empty group for a new check, then the finding. The groups in between break the
  invariant only in that the new check has no finding yet.
\<close>

lemma group_loop_grouped:
  "grouped done idx out \<Longrightarrow> \<exists>idx'. grouped (done @ fs) idx' (group_loop fs idx out)"
proof (induction fs arbitrary: "done" idx out)
  case Nil
  then show ?case by auto
next
  case (Cons f fs)
  show ?case
  proof (cases "idx (f_check f)")
    case (Some i)
    from Cons.IH [OF grouped_step [OF Cons.prems Some]] show ?thesis using Some by simp
  next
    case None
    let ?g = "\<lparr>cg_check = f_check f, cg_findings = [f]\<rparr>"
    have new: "f_check f \<notin> cg_check ` set out" by (rule grouped_new [OF Cons.prems None])
    then have notin: "f_check f \<notin> f_check ` set done" using Cons.prems by (simp add: grouped_def)
    have "filter (\<lambda>h. f_check h = f_check f) done = []"
      using notin unfolding filter_empty_conv by (metis image_eqI)
    moreover have "(idx(f_check f \<mapsto> length out)) k = Some i \<longleftrightarrow>
        i < length (out @ [?g]) \<and> cg_check ((out @ [?g]) ! i) = k" for k i
    proof -
      have "i < length out \<Longrightarrow> cg_check (out ! i) \<noteq> f_check f" using new by (metis image_eqI nth_mem)
      moreover have "idx k = Some i \<longleftrightarrow> i < length out \<and> cg_check (out ! i) = k"
        using Cons.prems unfolding grouped_def by blast
      ultimately show ?thesis by (auto simp: nth_append less_Suc_eq)
    qed
    moreover have "\<forall>g \<in> set out. cg_findings g = filter (\<lambda>h. f_check h = cg_check g) (done @ [f])"
      using Cons.prems new by (auto simp: grouped_def)
    ultimately have "grouped (done @ [f]) (idx(f_check f \<mapsto> length out)) (out @ [?g])"
      using Cons.prems new unfolding grouped_def by auto
    from Cons.IH [OF this] show ?thesis using None by (simp add: add_to_group_def list_update_append fun_upd_def)
  qed
qed

lemma group_loop_spec:
  obtains idx where "grouped fs idx (group_loop fs Map.empty [])"
  using group_loop_grouped [of "[]" Map.empty "[]" fs] by (auto simp: grouped_def)

lemma mset_by_keys:
  assumes "\<And>k. filter (\<lambda>x. f x = k) ys = filter (\<lambda>x. f x = k) xs"
  shows "mset ys = mset xs"
proof (rule multiset_eqI)
  fix x
  have "count (mset zs) x = count (mset (filter (\<lambda>y. f y = f x) zs)) x" for zs by simp
  then show "count (mset ys) x = count (mset xs) x" using assms by metis
qed

text \<open>What \<open>groupByCheck\<close> returns.\<close>

lemma groupByCheck_spec:
  "sorted_wrt (<) (map cg_check (groupByCheck fs))"
  "cg_check ` set (groupByCheck fs) = f_check ` set fs"
  "g \<in> set (groupByCheck fs) \<Longrightarrow>
     cg_findings g = sort_key f_resource (filter (\<lambda>f. f_check f = cg_check g) fs)"
proof -
  obtain idx where g: "grouped fs idx (group_loop fs Map.empty [])" by (rule group_loop_spec)
  let ?h = "\<lambda>g. g\<lparr>cg_findings := sort_key f_resource (cg_findings g)\<rparr>"
  let ?out = "map ?h (group_loop fs Map.empty [])"
  have m: "map cg_check ?out = map cg_check (group_loop fs Map.empty [])" by simp
  have "mset (map cg_check (groupByCheck fs)) = mset (map cg_check ?out)"
    by (simp only: groupByCheck_def mset_map mset_sort)
  then have "distinct (map cg_check (groupByCheck fs))"
    using g m by (metis grouped_def mset_eq_imp_distinct_iff)
  then show "sorted_wrt (<) (map cg_check (groupByCheck fs))"
    by (simp add: strict_sorted_iff groupByCheck_def)
  show "cg_check ` set (groupByCheck fs) = f_check ` set fs"
    using g by (auto simp: groupByCheck_def grouped_def image_image)
  show "g \<in> set (groupByCheck fs) \<Longrightarrow>
     cg_findings g = sort_key f_resource (filter (\<lambda>f. f_check f = cg_check g) fs)"
    using g by (auto simp: groupByCheck_def grouped_def)
qed

text \<open>The groups written one after another are the findings sorted as compact and table sort them.\<close>

lemma concat_groups_filter:
  assumes "distinct (map cg_check gs)"
    and "\<forall>g \<in> set gs. cg_findings g = sort_key f_resource (filter (\<lambda>f. f_check f = cg_check g) fs)"
  shows "filter (\<lambda>f. (f_check f, f_resource f) = (c, r)) (concat (map cg_findings gs)) =
           (if c \<in> cg_check ` set gs then filter (\<lambda>f. (f_check f, f_resource f) = (c, r)) fs else [])"
  using assms
proof (induction gs)
  case (Cons g gs)
  have fg: "cg_findings g = sort_key f_resource (filter (\<lambda>f. f_check f = cg_check g) fs)"
    using Cons.prems by simp
  have chk: "\<forall>f \<in> set (cg_findings g). f_check f = cg_check g" by (simp add: fg)
  have "filter (\<lambda>f. (f_check f, f_resource f) = (c, r)) (cg_findings g) =
      (if cg_check g = c then filter (\<lambda>f. (f_check f, f_resource f) = (c, r)) fs else [])"
  proof (cases "cg_check g = c")
    case True
    have "filter (\<lambda>f. (f_check f, f_resource f) = (c, r)) (cg_findings g) =
        filter (\<lambda>f. f_resource f = r) (cg_findings g)"
      using chk True by (intro filter_cong) auto
    also have "\<dots> = filter (\<lambda>f. f_resource f = r) (filter (\<lambda>f. f_check f = c) fs)"
      unfolding fg True by (rule sort_key_stable)
    finally show ?thesis using True by (simp add: conj_commute)
  next
    case False
    then show ?thesis using chk by (auto simp: filter_empty_conv)
  qed
  then show ?case using Cons by auto
qed simp

lemma sorted_pair_same:
  "sorted (map snd_key xs) \<Longrightarrow> \<forall>x \<in> set xs. fst_key x = c \<Longrightarrow>
     sorted (map (\<lambda>x. (fst_key x :: string, snd_key x :: string)) xs)"
  by (induction xs) auto

lemma concat_groups_sorted:
  assumes "sorted_wrt (<) (map cg_check gs)"
    and "\<forall>g \<in> set gs. cg_findings g = sort_key f_resource (filter (\<lambda>f. f_check f = cg_check g) fs)"
  shows "sorted (map (\<lambda>f. (f_check f, f_resource f)) (concat (map cg_findings gs)))"
  using assms
proof (induction gs)
  case (Cons g gs)
  have fg: "cg_findings g = sort_key f_resource (filter (\<lambda>f. f_check f = cg_check g) fs)"
    using Cons.prems by simp
  then have chk: "\<forall>f \<in> set (cg_findings g). f_check f = cg_check g" by simp
  have "sorted (map (\<lambda>f. (f_check f, f_resource f)) (cg_findings g))"
    by (rule sorted_pair_same [OF _ chk]) (simp add: fg)
  moreover have "cg_check g < f_check f" if "f \<in> set (concat (map cg_findings gs))" for f
    using that Cons.prems by (auto simp: sorted_wrt_map)
  then have "(f_check x, f_resource x) \<le> (f_check f, f_resource f)"
    if "x \<in> set (cg_findings g)" "f \<in> set (concat (map cg_findings gs))" for x f
    using that chk by (simp add: less_imp_le)
  moreover have "sorted (map (\<lambda>f. (f_check f, f_resource f)) (concat (map cg_findings gs)))"
    using Cons by simp
  ultimately show ?case by (simp only: list.map concat.simps map_append sorted_append set_map) blast
qed simp

lemma groups_flat: "concat (map cg_findings (groupByCheck fs)) = sort_findings fs"
proof -
  let ?ys = "concat (map cg_findings (groupByCheck fs))"
  let ?key = "\<lambda>f. (f_check f, f_resource f)"
  have keys: "filter (\<lambda>f. ?key f = k) ?ys = filter (\<lambda>f. ?key f = k) fs" for k
  proof (cases k)
    case (Pair c r)
    have "distinct (map cg_check (groupByCheck fs))"
      using groupByCheck_spec(1) [of fs] strict_sorted_iff by blast
    then have "filter (\<lambda>f. ?key f = k) ?ys = (if c \<in> f_check ` set fs then filter (\<lambda>f. ?key f = k) fs else [])"
      using concat_groups_filter [of "groupByCheck fs" fs c r] groupByCheck_spec(2) [of fs]
        groupByCheck_spec(3) [of _ fs] Pair by simp
    moreover have "c \<notin> f_check ` set fs \<Longrightarrow> filter (\<lambda>f. ?key f = k) fs = []"
      using Pair unfolding filter_empty_conv by (metis fst_conv image_eqI)
    ultimately show ?thesis by presburger
  qed
  have "sort_key ?key fs = ?ys"
  proof (rule properties_for_sort_key)
    show "mset ?ys = mset fs" by (rule mset_by_keys [of ?key]) (rule keys)
    show "filter (\<lambda>f. ?key x = ?key f) ?ys = filter (\<lambda>f. ?key x = ?key f) fs" for x
      using keys [of "?key x"] by (metis (mono_tags, lifting) filter_cong)
    show "sorted (map ?key ?ys)" 
      by (rule concat_groups_sorted [OF groupByCheck_spec(1), where fs = fs]) (simp add: groupByCheck_spec(3))
  qed
  then show ?thesis by (simp add: sort_findings_def)
qed

subsection \<open>Column widths\<close>

lemma space_not_continuation: "replicate n (CHR '' '') = [] \<or> \<not> continuation (hd (replicate n (CHR '' '')))"
  by (cases n) (simp_all add: between_def byte_def)

lemma padRight_width: "rune_count (padRight s w) = max w (rune_count s)"
  unfolding padRight_def by (subst rune_count_append [OF space_not_continuation]) (simp add: max_def)

lemma pad_width: "rune_count (s @ replicate (padBy s w) (CHR '' '')) = max w (rune_count s)"
  by (subst rune_count_append [OF space_not_continuation]) (simp add: padBy_def max_def)

lemma ellipsis_count:
  "rune_count (rune_string rs @ [CHR 0xE2, CHR 0x80, CHR 0xA6]) = Suc (length rs)"
proof -
  have "rune_count [CHR 0xE2, CHR 0x80, CHR 0xA6] = 1" by code_simp
  moreover have "\<not> continuation (CHR 0xE2)" by code_simp
  ultimately show ?thesis by (simp add: rune_count_append rune_count_rune_string)
qed

lemma truncate_runes_width:
  assumes "0 < w"
  shows "rune_count (truncate_runes s w) = min w (rune_count s)"
proof (cases "rune_count s \<le> w")
  case False
  then have "w < length (runes s)" by (simp add: rune_count_def)
  then show ?thesis
    using assms False
    by (auto simp add: truncate_runes_def rune_count_rune_string ellipsis_count min_def)
qed (simp add: truncate_runes_def min_def)

lemma widths_loop_max:
  "widths_loop fs (a, b) =
     (Max (insert a ((\<lambda>f. rune_count (f_check f)) ` set fs)),
      Max (insert b ((\<lambda>f. rune_count (or_dash (snd (stripSeenBefore (f_resource f))))) ` set fs)))"
proof (induction fs arbitrary: a b)
  case (Cons f fs)
  have m: "Max (insert (if n > x then n else x) A) = Max (insert x (insert n A))" if "finite A" for n x :: nat and A
    using that by (cases "A = {}") (auto simp: max_def)
  show ?case by (simp only: widths_loop.simps Let_def Cons.IH m finite_imageI finite_set list.set image_insert)
qed simp

lemma compactWidths_bounds:
  assumes "compactWidths fs = (cw, rw)" and "f \<in> set fs"
  shows "cw \<le> 32" "rw \<le> 56" "min 32 (rune_count (f_check f)) \<le> cw"
    "min 56 (rune_count (or_dash (snd (stripSeenBefore (f_resource f))))) \<le> rw"
proof -
  obtain c r where w: "widths_loop fs (0, 0) = (c, r)" by (cases "widths_loop fs (0, 0)")
  have "rune_count (f_check f) \<le> c" "rune_count (or_dash (snd (stripSeenBefore (f_resource f)))) \<le> r"
    using w assms(2) by (auto simp: widths_loop_max intro!: Max_ge)
  then show "cw \<le> 32" "rw \<le> 56" "min 32 (rune_count (f_check f)) \<le> cw"
    "min 56 (rune_count (or_dash (snd (stripSeenBefore (f_resource f))))) \<le> rw"
    using assms(1) w by (auto simp: compactWidths_def compactCheckCap_def compactResourceCap_def split: if_splits)
qed

lemma plain_palette [simp]:
  "pa_reset (newPalette False) = []" "pa_bold (newPalette False) = []" "pa_dim (newPalette False) = []"
  "pa_red (newPalette False) = []" "pa_yellow (newPalette False) = []" "pa_green (newPalette False) = []"
  "pa_cyan (newPalette False) = []" "pa_magenta (newPalette False) = []"
  by (simp_all add: newPalette_def)

lemma cut_at_eq: "cut_at sep s = Some (a, b) \<Longrightarrow> s = a @ sep @ b"
proof (induction s arbitrary: a b)
  case Nil
  then show ?case by (auto simp: cut_at.simps [of sep "[]"] split: if_splits)
next
  case (Cons c s)
  show ?case
  proof (cases "take (length sep) (c # s) = sep")
    case True
    then show ?thesis using Cons.prems by (metis append_Nil append_take_drop_id cut_at.simps option.inject prod.inject)
  next
    case False
    then obtain a' where "cut_at sep s = Some (a', b)" "a = c # a'"
      using Cons.prems by (auto simp: cut_at.simps [of sep "c # s"] split: option.splits)
    then show ?thesis using Cons.IH by simp
  qed
qed

lemma colorize_plain: "colorizeResource s (newPalette False) = s"
  by (auto simp: colorizeResource_def split: option.split dest!: cut_at_eq)

lemma rune_count_zero: "rune_count s = 0 \<longleftrightarrow> s = []"
  by (auto simp: rune_count_def runes.simps [of s])

subsection \<open>Properties\<close>

text \<open>
  Pretty, compact and table list the findings of a section in the same order: the groups of
  \<open>groupByCheck\<close>, written one after another, are the stable sort by check and resource, one
  group per check in ascending order.
\<close>

lemma sections_agree:
  "concat (map cg_findings (groupByCheck fs)) = sort_findings fs \<and>
   sorted_wrt (<) (map cg_check (groupByCheck fs)) \<and>
   cg_check ` set (groupByCheck fs) = f_check ` set fs"
  using groups_flat groupByCheck_spec(1,2) by blast

text \<open>
  The columns of a compact section line up: with \<open>cw\<close> and \<open>rw\<close> the widths it computes, at most
  32 and 56, every line printed without colours is the bar, a check column of exactly \<open>cw\<close> runes, a
  resource column of exactly \<open>rw\<close> runes and the message, whatever bytes the names contain; and
  names within the caps are printed in full.
\<close>

lemma compact_columns_align:
  assumes "compactWidths fs = (cw, rw)" and "f \<in> set fs" and "f_check f \<noteq> []"
  shows "cw \<le> 32 \<and> rw \<le> 56 \<and>
    (\<exists>A B. compact_line (newPalette False) [] cw rw f =
        line (''  '' @ [CHR 0xE2, CHR 0x96, CHR 0x8C] @ ''  '' @ A @ ''  '' @ B @ ''  '' @ f_message f) \<and>
      rune_count A = cw \<and> rune_count B = rw \<and>
      (rune_count (f_check f) \<le> 32 \<longrightarrow> prefix (f_check f) A) \<and>
      (rune_count (snd (stripSeenBefore (f_resource f))) \<le> 56 \<longrightarrow> prefix (snd (stripSeenBefore (f_resource f))) B))"
proof -
  define res where "res = or_dash (snd (stripSeenBefore (f_resource f)))"
  note b = compactWidths_bounds [OF assms(1,2), folded res_def]
  have "res \<noteq> []" by (simp add: res_def or_dash_def)
  then have pos: "0 < cw" "0 < rw"
    using b(3,4) assms(3) rune_count_zero [of "f_check f"] rune_count_zero [of res] by auto
  let ?A = "padRight (truncate_runes (f_check f) cw) cw"
  let ?B = "truncate_runes res rw @ replicate (padBy (truncate_runes res rw) rw) (CHR '' '')"
  have "compact_line (newPalette False) [] cw rw f =
      line (''  '' @ [CHR 0xE2, CHR 0x96, CHR 0x8C] @ ''  '' @ ?A @ ''  '' @ ?B @ ''  '' @ f_message f)"
    by (simp add: compact_line_def colorize_plain res_def Let_def split: prod.split)
  moreover have "rune_count ?A = cw" using pos by (simp add: padRight_width truncate_runes_width)
  moreover have "rune_count ?B = rw" using pos by (simp add: pad_width truncate_runes_width)
  moreover have full: "rune_count (f_check f) \<le> 32 \<Longrightarrow> truncate_runes (f_check f) cw = f_check f"
    "rune_count res \<le> 56 \<Longrightarrow> truncate_runes res rw = res"
    using b(3,4) by (simp_all add: truncate_runes_def min_def split: if_splits)
  moreover have "prefix (f_check f) ?A" if "rune_count (f_check f) \<le> 32"
    using full(1) [OF that] by (simp add: padRight_def)
  moreover have "prefix (snd (stripSeenBefore (f_resource f))) ?B"
    if "rune_count (snd (stripSeenBefore (f_resource f))) \<le> 56"
    using full(2) that by (cases "snd (stripSeenBefore (f_resource f)) = []") (simp_all add: res_def or_dash_def)
  ultimately show ?thesis using b(1,2) by blast
qed

lemma compact_columns_align_example:
  "\<exists>A B. compact_line (newPalette False) [] 11 1 (mk_finding ''nodes.ready'' StatusWarning [] ''m'') =
     line (''  '' @ [CHR 0xE2, CHR 0x96, CHR 0x8C] @ ''  '' @ A @ ''  '' @ B @ ''  m'') \<and>
     rune_count A = 11 \<and> rune_count B = 1"
proof -
  have "compactWidths [mk_finding ''nodes.ready'' StatusWarning [] ''m''] = (11, 1)" by code_simp
  from compact_columns_align [OF this, of "mk_finding ''nodes.ready'' StatusWarning [] ''m''"]
  show ?thesis by auto
qed

text \<open>
  The \<open>Exit:\<close> figure at the end of pretty and compact output is the non-strict one: for a
  report whose worst status is WARN it says 0, also under \<open>--strict\<close>, where the exit code is 2.
\<close>

lemma printed_exit_ignores_strict:
  assumes "Worst r = StatusWarning" and "\<not> colorEnabled w"
  shows "ExitCode r True = 2 \<and>
    (\<forall>render \<in> {pretty_Render, compact_Render}. \<exists>text. last (render w r) = line (text @ ''   Exit: 0''))"
proof -
  have ne: "r_findings r \<noteq> []" using assms(1) by (auto simp: Worst_def)
  have "ExitCode r False = 0" "ExitCode r True = 2" using assms(1) by (simp_all add: ExitCode_def)
  moreover have "itoa 0 = ''0''" by code_simp
  ultimately have "writeSummary r b (newPalette False) =
      [line (''Summary: '' @ join dot_sep (summary_counts b (newPalette False))) @ line (''Worst: WARN'' @ ''   Exit: 0'')]" for b
    using assms(1) by (simp add: writeSummary_def Let_def iconColor_def status_defs)
  then have "\<exists>text. last (render_sections section_of w r) = line (text @ ''   Exit: 0'')" for section_of
    using assms(2) ne by (auto simp: render_sections_def Let_def line_def)
  then show ?thesis
    using \<open>ExitCode r True = 2\<close> by (simp add: pretty_Render_def compact_Render_def)
qed

lemma printed_exit_ignores_strict_example:
  "\<exists>text. last (pretty_Render \<lparr>ow_no_color = True, ow_file = True, ow_terminal = True, ow_size = None, ow_columns = [],
     ow_zone = \<lparr>zn_offset = 0, zn_name = ''UTC''\<rparr>\<rparr> (report0\<lparr>r_findings := [mk_finding ''c'' StatusWarning [] ''m'']\<rparr>)) = line (text @ ''   Exit: 0'')"
proof -
  have "Worst (report0\<lparr>r_findings := [mk_finding ''c'' StatusWarning [] ''m'']\<rparr>) = StatusWarning"
    by (simp add: Worst_def rank_def)
  then show ?thesis by (rule printed_exit_ignores_strict [THEN conjunct2, THEN bspec]) (simp_all add: colorEnabled_def)
qed

end
