(* ===== verification/RenderTable.thy ===== *)
theory RenderTable
  imports Render
begin

section \<open>The table renderer (internal/render/table.go)\<close>

text \<open>
  A bordered table per status whose widest columns are shrunk to the terminal and whose cells
  are wrapped. Widths are \<open>int\<close>, lengths of text in runes. \<open>wrapCell\<close> keeps the current line, its
  length and the finished lines, as the source's builder, counter and slice.
\<close>

subsection \<open>Width of the terminal\<close>

definition defaultTableWidth :: int where "defaultTableWidth = 120"

text \<open>\<open>fmt.Sscanf(v, "%d", &n)\<close>: blanks, a sign and the longest run of digits, in the range of \<open>int\<close>.\<close>

definition scan_int :: "string \<Rightarrow> int option" where
  "scan_int v =
     (let s = dropWhile (\<lambda>c. is_space c \<and> c \<noteq> CHR 0x0A) v;
          neg = (take 1 s = ''-'');
          body = takeWhile is_digit (if take 1 s = ''-'' \<or> take 1 s = ''+'' then drop 1 s else s);
          n = (if neg then - digits_value body else digits_value body)
      in if body = [] \<or> n < - (2 ^ 63) \<or> n \<ge> 2 ^ 63 then None else Some n)"

definition terminalWidth :: "out_world \<Rightarrow> int" where
  "terminalWidth w =
     (let detected =
        (if \<not> ow_file w then defaultTableWidth
         else case ow_size w of
           None \<Rightarrow> defaultTableWidth
         | Some width \<Rightarrow> if width \<le> 0 then defaultTableWidth else width)
      in if ow_columns w \<noteq> [] then
           (case scan_int (ow_columns w) of Some n \<Rightarrow> if n > 0 then n else detected | None \<Rightarrow> detected)
         else detected)"

subsection \<open>Column widths\<close>

definition minColWidth :: "string \<Rightarrow> int" where
  "minColWidth header = (let n = int (rune_count header) in if n < 8 then 8 else n)"

fun widen :: "int list \<Rightarrow> string list \<Rightarrow> int list" where
  "widen (w # ws) (c # cs) = (let n = int (rune_count c) in (if n > w then n else w) # widen ws cs)"
| "widen ws cs = ws"

definition natural_widths :: "string list \<Rightarrow> string list list \<Rightarrow> int list" where
  "natural_widths headers rows = foldl widen (map (\<lambda>h. int (rune_count h)) headers) rows"

text \<open>The shrinking loop, from the last column to the first; \<open>n\<close> columns are left.\<close>

fun shrink :: "int \<Rightarrow> int list \<Rightarrow> nat \<Rightarrow> int list \<Rightarrow> int list" where
  "shrink avail floors 0 widths = widths"
| "shrink avail floors (Suc col) widths =
     (if sum_list widths \<le> avail then widths
      else
        let room = widths ! col - floors ! col in
        if room \<le> 0 then shrink avail floors col widths
        else
          let by0 = sum_list widths - avail; by1 = (if by0 > room then room else by0)
          in shrink avail floors col (widths[col := widths ! col - by1]))"

definition computeWidths :: "string list \<Rightarrow> string list list \<Rightarrow> int \<Rightarrow> int list" where
  "computeWidths headers rows maxWidth =
     (let cols = length headers;
          widths = natural_widths headers rows;
          avail = maxWidth - (1 + 3 * int cols)
      in if avail \<le> 0 then widths
         else if sum_list widths \<le> avail then widths
         else shrink avail (map minColWidth headers) cols widths)"

subsection \<open>Wrapping a cell\<close>

text \<open>The pieces of a word that is longer than the column.\<close>

function pieces :: "nat \<Rightarrow> string list \<Rightarrow> string list" where
  "pieces width rs =
     (if rs = [] \<or> width = 0 then [] else rune_string (take width rs) # pieces width (drop width rs))"
  by auto
termination by (relation "measure (\<lambda>(w, rs). length rs)") auto

declare pieces.simps [simp del]

fun wrap_words :: "nat \<Rightarrow> string list \<Rightarrow> string list \<Rightarrow> string \<Rightarrow> nat \<Rightarrow> string list" where
  "wrap_words width [] out cur len = (if len > 0 then out @ [cur] else out)"
| "wrap_words width (word # words) out cur len =
     (let wlen = rune_count word in
      if wlen > width then
        wrap_words width words ((if len > 0 then out @ [cur] else out) @ pieces width (runes word))
          (if len > 0 then [] else cur) 0
      else
        let need = (if len > 0 then wlen + 1 else wlen) in
        if len + need > width then wrap_words width words (out @ [cur]) word wlen
        else
          let (cur, len) = (if len > 0 then (cur @ '' '', len + 1) else (cur, len))
          in wrap_words width words out (cur @ word) (len + wlen))"

definition wrapCell :: "string \<Rightarrow> int \<Rightarrow> string list" where
  "wrapCell s width =
     (if width \<le> 0 \<or> s = [] then [s]
      else if int (rune_count s) \<le> width then [s]
      else
        let out = wrap_words (nat width) (Fields s) [] [] 0 in
        if out = [] then [[]] else out)"

subsection \<open>Drawing\<close>

definition box :: "char \<Rightarrow> string" where "box c = [CHR 0xE2, CHR 0x94, c]"

definition dimWrap :: "palette \<Rightarrow> string \<Rightarrow> string" where
  "dimWrap p s = (if pa_dim p = [] then s else pa_dim p @ s @ pa_reset p)"

definition bar :: "palette \<Rightarrow> string" where "bar p = dimWrap p (box (CHR 0x82))"

fun border_cells :: "string \<Rightarrow> int list \<Rightarrow> string" where
  "border_cells sep [] = []"
| "border_cells sep [w] = concat (replicate (nat (w + 2)) (box (CHR 0x80)))"
| "border_cells sep (w # v # ws) =
     concat (replicate (nat (w + 2)) (box (CHR 0x80))) @ sep @ border_cells sep (v # ws)"

definition borderLine :: "string \<Rightarrow> string \<Rightarrow> string \<Rightarrow> int list \<Rightarrow> string" where
  "borderLine left sep right widths = left @ border_cells sep widths @ right"

text \<open>One cell of one printed line: its text, padded to the width.\<close>

definition cell_text :: "palette \<Rightarrow> string \<Rightarrow> int \<Rightarrow> string \<Rightarrow> string" where
  "cell_text p color cw seg =
     '' '' @ (if color \<noteq> [] \<and> seg \<noteq> [] then color @ seg @ pa_reset p else seg) @
     replicate (nat (cw - int (rune_count seg))) (CHR '' '') @ '' '' @ bar p"

definition nth_or_empty :: "string list \<Rightarrow> nat \<Rightarrow> string" where
  "nth_or_empty xs i = (if i < length xs then xs ! i else [])"

definition row_line ::
  "palette \<Rightarrow> string list \<Rightarrow> int list \<Rightarrow> string list list \<Rightarrow> nat \<Rightarrow> string" where
  "row_line p colColors widths wrapped n =
     bar p @ concat (map (\<lambda>i. cell_text p (nth_or_empty colColors i) (widths ! i)
       (nth_or_empty (wrapped ! i) n)) [0..<length widths])"

definition row_height :: "string list list \<Rightarrow> nat" where
  "row_height wrapped = fold (\<lambda>xs h. if length xs > h then length xs else h) wrapped 1"

definition writeWrappedRow ::
  "string list \<Rightarrow> int list \<Rightarrow> palette \<Rightarrow> string list \<Rightarrow> string list" where
  "writeWrappedRow cells widths p colColors =
     (let wrapped = map (\<lambda>i. wrapCell (nth_or_empty cells i) (widths ! i)) [0..<length widths]
      in map (\<lambda>n. line (row_line p colColors widths wrapped n)) [0..<row_height wrapped])"

text \<open>
  An element of \<open>drawTable\<close> is what one \<open>Fprintln\<close> writes; a cell that keeps its newlines makes several
  lines of it. \<open>output_lines\<close> below are the lines of the output.
\<close>

definition drawTable ::
  "string list \<Rightarrow> string list list \<Rightarrow> int \<Rightarrow> palette \<Rightarrow> string list \<Rightarrow> string list" where
  "drawTable headers rows maxWidth p colColors =
     (let widths = computeWidths headers rows maxWidth;
          top = dimWrap p (borderLine (box (CHR 0x8C)) (box (CHR 0xAC)) (box (CHR 0x90)) widths);
          mid = dimWrap p (borderLine (box (CHR 0x9C)) (box (CHR 0xBC)) (box (CHR 0xA4)) widths);
          bot = dimWrap p (borderLine (box (CHR 0x94)) (box (CHR 0xB4)) (box (CHR 0x98)) widths)
      in [line top] @ writeWrappedRow headers widths p (map (\<lambda>_. pa_bold p) headers) @ [line mid] @
         concat (map (\<lambda>r. writeWrappedRow r widths p colColors) rows) @ [line bot])"

subsection \<open>The renderer\<close>

definition writeTableHeader :: "out_world \<Rightarrow> report \<Rightarrow> palette \<Rightarrow> string list" where
  "writeTableHeader w r p =
     (if r_cluster r \<noteq> [] then
        [line (pa_dim p @ ''CLUSTER'' @ pa_reset p @ ''  '' @ pa_bold p @ r_cluster r @ pa_reset p)] else []) @
     (if r_distro r \<noteq> [] then [line (pa_dim p @ ''DISTRO'' @ pa_reset p @ ''   '' @ r_distro r)] else []) @
     (if r_generated_at r \<noteq> zero_time then
        [line (pa_dim p @ ''TIME'' @ pa_reset p @ ''     '' @
           rfc3339 (zn_offset (ow_zone w)) (r_generated_at r))] else []) @
     [line []]"

definition finding_row :: "finding \<Rightarrow> string list" where
  "finding_row f = [f_check f, or_dash (f_resource f), f_message f]"

definition table_headers :: "string list" where
  "table_headers = [''CHECK'', ''RESOURCE'', ''MESSAGE'']"

definition writeTableSection :: "status \<Rightarrow> finding list \<Rightarrow> int \<Rightarrow> palette \<Rightarrow> string list" where
  "writeTableSection s fs maxWidth p =
     (let (icon, color) = iconColor s p in
      [line (color @ icon @ '' '' @ s @ '' ('' @ itoa (int (length fs)) @ '')'' @ pa_reset p)] @
      drawTable table_headers (map finding_row (sort_findings fs)) maxWidth p [pa_cyan p, pa_dim p, []] @
      [line []])"

definition table_order :: "status list" where
  "table_order = [StatusCritical, StatusUnknown, StatusWarning, StatusOK, StatusSkipped]"

definition table_Render :: "out_world \<Rightarrow> report \<Rightarrow> string list" where
  "table_Render w r =
     (let p = newPalette (colorEnabled w); bucket = bucketByStatus (r_findings r) in
      writeTableHeader w r p @
      (if r_findings r = [] then [line ''no findings'']
       else
         concat (map (\<lambda>s. if bucket s = [] then [] else writeTableSection s (bucket s) (terminalWidth w) p)
           table_order) @
         (let worst = Worst r; code = ExitCode r False; (icon, worstColor) = iconColor worst p in
          [line (itoa (int (length (r_findings r))) @ '' findings (worst='' @ worstColor @ worst @ pa_reset p @
             ''). Default exit code: '' @ itoa code)])))"

subsection \<open>Widths\<close>

lemma sum_list_update_int:
  "i < length xs \<Longrightarrow> sum_list (xs[i := y]) = sum_list xs - xs ! i + (y :: int)"
  by (induction xs arbitrary: i) (auto split: nat.split)

lemma shrink_spec:
  assumes "n \<le> length widths" and "length floors = length widths" and "avail \<le> sum_list widths"
    and "sum_list widths \<le> avail \<or> (\<forall>j < length widths. n \<le> j \<longrightarrow> widths ! j \<le> floors ! j)"
  shows "length (shrink avail floors n widths) = length widths \<and>
    avail \<le> sum_list (shrink avail floors n widths) \<and>
    (sum_list (shrink avail floors n widths) \<le> avail \<or>
     (\<forall>j < length widths. shrink avail floors n widths ! j \<le> floors ! j)) \<and>
    (\<forall>j < length widths. min (widths ! j) (floors ! j) \<le> shrink avail floors n widths ! j \<and>
       shrink avail floors n widths ! j \<le> widths ! j)"
  using assms
proof (induction n arbitrary: widths)
  case (Suc n)
  show ?case
  proof (cases "sum_list widths \<le> avail")
    case fits: False
    let ?room = "widths ! n - floors ! n"
    show ?thesis
    proof (cases "?room \<le> 0")
      case True
      then have "\<forall>j < length widths. n \<le> j \<longrightarrow> widths ! j \<le> floors ! j"
        using Suc.prems(4) fits by (metis diff_le_0_iff_le le_antisym not_less_eq_eq)
      then show ?thesis using Suc.IH [of widths] Suc.prems(1-3) fits True by simp
    next
      case room: False
      define cut where "cut = (if sum_list widths - avail > ?room then ?room else sum_list widths - avail)"
      let ?new = "widths[n := widths ! n - cut]"
      have b: "0 < cut" "cut \<le> ?room" "cut \<le> sum_list widths - avail"
        using fits room by (auto simp: cut_def)
      have s: "sum_list ?new = sum_list widths - cut"
        using Suc.prems(1) by (simp add: sum_list_update_int)
      have "sum_list ?new \<le> avail \<or> (\<forall>j < length ?new. n \<le> j \<longrightarrow> ?new ! j \<le> floors ! j)"
      proof (cases "sum_list widths - avail > ?room")
        case True
        then have "cut = ?room" by (simp add: cut_def)
        moreover have "\<forall>j < length widths. Suc n \<le> j \<longrightarrow> widths ! j \<le> floors ! j" using Suc.prems(4) fits by simp
        ultimately show ?thesis by (auto simp: nth_list_update le_eq_less_or_eq Suc_le_eq)
      next
        case False
        then show ?thesis using s by (simp add: cut_def)
      qed
      then have ih: "length (shrink avail floors n ?new) = length ?new \<and>
          avail \<le> sum_list (shrink avail floors n ?new) \<and>
          (sum_list (shrink avail floors n ?new) \<le> avail \<or>
           (\<forall>j < length ?new. shrink avail floors n ?new ! j \<le> floors ! j)) \<and>
          (\<forall>j < length ?new. min (?new ! j) (floors ! j) \<le> shrink avail floors n ?new ! j \<and>
             shrink avail floors n ?new ! j \<le> ?new ! j)"
        using Suc.IH [of ?new] Suc.prems b s by simp
      have step: "shrink avail floors (Suc n) widths = shrink avail floors n ?new"
        using fits room by (simp add: cut_def Let_def)
      have "min (widths ! j) (floors ! j) \<le> shrink avail floors n ?new ! j \<and>
          shrink avail floors n ?new ! j \<le> widths ! j" if j: "j < length widths" for j
      proof -
        have "min (widths ! j) (floors ! j) \<le> min (?new ! j) (floors ! j)" "?new ! j \<le> widths ! j"
          using j b by (cases "j = n"; simp)+
        moreover have "min (?new ! j) (floors ! j) \<le> shrink avail floors n ?new ! j"
            "shrink avail floors n ?new ! j \<le> ?new ! j"
          using ih j by simp_all
        ultimately show ?thesis by linarith
      qed
      then show ?thesis unfolding step using ih by simp
    qed
  next
    case True
    then show ?thesis using Suc.prems(3) by simp
  qed
qed auto

lemma length_widen [simp]: "length (widen ws cs) = length ws"
  by (induction ws cs rule: widen.induct) (simp_all add: Let_def)

lemma length_natural [simp]: "length (natural_widths headers rows) = length headers"
proof -
  have "length (foldl widen ws rows) = length ws" for ws
    by (induction rows arbitrary: ws) simp_all
  then show ?thesis by (simp add: natural_widths_def)
qed

lemma widen_ge: "j < length ws \<Longrightarrow> ws ! j \<le> widen ws cs ! j"
proof (induction ws cs arbitrary: j rule: widen.induct)
  case (1 w ws c cs)
  then show ?case by (cases j) (simp_all add: Let_def)
qed simp_all

lemma natural_ge_header:
  "j < length headers \<Longrightarrow> int (rune_count (headers ! j)) \<le> natural_widths headers rows ! j"
proof -
  have "j < length ws \<Longrightarrow> ws ! j \<le> foldl widen ws rows ! j" for ws
  proof (induction rows arbitrary: ws)
    case (Cons r rows)
    then have "widen ws r ! j \<le> foldl widen (widen ws r) rows ! j" by simp
    then show ?case using widen_ge [OF Cons.prems, of r] by simp
  qed simp
  then show "j < length headers \<Longrightarrow> ?thesis"
    using nth_map [of j headers "\<lambda>h. int (rune_count h)"] unfolding natural_widths_def
    by (metis length_map)
qed

lemma computeWidths_spec:
  fixes headers :: "string list"
  defines "cap \<equiv> \<lambda>maxWidth. maxWidth - (1 + 3 * int (length headers))"
  shows "length (computeWidths headers rows maxWidth) = length headers"
    and "0 < cap maxWidth \<Longrightarrow> sum_list (computeWidths headers rows maxWidth) \<le> cap maxWidth \<or>
      (\<forall>j < length headers. computeWidths headers rows maxWidth ! j \<le> minColWidth (headers ! j))"
    and "cap maxWidth \<le> sum_list (natural_widths headers rows) \<Longrightarrow>
      cap maxWidth \<le> sum_list (computeWidths headers rows maxWidth)"
    and "j < length headers \<Longrightarrow>
      min (natural_widths headers rows ! j) (minColWidth (headers ! j)) \<le> computeWidths headers rows maxWidth ! j \<and>
      computeWidths headers rows maxWidth ! j \<le> natural_widths headers rows ! j"
  using shrink_spec [of "length headers" "natural_widths headers rows" "map minColWidth headers" "cap maxWidth"]
  by (auto simp: computeWidths_def cap_def Let_def)

lemma computeWidths_pos:
  assumes "\<forall>h \<in> set headers. h \<noteq> []" and "w \<in> set (computeWidths headers rows maxWidth)"
  shows "0 < w"
proof -
  obtain j where j: "j < length headers" "w = computeWidths headers rows maxWidth ! j"
    using assms(2) computeWidths_spec(1) by (metis in_set_conv_nth)
  have "headers ! j \<noteq> []" using assms(1) j(1) by simp
  then have "0 < rune_count (headers ! j)" using rune_count_zero [of "headers ! j"] by simp
  then have "0 < natural_widths headers rows ! j" using natural_ge_header [OF j(1), of rows] by simp
  moreover have "0 < minColWidth (headers ! j)" by (simp add: minColWidth_def Let_def)
  ultimately show ?thesis using computeWidths_spec(4) [OF j(1), of rows maxWidth] j(2) by (simp add: min_def split: if_splits)
qed

subsection \<open>Wrapping\<close>

definition strip :: "string \<Rightarrow> string list" where
  "strip s = filter (\<lambda>r. \<not> space_rune r) (runes s)"

lemma rune_count_join: "rune_count ((cur @ '' '') @ word) = rune_count cur + 1 + rune_count word"
proof -
  have "\<not> continuation (hd ('' '' @ word))" by (simp add: between_def byte_def)
  then have "rune_count (cur @ ('' '' @ word)) = rune_count cur + rune_count ('' '' @ word)"
    by (intro rune_count_append) simp
  moreover have "rune_count ('' '' @ word) = 1 + rune_count word"
    by (simp add: rune_count_def runes_Cons_ascii byte_def)
  ultimately show ?thesis by simp
qed

lemma strip_join: "strip ((cur @ '' '') @ word) = strip cur @ strip word"
proof -
  have "\<not> continuation (hd ('' '' @ word))" by (simp add: between_def byte_def)
  then have "runes (cur @ ('' '' @ word)) = runes cur @ runes ('' '' @ word)" by (intro runes_append) simp
  moreover have "runes ('' '' @ word) = '' '' # runes word" by (simp add: runes_Cons_ascii byte_def)
  moreover have "space_rune '' ''" by code_simp
  ultimately show ?thesis by (simp add: strip_def)
qed

lemma pieces_width: "s \<in> set (pieces width rs) \<Longrightarrow> rune_count s \<le> width"
proof (induction width rs rule: pieces.induct)
  case (1 width rs)
  then show ?case
    by (subst (asm) (2) pieces.simps) (auto simp: rune_count_rune_string split: if_splits)
qed

lemma pieces_strip:
  "0 < width \<Longrightarrow> list_all encoded rs \<Longrightarrow> \<forall>r \<in> set rs. \<not> space_rune r \<Longrightarrow>
     concat (map strip (pieces width rs)) = rs"
proof (induction width rs rule: pieces.induct)
  case (1 width rs)
  show ?case
  proof (cases "rs = []")
    case True
    then show ?thesis by (simp add: pieces.simps)
  next
    case False
    have enc: "list_all encoded (take width rs)" "list_all encoded (drop width rs)"
      using "1.prems"(2) by (auto simp: list_all_iff dest: in_set_takeD in_set_dropD)
    then have "strip (rune_string (take width rs)) = filter (\<lambda>r. \<not> space_rune r) (take width rs)"
      by (simp add: strip_def rune_string_encoded runes_encoded)
    also have "\<dots> = take width rs" using "1.prems"(3) by (intro filter_True) (auto dest: in_set_takeD)
    finally have "strip (rune_string (take width rs)) = take width rs" .
    moreover have "concat (map strip (pieces width (drop width rs))) = drop width rs"
      using 1 False enc(2) by (auto dest: in_set_dropD)
    ultimately show ?thesis using False "1.prems"(1) by (subst pieces.simps) simp
  qed
qed

lemma wrap_words_width:
  assumes "\<forall>s \<in> set out. rune_count s \<le> width" and "rune_count cur = len" and "len \<le> width" and "0 < width"
    and "s \<in> set (wrap_words width words out cur len)"
  shows "rune_count s \<le> width"
  using assms
proof (induction width words out cur len rule: wrap_words.induct)
  case (1 width out cur len)
  then show ?case by (auto split: if_splits)
next
  case (2 width word words out cur len)
  have zero: "len = 0 \<Longrightarrow> cur = []" using "2.prems"(2) rune_count_zero [of cur] by simp
  consider (long) "rune_count word > width"
    | (break_line) "\<not> rune_count word > width" "len + (if len > 0 then rune_count word + 1 else rune_count word) > width"
    | (fits) "\<not> rune_count word > width" "\<not> len + (if len > 0 then rune_count word + 1 else rune_count word) > width"
    by linarith
  then show ?case
  proof cases
    case long
    then show ?thesis
      using "2.IH"(1) [OF refl long] "2.prems" zero pieces_width by (force simp: Let_def rune_count_def split: if_splits)
  next
    case break_line
    then show ?thesis
      using "2.IH"(2) [OF refl _ refl] "2.prems" by (force simp: Let_def)
  next
    case fits
    then show ?thesis
      using "2.IH"(3) [OF refl _ refl] "2.prems" zero rune_count_join [of cur word]
      by (auto simp: Let_def split: if_splits)
  qed
qed

text \<open>No text is lost: the runes that are not space, line by line, are those of the words.\<close>

lemma wrap_words_strip:
  assumes "rune_count cur = len" and "0 < width"
    and "\<forall>w \<in> set words. list_all encoded (runes w) \<and> (\<forall>r \<in> set (runes w). \<not> space_rune r)"
  shows "concat (map strip (wrap_words width words out cur len)) =
           concat (map strip out) @ strip cur @ concat (map strip words)"
  using assms
proof (induction width words out cur len rule: wrap_words.induct)
  case (1 width out cur len)
  then show ?case using rune_count_zero [of cur] by (auto simp: strip_def)
next
  case (2 width word words out cur len)
  have zero: "len = 0 \<Longrightarrow> cur = []" using "2.prems"(1) rune_count_zero [of cur] by simp
  have word: "strip word = runes word" using "2.prems"(3) by (simp add: strip_def)
  have nil: "strip [] = []" by (simp add: strip_def)
  consider (long) "rune_count word > width"
    | (break_line) "\<not> rune_count word > width" "len + (if len > 0 then rune_count word + 1 else rune_count word) > width"
    | (fits) "\<not> rune_count word > width" "\<not> len + (if len > 0 then rune_count word + 1 else rune_count word) > width"
    by linarith
  then show ?case
  proof cases
    case long
    have p: "concat (map strip (pieces width (runes word))) = runes word"
      using "2.prems"(2,3) by (intro pieces_strip) auto
    show ?thesis
      using "2.IH"(1) [OF refl long] "2.prems" zero long p word nil rune_count_zero [of "[]"]
      by (auto simp: Let_def)
  next
    case break_line
    then show ?thesis using "2.IH"(2) [OF refl _ refl] "2.prems" by (auto simp: Let_def)
  next
    case fits
    then show ?thesis
      using "2.IH"(3) [OF refl _ refl] "2.prems" zero nil rune_count_join [of cur word] strip_join [of cur word]
      by (auto simp: Let_def)
  qed
qed

lemma Fields_strip: "concat (map strip (Fields s)) = strip s"
  and Fields_runes: "w \<in> set (Fields s) \<Longrightarrow> set (runes w) \<subseteq> {r \<in> set (runes s). \<not> space_rune r}"
proof -
  obtain ws where ws: "Fields s = map concat ws" "concat ws = filter (\<lambda>r. \<not> space_rune r) (runes s)"
    "\<And>w. w \<in> set ws \<Longrightarrow> w \<noteq> [] \<and> runes (concat w) = w \<and> (\<forall>r \<in> set w. \<not> space_rune r)"
    by (rule Fields_words [of s]) blast
  have "map strip (Fields s) = ws" unfolding ws(1) using ws(3) by (auto simp: strip_def intro!: map_idI)
  then show "concat (map strip (Fields s)) = strip s" using ws(2) by (simp add: strip_def)
  show "w \<in> set (Fields s) \<Longrightarrow> set (runes w) \<subseteq> {r \<in> set (runes s). \<not> space_rune r}"
  proof -
    assume "w \<in> set (Fields s)"
    then obtain v where v: "v \<in> set ws" "runes w = v" using ws(1,3) by auto
    have "set v \<subseteq> set (concat ws)" using v(1) by auto
    then show ?thesis unfolding ws(2) v(2) by auto
  qed
qed

lemma wrapCell_width:
  assumes "0 < width" and "l \<in> set (wrapCell s width)"
  shows "int (rune_count l) \<le> width"
proof -
  have "rune_count x \<le> nat width" if "x \<in> set (wrap_words (nat width) (Fields s) [] [] 0)" for x
    by (rule wrap_words_width [OF _ _ _ _ that]) (use assms(1) in \<open>auto simp: rune_count_def\<close>)
  then have "int (rune_count x) \<le> width" if "x \<in> set (wrap_words (nat width) (Fields s) [] [] 0)" for x
    using that assms(1) by fastforce
  moreover have "rune_count [] = 0" by (simp add: rune_count_def)
  ultimately show ?thesis using assms by (auto simp: wrapCell_def Let_def split: if_splits)
qed

subsection \<open>Every line of a table has the same width\<close>

lemma box_runes: "\<not> continuation (CHR 0xE2)" "encoded (box (CHR 0x80))" "encoded (box (CHR 0x82))"
  "encoded (box (CHR 0x8C))" "encoded (box (CHR 0xAC))" "encoded (box (CHR 0x90))" "encoded (box (CHR 0x9C))"
  "encoded (box (CHR 0xBC))" "encoded (box (CHR 0xA4))" "encoded (box (CHR 0x94))" "encoded (box (CHR 0xB4))"
  "encoded (box (CHR 0x98))"
  by code_simp+

lemma rune_count_encoded: "list_all encoded rs \<Longrightarrow> rune_count (concat rs) = length rs"
  by (simp add: rune_count_def runes_encoded)

lemma bar_plain [simp]: "bar (newPalette False) = box (CHR 0x82)"
  by (simp add: bar_def dimWrap_def)

lemma cell_count:
  assumes "int (rune_count seg) \<le> cw"
  shows "int (rune_count (cell_text (newPalette False) [] cw seg)) = cw + 3"
proof -
  let ?pad = "replicate (nat (cw - int (rune_count seg))) (CHR '' '')"
  have "rune_count (?pad @ '' '' @ box (CHR 0x82)) = nat (cw - int (rune_count seg)) + 2"
  proof -
    have "list_all encoded (map (\<lambda>c. [c]) (?pad @ '' '') @ [box (CHR 0x82)])"
      using box_runes by (auto simp: list_all_iff encoded_def byte_def)
    from rune_count_encoded [OF this] show ?thesis by (simp add: o_def)
  qed
  moreover have "\<not> continuation (hd (?pad @ '' '' @ box (CHR 0x82)))"
    by (cases "nat (cw - int (rune_count seg))") (simp_all add: between_def byte_def)
  ultimately have "rune_count (seg @ ?pad @ '' '' @ box (CHR 0x82)) =
      rune_count seg + (nat (cw - int (rune_count seg)) + 2)"
    by (simp add: rune_count_append del: append_assoc replicate.simps)
  then show ?thesis
    using assms by (simp add: cell_text_def rune_count_def runes_Cons_ascii byte_def)
qed

lemma rune_count_concat:
  assumes "\<forall>c \<in> set cs. c \<noteq> [] \<and> \<not> continuation (hd c)"
  shows "rune_count (concat cs) = sum_list (map rune_count cs)"
    and "concat cs = [] \<or> \<not> continuation (hd (concat cs))"
  using assms
proof (induction cs)
  case (Cons c cs)
  {
    case 1
    then have "concat cs = [] \<or> \<not> continuation (hd (concat cs))" using Cons.IH(2) by simp
    then show ?case using 1 Cons.IH(1) by (simp add: rune_count_append)
  next
    case 2
    then show ?case by simp
  }
qed (simp_all add: rune_count_def)

lemma cell_head: "cell_text p color cw seg \<noteq> [] \<and> \<not> continuation (hd (cell_text p color cw seg))"
  by (simp add: cell_text_def between_def byte_def)

lemma int_sum_list: "int (sum_list xs) = sum_list (map int xs)"
  by (induction xs) simp_all

lemma row_line_count:
  assumes "length wrapped = length widths" and "\<forall>i < length widths. 0 < widths ! i"
    and "\<forall>i < length widths. \<forall>s \<in> set (wrapped ! i). int (rune_count s) \<le> widths ! i"
    and "\<forall>c \<in> set colors. c = []"
  shows "int (rune_count (row_line (newPalette False) colors widths wrapped n)) = 1 + sum_list (map (\<lambda>w. w + 3) widths)"
proof -
  let ?cell = "\<lambda>i. cell_text (newPalette False) (nth_or_empty colors i) (widths ! i) (nth_or_empty (wrapped ! i) n)"
  have color: "nth_or_empty colors i = []" for i using assms(4) by (simp add: nth_or_empty_def)
  have cell: "int (rune_count (?cell i)) = widths ! i + 3" if "i < length widths" for i
  proof -
    have "rune_count [] = 0" by (simp add: rune_count_def)
    then have "int (rune_count (nth_or_empty (wrapped ! i) n)) \<le> widths ! i"
      using assms(2,3) that by (simp add: nth_or_empty_def less_imp_le)
    then show ?thesis unfolding color by (rule cell_count)
  qed
  have "int (sum_list (map (rune_count \<circ> ?cell) [0..<length widths])) =
      sum_list (map (\<lambda>i. widths ! i + 3) [0..<length widths])"
    unfolding int_sum_list map_map o_def by (intro arg_cong [of _ _ sum_list] map_cong refl cell) simp
  also have "\<dots> = sum_list (map (\<lambda>w. w + 3) widths)"
    by (metis (no_types, lifting) map_map map_nth comp_def map_cong)
  finally have s: "int (sum_list (map (rune_count \<circ> ?cell) [0..<length widths])) = sum_list (map (\<lambda>w. w + 3) widths)" .
  have h: "\<forall>c \<in> set (map ?cell [0..<length widths]). c \<noteq> [] \<and> \<not> continuation (hd c)"
    using cell_head by simp
  have "rune_count (box (CHR 0x82)) = 1" using rune_count_encoded [of "[box (CHR 0x82)]"] box_runes by simp
  then show ?thesis
    using s rune_count_concat [OF h] by (simp add: row_line_def rune_count_append)
qed

lemma border_count:
  assumes "widths \<noteq> []" and "\<forall>w \<in> set widths. 0 < w" and "encoded l" and "encoded sep" and "encoded r"
  shows "int (rune_count (borderLine l sep r widths)) = 1 + sum_list (map (\<lambda>w. w + 3) widths)"
proof -
  have "\<exists>rs. border_cells sep widths = concat rs \<and> list_all encoded rs \<and>
      int (length rs) = sum_list (map (\<lambda>w. w + 3) widths) - 1"
    using assms(1,2,4)
  proof (induction sep widths rule: border_cells.induct)
    case (2 sep w)
    then show ?case using box_runes by (intro exI [of _ "replicate (nat (w + 2)) (box (CHR 0x80))"]) (simp add: list_all_iff)
  next
    case (3 sep w v ws)
    then obtain rs where "border_cells sep (v # ws) = concat rs" "list_all encoded rs"
      "int (length rs) = sum_list (map (\<lambda>w. w + 3) (v # ws)) - 1" by auto
    then show ?case
      using box_runes 3
      by (intro exI [of _ "replicate (nat (w + 2)) (box (CHR 0x80)) @ [sep] @ rs"]) (simp add: list_all_iff)
  qed simp
  then obtain rs where "border_cells sep widths = concat rs" "list_all encoded rs"
      "int (length rs) = sum_list (map (\<lambda>w. w + 3) widths) - 1" by auto
  then show ?thesis
    using rune_count_encoded [of "l # rs @ [r]"] assms(3,5) by (simp add: borderLine_def)
qed

lemma row_lines_count:
  assumes "widths \<noteq> []" and "\<forall>w \<in> set widths. 0 < w" and "\<forall>c \<in> set colors. c = []"
    and "l \<in> set (writeWrappedRow cells widths (newPalette False) colors)"
  shows "\<exists>x. l = line x \<and> int (rune_count x) = 1 + sum_list (map (\<lambda>w. w + 3) widths)"
proof -
  let ?wrapped = "map (\<lambda>i. wrapCell (nth_or_empty cells i) (widths ! i)) [0..<length widths]"
  obtain n where "l = line (row_line (newPalette False) colors widths ?wrapped n)"
    using assms(4) by (auto simp: writeWrappedRow_def Let_def)
  moreover have "int (rune_count (row_line (newPalette False) colors widths ?wrapped n)) =
      1 + sum_list (map (\<lambda>w. w + 3) widths)"
    using assms(2,3) by (intro row_line_count) (auto intro: wrapCell_width)
  ultimately show ?thesis by blast
qed

lemma drawTable_lines:
  assumes "headers \<noteq> []" and "\<forall>h \<in> set headers. h \<noteq> []" and "\<forall>c \<in> set colors. c = []"
    and "l \<in> set (drawTable headers rows maxWidth (newPalette False) colors)"
  shows "\<exists>x. l = line x \<and>
     int (rune_count x) = 1 + sum_list (map (\<lambda>w. w + 3) (computeWidths headers rows maxWidth))"
proof -
  let ?ws = "computeWidths headers rows maxWidth"
  have len: "length ?ws = length headers" by (rule computeWidths_spec(1))
  have ne: "?ws \<noteq> []" using len assms(1) by auto
  have pos: "\<forall>w \<in> set ?ws. 0 < w" using computeWidths_pos [OF assms(2)] by blast
  have border: "int (rune_count (borderLine (box a) (box b) (box c) ?ws)) = 1 + sum_list (map (\<lambda>w. w + 3) ?ws)"
    if "(a, b, c) \<in> {(CHR 0x8C, CHR 0xAC, CHR 0x90), (CHR 0x9C, CHR 0xBC, CHR 0xA4), (CHR 0x94, CHR 0xB4, CHR 0x98)}"
    for a b c
    using that box_runes by (intro border_count [OF ne pos]) auto
  have plain: "dimWrap (newPalette False) s = s" for s by (simp add: dimWrap_def)
  have row: "\<exists>x. l = line x \<and> int (rune_count x) = 1 + sum_list (map (\<lambda>w. w + 3) ?ws)"
    if "l \<in> set (writeWrappedRow cells ?ws (newPalette False) cs)" "\<forall>c \<in> set cs. c = []" for cells cs
    using row_lines_count [OF ne pos that(2,1)] .
  have colors: "\<forall>c \<in> set (map (\<lambda>_. pa_bold (newPalette False)) headers). c = []" by simp
  have "l \<in> {line (borderLine (box (CHR 0x8C)) (box (CHR 0xAC)) (box (CHR 0x90)) ?ws),
            line (borderLine (box (CHR 0x9C)) (box (CHR 0xBC)) (box (CHR 0xA4)) ?ws),
            line (borderLine (box (CHR 0x94)) (box (CHR 0xB4)) (box (CHR 0x98)) ?ws)} \<union>
      set (writeWrappedRow headers ?ws (newPalette False) (map (\<lambda>_. pa_bold (newPalette False)) headers)) \<union>
      (\<Union>r \<in> set rows. set (writeWrappedRow r ?ws (newPalette False) colors))"
    using assms(4) unfolding drawTable_def Let_def plain set_append set_concat set_map list.set by blast
  then show ?thesis
  proof (elim UnE UN_E)
    assume "l \<in> {line (borderLine (box (CHR 0x8C)) (box (CHR 0xAC)) (box (CHR 0x90)) ?ws),
            line (borderLine (box (CHR 0x9C)) (box (CHR 0xBC)) (box (CHR 0xA4)) ?ws),
            line (borderLine (box (CHR 0x94)) (box (CHR 0xB4)) (box (CHR 0x98)) ?ws)}"
    then show ?thesis using border by blast
  next
    assume "l \<in> set (writeWrappedRow headers ?ws (newPalette False) (map (\<lambda>_. pa_bold (newPalette False)) headers))"
    then show ?thesis by (rule row [OF _ colors])
  next
    fix r
    assume "l \<in> set (writeWrappedRow r ?ws (newPalette False) colors)"
    then show ?thesis by (rule row [OF _ assms(3)])
  qed
qed

lemma sum_plus_three: "sum_list (map (\<lambda>w. w + 3) ws) = sum_list ws + 3 * int (length ws)"
  by (induction ws) simp_all

lemma table_widths_fit:
  assumes "34 \<le> maxWidth"
  shows "sum_list (computeWidths table_headers rows maxWidth) \<le> maxWidth - 10"
proof -
  let ?r = "computeWidths table_headers rows maxWidth"
  have l3: "length table_headers = 3" by (simp add: table_headers_def)
  have len: "length ?r = 3" using computeWidths_spec(1) [of table_headers rows maxWidth] l3 by simp
  have m: "minColWidth (table_headers ! j) = 8" if "j < 3" for j
  proof -
    have "list_all (\<lambda>h. minColWidth h = 8) table_headers" by code_simp
    then show ?thesis using that l3 by (simp add: list_all_length)
  qed
  have sum3: "sum_list ?r = ?r ! 0 + ?r ! 1 + ?r ! 2"
    using len by (auto simp: numeral_3_eq_3 length_Suc_conv)
  have "sum_list ?r \<le> maxWidth - 10 \<or> (\<forall>j < 3. ?r ! j \<le> 8)"
    using computeWidths_spec(2) [of maxWidth table_headers rows] assms m l3 by auto
  then show ?thesis
  proof
    assume "\<forall>j < 3. ?r ! j \<le> 8"
    then have "?r ! 0 \<le> 8" "?r ! 1 \<le> 8" "?r ! 2 \<le> 8" by simp_all
    then show ?thesis using sum3 assms by linarith
  qed
qed

subsection \<open>Bytes that a table does not add\<close>

text \<open>
  A newline or an escape byte in a table comes from a cell: \<open>lacks b s\<close> says that \<open>s\<close> has no byte \<open>b\<close>,
  for one of these two, and the lemmas follow the drawing without colours function by function.
\<close>

definition control_byte :: "char \<Rightarrow> bool" where
  "control_byte b \<longleftrightarrow> b \<in> {CHR 0x0A, CHR 0x1B}"

definition lacks :: "char \<Rightarrow> string \<Rightarrow> bool" where
  "lacks b s \<longleftrightarrow> b \<notin> set s"

lemma lacks_simps [simp]:
  "lacks b []" "lacks b (c # s) \<longleftrightarrow> c \<noteq> b \<and> lacks b s" "lacks b (x @ y) \<longleftrightarrow> lacks b x \<and> lacks b y"
  "lacks b (concat ss) \<longleftrightarrow> (\<forall>s \<in> set ss. lacks b s)"
  by (auto simp: lacks_def)

lemma control_distinct [simp]:
  assumes "control_byte b"
  shows "CHR '' '' \<noteq> b" "CHR 0xE2 \<noteq> b" "CHR 0x94 \<noteq> b" "CHR 0x80 \<noteq> b" "CHR 0x82 \<noteq> b" "CHR 0x8C \<noteq> b"
    "CHR 0xAC \<noteq> b" "CHR 0x90 \<noteq> b" "CHR 0x9C \<noteq> b" "CHR 0xBC \<noteq> b" "CHR 0xA4 \<noteq> b" "CHR 0xB4 \<noteq> b"
    "CHR 0x98 \<noteq> b" "CHR 0xEF \<noteq> b" "CHR 0xBF \<noteq> b" "CHR 0xBD \<noteq> b"
  using assms by (auto simp: control_byte_def)

lemma lacks_spaces [simp]: "control_byte b \<Longrightarrow> lacks b (replicate n (CHR '' ''))"
  by (auto simp: lacks_def control_byte_def)

lemma lacks_rune_string: "control_byte b \<Longrightarrow> \<forall>r \<in> set rs. lacks b r \<Longrightarrow> lacks b (rune_string rs)"
  by (auto simp: rune_string_def)

lemma lacks_runes: "lacks b s \<Longrightarrow> r \<in> set (runes s) \<Longrightarrow> lacks b r"
  using concat_runes [of s] lacks_simps(4) [of b "runes s"] by simp

lemma lacks_pieces: "control_byte b \<Longrightarrow> \<forall>r \<in> set rs. lacks b r \<Longrightarrow> s \<in> set (pieces width rs) \<Longrightarrow> lacks b s"
proof (induction width rs rule: pieces.induct)
  case (1 width rs)
  then show ?case
    by (auto simp: pieces.simps [of width rs] split: if_splits intro!: lacks_rune_string
        dest: in_set_takeD in_set_dropD)
qed

lemma lacks_wrap_words:
  assumes b: "control_byte b"
  shows "\<forall>s \<in> set out. lacks b s \<Longrightarrow> lacks b cur \<Longrightarrow> \<forall>w \<in> set words. lacks b w \<Longrightarrow>
     s \<in> set (wrap_words width words out cur len) \<Longrightarrow> lacks b s"
proof (induction width words out cur len rule: wrap_words.induct)
  case (1 width out cur len)
  then show ?case by (auto split: if_splits)
next
  case (2 width word words out cur len)
  have p: "lacks b s" if "s \<in> set (pieces width (runes word))" for s
    using that "2.prems"(3) lacks_runes by (intro lacks_pieces [OF b _ that]) auto
  show ?case
  proof (cases "rune_count word > width")
    case True
    then show ?thesis
      using "2.IH"(1) [OF refl True] "2.prems" p by (auto simp: Let_def split: if_splits)
  next
    case False
    show ?thesis
    proof (cases "len + (if len > 0 then rune_count word + 1 else rune_count word) > width")
      case True
      then show ?thesis using "2.IH"(2) [OF refl False refl] "2.prems" False by (auto simp: Let_def)
    next
      case fits: False
      then show ?thesis
        using "2.IH"(3) [OF refl False refl fits] "2.prems" False b
        by (auto simp: Let_def split: if_splits)
    qed
  qed
qed

lemma lacks_wrapCell:
  assumes b: "control_byte b" and s: "lacks b s" and l: "l \<in> set (wrapCell s width)"
  shows "lacks b l"
proof -
  have "lacks b w" if "w \<in> set (Fields s)" for w
  proof -
    have "set (runes w) \<subseteq> set (runes s)" using Fields_runes [OF that] by auto
    then have "\<forall>r \<in> set (runes w). lacks b r" using lacks_runes [OF s] by auto
    then show ?thesis using concat_runes [of w] lacks_simps(4) [of b "runes w"] by simp
  qed
  then have "lacks b x" if "x \<in> set (wrap_words (nat width) (Fields s) [] [] 0)" for x
    using lacks_wrap_words [OF b _ _ _ that] by simp
  then show ?thesis using s l by (auto simp: wrapCell_def Let_def split: if_splits)
qed

lemma lacks_border:
  "control_byte b \<Longrightarrow> lacks b sep \<Longrightarrow> lacks b (border_cells sep ws)"
  by (induction sep ws rule: border_cells.induct) (auto simp: box_def)

lemma lacks_row:
  assumes b: "control_byte b" and "\<forall>c \<in> set cells. lacks b c" and "\<forall>c \<in> set colors. c = []"
    and "l \<in> set (writeWrappedRow cells ws (newPalette False) colors)"
  shows "\<exists>x. l = line x \<and> lacks b x"
proof -
  have cell: "lacks b (nth_or_empty cells i)" for i using assms(2) by (simp add: nth_or_empty_def)
  have color: "nth_or_empty colors i = []" for i using assms(3) by (simp add: nth_or_empty_def)
  have "lacks b (nth_or_empty (wrapCell s w) n)" if "lacks b s" for s w n
    unfolding nth_or_empty_def using lacks_wrapCell [OF b that nth_mem] by simp
  from this [OF cell] have "lacks b (nth_or_empty (wrapCell (nth_or_empty cells i) w) n)" for i w n .
  then show ?thesis
    using assms(4) b
    by (auto simp: writeWrappedRow_def Let_def row_line_def cell_text_def color box_def)
qed

lemma lacks_drawTable:
  assumes b: "control_byte b" and "\<forall>h \<in> set headers. lacks b h" and "\<forall>r \<in> set rows. \<forall>c \<in> set r. lacks b c"
    and "\<forall>c \<in> set colors. c = []" and "l \<in> set (drawTable headers rows maxWidth (newPalette False) colors)"
  shows "\<exists>x. l = line x \<and> lacks b x"
proof -
  have head: "\<exists>x. l = line x \<and> lacks b x"
    if "l \<in> set (writeWrappedRow headers ws (newPalette False) (map (\<lambda>_. []) headers))" for ws
    by (rule lacks_row [OF b assms(2) _ that]) simp
  have body: "\<exists>x. l = line x \<and> lacks b x"
    if "r \<in> set rows" "l \<in> set (writeWrappedRow r ws (newPalette False) colors)" for r ws
    using assms(3) that(1) by (intro lacks_row [OF b _ assms(4) that(2)]) simp
  show ?thesis
    using assms(5) head body lacks_border [OF b] b
    by (auto simp: drawTable_def Let_def dimWrap_def borderLine_def box_def)
qed

text \<open>The lines of what is written: the text cut at the newlines, without the empty rest behind the last.\<close>

definition output_lines :: "string list \<Rightarrow> string list" where
  "output_lines ws = butlast (split_on (CHR 0x0A) (concat ws))"

lemma output_lines_written:
  assumes "\<forall>x \<in> set xs. lacks (CHR 0x0A) x"
  shows "output_lines (map line xs) = xs"
proof -
  have "split_on (CHR 0x0A) (concat (map line xs)) = xs @ [[]]"
    using assms by (induction xs) (simp_all add: line_def lacks_def split_on_line)
  then show ?thesis by (simp add: output_lines_def)
qed

subsection \<open>Properties\<close>

text \<open>
  A wrapped cell fits its column and keeps its text: no line has more runes than the width,
  whatever bytes the cell has; and of a cell that is valid UTF-8 exactly the spaces at the
  line breaks can be lost, as the other runes of the lines are those of the cell, in order.
\<close>

lemma wrap_cell_fits_and_keeps:
  assumes "0 < width"
  shows "(\<forall>l \<in> set (wrapCell s width). int (rune_count l) \<le> width) \<and>
         (list_all encoded (runes s) \<longrightarrow> concat (map strip (wrapCell s width)) = strip s)"
proof (intro conjI ballI impI)
  show "int (rune_count l) \<le> width" if "l \<in> set (wrapCell s width)" for l
    using wrapCell_width [OF assms that] .
  assume enc: "list_all encoded (runes s)"
  have "\<forall>w \<in> set (Fields s). list_all encoded (runes w) \<and> (\<forall>r \<in> set (runes w). \<not> space_rune r)"
    using Fields_runes [of _ s] enc by (fastforce simp: list_all_iff)
  then have "concat (map strip (wrap_words (nat width) (Fields s) [] [] 0)) = strip [] @ strip s"
    using wrap_words_strip [of "[]" 0 "nat width" "Fields s" "[]"] assms Fields_strip [of s]
    by (simp add: rune_count_def)
  then show "concat (map strip (wrapCell s width)) = strip s"
    by (auto simp: wrapCell_def Let_def strip_def)
qed

lemma wrap_cell_fits_and_keeps_example:
  "concat (map strip (wrapCell ''pod restarted'' 5)) = strip ''podrestarted'' \<and>
   list_all (\<lambda>l. int (rune_count l) \<le> 5) (wrapCell ''pod restarted'' 5)"
proof -
  have "list_all encoded (runes ''pod restarted'')" "strip ''pod restarted'' = strip ''podrestarted''"
    by code_simp+
  then show ?thesis using wrap_cell_fits_and_keeps [of 5 "''pod restarted''"] by (simp add: list_all_iff)
qed

text \<open>
  The shrinking of \<open>computeWidths\<close>, whenever the terminal leaves any room for text: every
  column ends between its natural width and the smaller of that and its floor; the total fits
  or every column is at its floor; and no column is shrunk below what is needed.
\<close>

lemma compute_widths_fit:
  assumes "room = maxWidth - (1 + 3 * int (length headers))" and "0 < room"
    and "natural = natural_widths headers rows" and "shrunk = computeWidths headers rows maxWidth"
  shows "(\<forall>j < length headers. min (natural ! j) (minColWidth (headers ! j)) \<le> shrunk ! j \<and>
            shrunk ! j \<le> natural ! j) \<and>
         (sum_list shrunk \<le> room \<or> (\<forall>j < length headers. shrunk ! j \<le> minColWidth (headers ! j))) \<and>
         (sum_list natural \<le> room \<longrightarrow> shrunk = natural) \<and>
         (room \<le> sum_list natural \<longrightarrow> room \<le> sum_list shrunk)"
proof (intro conjI)
  show "sum_list natural \<le> room \<longrightarrow> shrunk = natural"
    using assms by (simp add: computeWidths_def Let_def)
  show "\<forall>j < length headers. min (natural ! j) (minColWidth (headers ! j)) \<le> shrunk ! j \<and>
      shrunk ! j \<le> natural ! j"
    using computeWidths_spec(4) [of _ headers rows maxWidth] assms(3,4) by simp
  show "sum_list shrunk \<le> room \<or> (\<forall>j < length headers. shrunk ! j \<le> minColWidth (headers ! j))"
    using computeWidths_spec(2) [of maxWidth headers rows] assms by simp
  show "room \<le> sum_list natural \<longrightarrow> room \<le> sum_list shrunk"
    using computeWidths_spec(3) [of maxWidth headers rows] assms by simp
qed

lemma compute_widths_fit_example:
  "sum_list (computeWidths table_headers [[''c'', ''r'', replicate 200 (CHR ''m'')]] 80) = 70"
proof -
  let ?n = "natural_widths table_headers [[''c'', ''r'', replicate 200 (CHR ''m'')]]"
  have n: "?n = [5, 8, 200]"
    by (simp add: natural_widths_def table_headers_def Let_def rune_count_ascii byte_def)
  have "sum_list (computeWidths table_headers [[''c'', ''r'', replicate 200 (CHR ''m'')]] 80) \<ge> 70"
    using compute_widths_fit [of 70 80 table_headers ?n "[[''c'', ''r'', replicate 200 (CHR ''m'')]]"] n
    by (simp add: table_headers_def)
  then show ?thesis using table_widths_fit [of 80 "[[''c'', ''r'', replicate 200 (CHR ''m'')]]"] by simp
qed

text \<open>
  C36. Without colours a table is a rectangle that fits the terminal: for any rows of which no cell has
  a newline, and any width from 34 on, all lines of the output of the drawn table have the same number
  of runes, at most the width.
\<close>

theorem table_is_rectangle:
  assumes "34 \<le> maxWidth" and "\<forall>r \<in> set rows. \<forall>c \<in> set r. CHR 0x0A \<notin> set c"
  shows "\<exists>W \<le> maxWidth. \<forall>l \<in> set (output_lines (drawTable table_headers rows maxWidth (newPalette False) [[], [], []])).
     int (rune_count l) = W"
proof -
  let ?ws = "computeWidths table_headers rows maxWidth"
  let ?out = "drawTable table_headers rows maxWidth (newPalette False) [[], [], []]"
  let ?W = "1 + sum_list (map (\<lambda>w. w + 3) ?ws)"
  have "length ?ws = 3" using computeWidths_spec(1) [of table_headers rows maxWidth] by (simp add: table_headers_def)
  then have W: "?W \<le> maxWidth" using table_widths_fit [OF assms(1), of rows] by (simp add: sum_plus_three)
  have headers: "table_headers \<noteq> []" "\<forall>h \<in> set table_headers. h \<noteq> []" "\<forall>h \<in> set table_headers. lacks (CHR 0x0A) h"
    by (simp_all add: table_headers_def)
  have "\<exists>x. l = line x \<and> lacks (CHR 0x0A) x \<and> int (rune_count x) = ?W" if l: "l \<in> set ?out" for l
    using drawTable_lines [OF headers(1,2) _ l] lacks_drawTable [OF _ headers(3) _ _ l] assms(2)
    by (auto simp: control_byte_def lacks_def line_def)
  then obtain f where f: "\<forall>l \<in> set ?out. l = line (f l) \<and> lacks (CHR 0x0A) (f l) \<and> int (rune_count (f l)) = ?W"
    by metis
  then have "map line (map f ?out) = ?out" by (simp add: map_idI)
  moreover have "output_lines (map line (map f ?out)) = map f ?out" using f by (intro output_lines_written) auto
  ultimately show ?thesis using f W by (intro exI [of _ ?W]) simp
qed

theorem table_is_rectangle_witness:
  "\<exists>W \<le> 40. \<forall>l \<in> set (output_lines (drawTable table_headers
       [[''nodes.ready'', ''node/a'', ''Ready=False (KubeletNotReady)'']] 40 (newPalette False) [[], [], []])).
     int (rune_count l) = W"
  by (rule table_is_rectangle) simp_all

text \<open>
  With a newline it is none: \<open>wrapCell\<close> returns a cell that fits as it is, and the row breaks into a
  line that is too short and one that has only the end of the row.
\<close>

lemma newline_breaks_row:
  "output_lines (writeWrappedRow [''a'' @ [CHR 0x0A] @ ''b''] [3] (newPalette False) [[]]) =
     [box (CHR 0x82) @ '' a'', ''b '' @ box (CHR 0x82)]"
proof -
  have "rune_count (''a'' @ [CHR 0x0A] @ ''b'') = 3" by (simp add: rune_count_ascii byte_def)
  then show ?thesis
    by (simp add: writeWrappedRow_def nth_or_empty_def wrapCell_def row_height_def row_line_def cell_text_def
        output_lines_def line_def box_def)
qed

end
