(* ===== verification/GoFloat.thy ===== *)
theory GoFloat
  imports GoLib
begin

section \<open>The float64 arithmetic of the percentages\<close>

text \<open>
  A finite \<open>float64\<close> is the rational it denotes, and every operation is the exact one followed
  by \<open>rnd\<close>: round to nearest, ties to even, at 53 significant bits. The program divides and
  multiplies 64-bit integers and small constants only, so no result overflows or is
  subnormal. The last lemmas show when a threshold test on such a percentage agrees with the
  exact integer comparison.
\<close>

subsection \<open>Rounding\<close>

definition round_even :: "rat \<Rightarrow> int" where
  "round_even x =
     (let f = \<lfloor>x\<rfloor>; r = x - of_int f in
      if r < 1 / 2 then f else if r > 1 / 2 then f + 1 else if even f then f else f + 1)"

definition pow2 :: "int \<Rightarrow> rat" where
  "pow2 k = (if k \<ge> 0 then 2 ^ nat k else 1 / 2 ^ nat (- k))"

fun bit_count :: "int \<Rightarrow> int" where
  "bit_count n = (if n \<le> 0 then 0 else 1 + bit_count (n div 2))"

declare bit_count.simps [simp del]

text \<open>The exponent of the binade of a positive rational.\<close>

definition binade :: "rat \<Rightarrow> int" where
  "binade x =
     (let (n, d) = quotient_of x; k = bit_count n - bit_count d in if pow2 k \<le> x then k else k - 1)"

definition rnd_pos :: "rat \<Rightarrow> rat" where
  "rnd_pos x = (let s = 52 - binade x in of_int (round_even (x * pow2 s)) / pow2 s)"

definition rnd :: "rat \<Rightarrow> rat" where
  "rnd x = (if x = 0 then 0 else if x < 0 then - rnd_pos (- x) else rnd_pos x)"

definition float_of_int :: "int \<Rightarrow> rat" where
  "float_of_int i = rnd (of_int i)"

definition float_div :: "rat \<Rightarrow> rat \<Rightarrow> rat" where
  "float_div x y = rnd (x / y)"

definition float_mul :: "rat \<Rightarrow> rat \<Rightarrow> rat" where
  "float_mul x y = rnd (x * y)"

definition float_add :: "rat \<Rightarrow> rat \<Rightarrow> rat" where
  "float_add x y = rnd (x + y)"

text \<open>\<open>float64(a) / float64(b) * 100\<close>\<close>

definition percent :: "int \<Rightarrow> int \<Rightarrow> rat" where
  "percent a b = float_mul (float_div (float_of_int a) (float_of_int b)) 100"

text \<open>\<open>Duration.Seconds\<close> and \<open>Duration.Hours\<close>; Go's integer division truncates.\<close>

definition quot_trunc :: "int \<Rightarrow> int \<Rightarrow> int" where
  "quot_trunc a b = (if a \<ge> 0 then a div b else - ((- a) div b))"

definition duration_in :: "duration \<Rightarrow> duration \<Rightarrow> rat" where
  "duration_in unit d =
     (let whole = quot_trunc d unit
      in float_add (float_of_int whole) (float_div (float_of_int (d - whole * unit)) (of_int unit)))"

text \<open>\<open>%.1f\<close> and \<open>%.0f\<close>: correctly rounded decimals of the value.\<close>

definition fmt_f0 :: "rat \<Rightarrow> string" where
  "fmt_f0 x = (if x < 0 then ''-'' @ itoa (round_even (- x)) else itoa (round_even x))"

definition fmt_f1 :: "rat \<Rightarrow> string" where
  "fmt_f1 x =
     (let t = round_even (\<bar>x\<bar> * 10); body = itoa (t div 10) @ ''.'' @ itoa (t mod 10)
      in if x < 0 then ''-'' @ body else body)"

subsection \<open>Facts about rounding\<close>

lemma round_even_err: "\<bar>of_int (round_even x) - x\<bar> \<le> 1 / 2"
  unfolding round_even_def Let_def by (auto simp: abs_if) (linarith | simp)+

lemma round_even_mono: "x \<le> y \<Longrightarrow> round_even x \<le> round_even y"
proof -
  assume "x \<le> y"
  then have f: "\<lfloor>x\<rfloor> \<le> \<lfloor>y\<rfloor>" by (rule floor_mono)
  show ?thesis
  proof (cases "\<lfloor>x\<rfloor> = \<lfloor>y\<rfloor>")
    case True
    then show ?thesis using \<open>x \<le> y\<close> by (auto simp: round_even_def Let_def)
  next
    case False
    then have "\<lfloor>x\<rfloor> + 1 \<le> \<lfloor>y\<rfloor>" using f by simp
    moreover have "round_even x \<le> \<lfloor>x\<rfloor> + 1" "\<lfloor>y\<rfloor> \<le> round_even y"
      by (auto simp: round_even_def Let_def)
    ultimately show ?thesis by linarith
  qed
qed

lemma round_even_of_int [simp]: "round_even (of_int n) = n"
  by (simp add: round_even_def)

lemma pow2_pos [simp]: "0 < pow2 k"
  by (simp add: pow2_def)

lemma pow2_nonzero [simp]: "pow2 k \<noteq> 0"
  using pow2_pos [of k] by linarith

lemma pow2_succ: "pow2 (k + 1) = 2 * pow2 k"
proof (cases "k \<ge> 0")
  case True
  then show ?thesis by (simp add: pow2_def nat_add_distrib)
next
  case False
  then have "nat (- k) = Suc (nat (- (k + 1)))" by simp
  then show ?thesis using False by (simp add: pow2_def)
qed

lemma pow2_mono: "j \<le> k \<Longrightarrow> pow2 j \<le> pow2 k"
proof (induction k rule: int_ge_induct)
  case (step k)
  then show ?case using pow2_succ [of k] pow2_pos [of k] by linarith
qed simp

lemma pow2_add: "pow2 (j + k) = pow2 j * pow2 k"
proof (induction k rule: int_induct [of _ 0])
  case base
  show ?case by (simp add: pow2_def)
next
  case (step1 i)
  then show ?case using pow2_succ [of "j + i"] pow2_succ [of i] by (simp add: add.assoc)
next
  case (step2 i)
  then show ?case using pow2_succ [of "j + (i - 1)"] pow2_succ [of "i - 1"] by (simp add: add.assoc)
qed

lemma bit_count_nonneg: "0 \<le> bit_count n"
proof (induction n rule: bit_count.induct)
  case (1 n)
  then show ?case by (simp add: bit_count.simps [of n])
qed

lemma bit_count_bounds: "n > 0 \<Longrightarrow> pow2 (bit_count n - 1) \<le> of_int n \<and> of_int n < pow2 (bit_count n)"
proof (induction n rule: bit_count.induct)
  case (1 n)
  show ?case
  proof (cases "n = 1")
    case True
    then show ?thesis by (simp add: bit_count.simps pow2_def)
  next
    case False
    then have pos: "n div 2 > 0" using "1.prems" by simp
    then have ih: "pow2 (bit_count (n div 2) - 1) \<le> of_int (n div 2)"
        "of_int (n div 2) < pow2 (bit_count (n div 2))"
      using 1 by simp_all
    have b: "bit_count n = bit_count (n div 2) + 1" using "1.prems" by (simp add: bit_count.simps [of n])
    have "pow2 (bit_count (n div 2)) = of_int (2 ^ nat (bit_count (n div 2)))"
      by (simp add: pow2_def bit_count_nonneg)
    then have "n div 2 < 2 ^ nat (bit_count (n div 2))" using ih(2) by (simp only: of_int_less_iff)
    then have "n div 2 + 1 \<le> 2 ^ nat (bit_count (n div 2))" by simp
    moreover have "n < 2 * (n div 2 + 1)" by simp
    ultimately have "(of_int n :: rat) < 2 * pow2 (bit_count (n div 2))"
      unfolding \<open>pow2 (bit_count (n div 2)) = of_int (2 ^ nat (bit_count (n div 2)))\<close>
      by (metis dual_order.strict_trans1 mult_left_mono of_int_less_iff of_int_mult of_int_numeral zero_le_numeral)
    moreover have "2 * (n div 2) \<le> n" by simp
    then have "2 * of_int (n div 2) \<le> (of_int n :: rat)"
      by (metis of_int_le_iff of_int_mult of_int_numeral)
    ultimately show ?thesis
      using ih pow2_succ [of "bit_count (n div 2)"] pow2_succ [of "bit_count (n div 2) - 1"] b by simp
  qed
qed

lemma binade_bounds:
  assumes "x > 0"
  shows "pow2 (binade x) \<le> x" and "x < 2 * pow2 (binade x)"
proof -
  obtain n d where q: "quotient_of x = (n, d)" by (cases "quotient_of x")
  then have d: "d > 0" and x: "x = of_int n / of_int d"
    by (simp_all add: quotient_of_denom_pos quotient_of_div)
  then have n: "n > 0" using assms by (simp add: zero_less_divide_iff)
  let ?k = "bit_count n - bit_count d"
  note bn = bit_count_bounds [OF n] and bd = bit_count_bounds [OF d]
  have d0: "(0::rat) < of_int d" using d by simp
  have "x * of_int d = of_int n" using d0 x by simp
  have "x * pow2 (bit_count d) \<ge> x * of_int d" using bd assms by (intro mult_left_mono) auto
  then have lo: "x * pow2 (bit_count d) \<ge> pow2 (bit_count n - 1)"
    using bn \<open>x * of_int d = of_int n\<close> by linarith
  have "x * pow2 (bit_count d - 1) \<le> x * of_int d" using bd assms by (intro mult_left_mono) auto
  then have hi: "x * pow2 (bit_count d - 1) < pow2 (bit_count n)"
    using bn \<open>x * of_int d = of_int n\<close> by linarith
  have "pow2 (bit_count n - 1) = pow2 (?k - 1) * pow2 (bit_count d)"
    using pow2_add [of "?k - 1" "bit_count d"] by simp
  then have lo': "pow2 (?k - 1) \<le> x" using lo by (simp add: mult.commute)
  have "pow2 (bit_count n) = pow2 (?k + 1) * pow2 (bit_count d - 1)"
    using pow2_add [of "?k + 1" "bit_count d - 1"] by simp
  then have hi': "x < pow2 (?k + 1)" using hi by (simp add: mult.commute)
  show "pow2 (binade x) \<le> x" using lo' q by (simp add: binade_def Let_def)
  show "x < 2 * pow2 (binade x)"
    using hi' q pow2_succ [of ?k] pow2_succ [of "?k - 1"] by (simp add: binade_def Let_def)
qed

lemma binade_mono:
  assumes "0 < x" and "x \<le> y"
  shows "binade x \<le> binade y"
proof (rule ccontr)
  assume "\<not> ?thesis"
  then have "2 * pow2 (binade y) \<le> pow2 (binade x)"
    using pow2_mono [of "binade y + 1" "binade x"] pow2_succ [of "binade y"] by simp
  then show False using binade_bounds [of x] binade_bounds [of y] assms by linarith
qed

lemma pow2_cancel: "pow2 k * pow2 (52 - k) = pow2 52"
  using pow2_add [of k "52 - k"] by simp

lemma rnd_pos_bounds:
  assumes "x > 0"
  shows "pow2 (binade x) \<le> rnd_pos x" and "rnd_pos x \<le> 2 * pow2 (binade x)"
proof -
  let ?s = "52 - binade x"
  have "pow2 (binade x) * pow2 ?s \<le> x * pow2 ?s" "x * pow2 ?s \<le> 2 * pow2 (binade x) * pow2 ?s"
    using binade_bounds [OF assms] by (auto intro: mult_right_mono less_imp_le)
  then have "of_int (2 ^ 52) \<le> x * pow2 ?s" "x * pow2 ?s \<le> of_int (2 ^ 53)"
    using pow2_cancel [of "binade x"] by (simp_all add: pow2_def [of 52] mult.assoc)
  then have "2 ^ 52 \<le> round_even (x * pow2 ?s)" "round_even (x * pow2 ?s) \<le> 2 ^ 53"
    using round_even_mono round_even_of_int by metis+
  then have "of_int (2 ^ 52) \<le> (of_int (round_even (x * pow2 ?s)) :: rat)"
      "(of_int (round_even (x * pow2 ?s)) :: rat) \<le> of_int (2 ^ 53)"
    by (simp_all only: of_int_le_iff)
  then have "pow2 (binade x) * pow2 ?s \<le> of_int (round_even (x * pow2 ?s))"
      "of_int (round_even (x * pow2 ?s)) \<le> 2 * pow2 (binade x) * pow2 ?s"
    using pow2_cancel [of "binade x"] by (simp_all add: pow2_def [of 52] mult.assoc)
  then show "pow2 (binade x) \<le> rnd_pos x" "rnd_pos x \<le> 2 * pow2 (binade x)"
    by (simp_all add: rnd_pos_def Let_def pos_le_divide_eq pos_divide_le_eq)
qed

lemma rnd_pos_mono:
  assumes "0 < x" and "x \<le> y"
  shows "rnd_pos x \<le> rnd_pos y"
proof (cases "binade x = binade y")
  case True
  have "x * pow2 (52 - binade y) \<le> y * pow2 (52 - binade y)"
    using assms by (intro mult_right_mono) (auto simp: less_imp_le)
  then have "round_even (x * pow2 (52 - binade y)) \<le> round_even (y * pow2 (52 - binade y))"
    by (rule round_even_mono)
  then show ?thesis using True by (simp add: rnd_pos_def Let_def divide_right_mono less_imp_le)
next
  case False
  then have "2 * pow2 (binade x) \<le> pow2 (binade y)"
    using binade_mono [OF assms] pow2_mono [of "binade x + 1" "binade y"] pow2_succ [of "binade x"]
    by simp
  then show ?thesis using rnd_pos_bounds [of x] rnd_pos_bounds [of y] assms by linarith
qed

lemma rnd_pos_upper:
  assumes "x > 0"
  shows "rnd_pos x \<le> x * (1 + 1 / 2 ^ 53)"
proof -
  let ?s = "52 - binade x"
  have "of_int (round_even (x * pow2 ?s)) \<le> x * pow2 ?s + 1 / 2"
    using round_even_err [of "x * pow2 ?s"] by linarith
  moreover have "1 / 2 \<le> x * pow2 ?s / 2 ^ 53"
  proof -
    have "pow2 (binade x) * pow2 ?s \<le> x * pow2 ?s"
      using binade_bounds(1) [OF assms] by (intro mult_right_mono) (auto simp: less_imp_le)
    then show ?thesis using pow2_cancel [of "binade x"] by (simp add: pow2_def [of 52])
  qed
  ultimately have "of_int (round_even (x * pow2 ?s)) \<le> x * pow2 ?s * (1 + 1 / 2 ^ 53)"
    by (simp add: algebra_simps)
  then show ?thesis by (simp add: rnd_pos_def Let_def pos_divide_le_eq algebra_simps)
qed

lemma rnd_pos_int:
  assumes "0 < n" and "n \<le> 2 ^ 53"
  shows "rnd_pos (of_int n) = of_int n"
proof (cases "n = 2 ^ 53")
  case True
  show ?thesis unfolding True by code_simp
next
  case False
  then have "n < 2 ^ 53" using assms by simp
  then have "(of_int n :: rat) < of_int (2 ^ 53)" by (simp only: of_int_less_iff)
  then have "pow2 (binade (of_int n)) < pow2 53"
    using binade_bounds(1) [of "of_int n"] assms(1) by (simp add: pow2_def [of 53])
  then have "binade (of_int n) \<le> 52" using pow2_mono [of 53 "binade (of_int n)"] by fastforce
  then have "pow2 (52 - binade (of_int n)) = of_int (2 ^ nat (52 - binade (of_int n)))"
    by (simp add: pow2_def)
  then have "of_int n * pow2 (52 - binade (of_int n)) = of_int (n * 2 ^ nat (52 - binade (of_int n)))"
    by simp
  then have "of_int (round_even (of_int n * pow2 (52 - binade (of_int n)))) =
      of_int n * pow2 (52 - binade (of_int n))"
    by (simp only: round_even_of_int)
  then show ?thesis by (simp add: rnd_pos_def Let_def)
qed

lemma rnd_eq_pos: "0 < x \<Longrightarrow> rnd x = rnd_pos x"
  by (simp add: rnd_def)

lemma float_of_int_exact: "0 \<le> n \<Longrightarrow> n \<le> 2 ^ 53 \<Longrightarrow> float_of_int n = of_int n"
  by (cases "n = 0") (simp_all add: float_of_int_def rnd_def rnd_pos_int)

subsection \<open>Threshold tests on percentages\<close>

lemma percent_lower:
  assumes "0 < a" and "a \<le> 2 ^ 53" and "0 < b" and "b \<le> 2 ^ 53" and "T * b \<le> 100 * a" and "0 < T"
  shows "rnd_pos (rnd_pos (of_int T / 100) * 100) \<le> percent a b"
proof -
  have pos: "(0::rat) < of_int T / 100" "(0::rat) < of_int a / of_int b" using assms by simp_all
  have "(of_int (T * b) :: rat) \<le> of_int (100 * a)" using assms(5) by (simp only: of_int_le_iff)
  then have le: "(of_int T / 100 :: rat) \<le> of_int a / of_int b"
    using assms(3) by (simp add: field_simps)
  have p: "percent a b = rnd (rnd (of_int a / of_int b) * 100)"
    using assms by (simp add: percent_def float_mul_def float_div_def float_of_int_exact)
  have "0 < rnd_pos (of_int T / 100)"
    using rnd_pos_bounds(1) [OF pos(1)] pow2_pos [of "binade (of_int T / 100)"] by linarith
  moreover have "rnd_pos (of_int T / 100) \<le> rnd_pos (of_int a / of_int b)"
    by (rule rnd_pos_mono [OF pos(1) le])
  ultimately show ?thesis using pos(2) unfolding p by (simp add: rnd_eq_pos rnd_pos_mono)
qed

lemma percent_upper:
  assumes "0 < a" and "a \<le> 2 ^ 53" and "0 < b" and "b \<le> 2 ^ 44" and "100 * a < T * b"
    and "0 < T" and "T \<le> 100"
  shows "percent a b < of_int T"
proof -
  let ?u = "1 + 1 / 2 ^ 53 :: rat"
  define x where "x = (of_int a / of_int b :: rat)"
  have pos: "0 < x" using assms by (simp add: x_def)
  have "b \<le> 2 ^ 53" using assms(4) by simp
  then have p: "percent a b = rnd (rnd x * 100)"
    using assms by (simp add: percent_def float_mul_def float_div_def float_of_int_exact x_def)
  have "(of_int (100 * a + 1) :: rat) \<le> of_int (T * b)" using assms(5) by (simp only: of_int_le_iff)
  then have gap: "100 * x + 1 / of_int b \<le> of_int T"
    using assms(3) by (simp add: x_def field_simps)
  have "(of_int b :: rat) \<le> of_int (2 ^ 44)" using assms(4) by (simp only: of_int_le_iff)
  then have "1 / 2 ^ 44 \<le> (1 / of_int b :: rat)" using assms(3) by (intro divide_left_mono) auto
  then have gap': "100 * x \<le> of_int T - 1 / 2 ^ 44" using gap by simp
  have y: "rnd_pos x \<le> x * ?u" by (rule rnd_pos_upper [OF pos])
  have y0: "0 < rnd_pos x" using rnd_pos_bounds(1) [OF pos] pow2_pos [of "binade x"] by linarith
  have "rnd_pos (rnd_pos x * 100) \<le> rnd_pos x * 100 * ?u" using y0 by (intro rnd_pos_upper) simp
  also have "\<dots> \<le> x * ?u * 100 * ?u" using y by (intro mult_right_mono) simp_all
  also have "\<dots> = 100 * x * (?u * ?u)" by simp
  also have "\<dots> \<le> (of_int T - 1 / 2 ^ 44) * (?u * ?u)" using gap' by (intro mult_right_mono) simp_all
  also have "\<dots> < of_int T"
  proof -
    have "(of_int T :: rat) \<le> of_int 100" using assms(7) by (simp only: of_int_le_iff)
    then have "of_int T * (?u * ?u - 1) \<le> 100 * (?u * ?u - 1)" by (intro mult_right_mono) simp_all
    also have "\<dots> < 1 / 2 ^ 44 * (?u * ?u)" by simp
    finally show ?thesis by (simp add: algebra_simps)
  qed
  finally show ?thesis unfolding p using pos y0 by (simp add: rnd_eq_pos)
qed

text \<open>
  The four thresholds of the program: the floating-point test is the exact integer test for
  capacities up to \<open>2^44\<close> (16 TiB, or 17 billion cores in millicores).
\<close>

lemma threshold_value:
  assumes "T \<in> {25, 50, 75, 90}"
  shows "rnd_pos (rnd_pos (of_int T / 100) * 100) = of_int T"
proof -
  have "rnd_pos (rnd_pos (of_int 25 / 100) * 100) = of_int 25"
      "rnd_pos (rnd_pos (of_int 50 / 100) * 100) = of_int 50"
      "rnd_pos (rnd_pos (of_int 75 / 100) * 100) = of_int 75"
      "rnd_pos (rnd_pos (of_int 90 / 100) * 100) = of_int 90"
    by code_simp+
  then show ?thesis using assms by auto
qed

lemma percent_threshold:
  assumes "0 \<le> a" and "a \<le> 2 ^ 53" and "0 < b" and "b \<le> 2 ^ 44" and "T \<in> {25, 50, 75, 90}"
  shows "of_int T \<le> percent a b \<longleftrightarrow> T * b \<le> 100 * a"
proof (cases "a = 0")
  case True
  then have "percent a b = 0"
    by (simp add: percent_def float_mul_def float_div_def float_of_int_def rnd_def)
  then show ?thesis using True assms by (auto simp: mult_le_0_iff)
next
  case False
  then have "0 < a" using assms(1) by simp
  moreover have "0 < T" "T \<le> 100" "b \<le> 2 ^ 53" using assms(4,5) by auto
  ultimately have range: "0 < a" "0 < T" "T \<le> 100" "b \<le> 2 ^ 53" by blast+
  show ?thesis
  proof (cases "T * b \<le> 100 * a")
    case True
    then show ?thesis using percent_lower [of a b T] threshold_value [OF assms(5)] range assms(2,3) by simp
  next
    case False
    then show ?thesis using percent_upper [of a b T] range assms(2-4) by simp
  qed
qed

end
