(* ===== verification/GoDuration.thy ===== *)
theory GoDuration
  imports GoFloat
begin

section \<open>Reading durations\<close>

text \<open>
  \<open>time.ParseDuration\<close>, which reads the \<open>--timeout\<close> flag: a sign, then numbers with a unit each. The
  integers are \<open>uint64\<close> with the overflow tests of the library; a fraction goes through \<open>float64\<close>.
\<close>

text \<open>\<open>leadingInt\<close>: the value and the rest, or \<open>None\<close> on overflow.\<close>

fun leadingInt :: "int \<Rightarrow> string \<Rightarrow> (int \<times> string) option" where
  "leadingInt x [] = Some (x, [])"
| "leadingInt x (c # s) =
     (if \<not> is_digit c then Some (x, c # s)
      else if x > 2 ^ 63 div 10 then None
      else let y = x * 10 + (of_char c - 48) in
        if y > 2 ^ 63 then None else leadingInt y s)"

text \<open>\<open>leadingFraction\<close>: digits that do not fit are skipped; \<open>scale\<close> is a \<open>float64\<close>.\<close>

fun leadingFraction :: "int \<Rightarrow> rat \<Rightarrow> bool \<Rightarrow> string \<Rightarrow> int \<times> rat \<times> string" where
  "leadingFraction x scale overflow [] = (x, scale, [])"
| "leadingFraction x scale overflow (c # s) =
     (if \<not> is_digit c then (x, scale, c # s)
      else if overflow then leadingFraction x scale True s
      else if x > (2 ^ 63 - 1) div 10 then leadingFraction x scale True s
      else let y = x * 10 + (of_char c - 48) in
        if y > 2 ^ 63 then leadingFraction x scale True s
        else leadingFraction y (float_mul scale 10) False s)"

text \<open>\<open>unitMap\<close>: both micro signs (U+00B5 and U+03BC) are units.\<close>

definition unit_map :: "string \<Rightarrow> int option" where
  "unit_map = map_of
     [(''ns'', 1), (''us'', 1000), ([CHR 0xC2, CHR 0xB5, CHR ''s''], 1000), ([CHR 0xCE, CHR 0xBC, CHR ''s''], 1000),
      (''ms'', 1000000), (''s'', 1000000000), (''m'', 60000000000), (''h'', 3600000000000)]"

text \<open>\<open>time.quote\<close>: bytes below a space and beyond ASCII are written as \<open>\x\<close> and two digits.\<close>

definition quote_time :: "string \<Rightarrow> string" where
  "quote_time s =
     CHR 0x22 #
     concat (map (\<lambda>c. let n = (of_char c :: nat) in
        if n \<ge> 128 \<or> n < 32 then [CHR 0x5C, CHR ''x'', hex_digit (n div 16), hex_digit (n mod 16)]
        else if c = CHR 0x22 \<or> c = CHR 0x5C then [CHR 0x5C, c] else [c]) s)
     @ [CHR 0x22]"

definition invalid_duration :: "string \<Rightarrow> string" where
  "invalid_duration orig = ''time: invalid duration '' @ quote_time orig"

text \<open>One number with its unit: its value in nanoseconds, and the rest.\<close>

definition point_or_digit :: "char \<Rightarrow> bool" where
  "point_or_digit c \<longleftrightarrow> c = CHR ''.'' \<or> is_digit c"

definition duration_part :: "string \<Rightarrow> string \<Rightarrow> string + int \<times> string" where
  "duration_part orig s =
     (if s = [] \<or> \<not> point_or_digit (hd s) then Inl (invalid_duration orig)
      else case leadingInt 0 s of
        None \<Rightarrow> Inl (invalid_duration orig)
      | Some (v, s1) \<Rightarrow>
          let pre = length s1 \<noteq> length s;
              (f, scale, s2, post) =
                (if s1 \<noteq> [] \<and> hd s1 = CHR ''.'' then
                   let (f, scale, r) = leadingFraction 0 1 False (tl s1) in (f, scale, r, length r \<noteq> length (tl s1))
                 else (0, 1, s1, False));
              u = takeWhile (\<lambda>c. \<not> point_or_digit c) s2;
              rest = dropWhile (\<lambda>c. \<not> point_or_digit c) s2
          in if \<not> pre \<and> \<not> post then Inl (invalid_duration orig)
             else if u = [] then Inl (''time: missing unit in duration '' @ quote_time orig)
             else case unit_map u of
               None \<Rightarrow> Inl (''time: unknown unit '' @ quote_time u @ '' in duration '' @ quote_time orig)
             | Some k \<Rightarrow>
                 if v > 2 ^ 63 div k then Inl (invalid_duration orig)
                 else let n = (if f > 0 then v * k + \<lfloor>float_mul (float_of_int f) (float_div (of_int k) scale)\<rfloor> else v * k)
                   in if n > 2 ^ 63 then Inl (invalid_duration orig) else Inr (n, rest))"

lemma leadingInt_spec:
  "leadingInt x s = Some (v, r) \<Longrightarrow> 0 \<le> x \<Longrightarrow> x \<le> 2 ^ 63 \<Longrightarrow> length r \<le> length s \<and> 0 \<le> v \<and> v \<le> 2 ^ 63"
proof (induction x s rule: leadingInt.induct)
  case (2 x c s)
  then show ?case
    by (auto simp: Let_def is_digit_def split: if_splits)
qed simp

lemma leadingFraction_length: "length (snd (snd (leadingFraction x k b s))) \<le> length s"
  by (induction s arbitrary: x k b) (simp_all add: Let_def le_SucI)

lemma duration_part_shorter:
  assumes "duration_part orig s = Inr (n, r)"
  shows "length r < length s"
proof -
  obtain v s1 where v: "leadingInt 0 s = Some (v, s1)" and s: "s \<noteq> []"
    using assms by (auto simp: duration_part_def split: if_splits option.splits)
  define s2 where "s2 = (if s1 \<noteq> [] \<and> hd s1 = CHR ''.'' then snd (snd (leadingFraction 0 1 False (tl s1))) else s1)"
  have "takeWhile (\<lambda>c. \<not> point_or_digit c) s2 \<noteq> []" "r = dropWhile (\<lambda>c. \<not> point_or_digit c) s2"
    using assms v by (auto simp: duration_part_def s2_def Let_def split: if_splits option.splits prod.splits)
  moreover have "length s2 \<le> length s"
    using leadingInt_spec [OF v] leadingFraction_length [of 0 1 False "tl s1"] by (auto simp: s2_def)
  moreover have "length (takeWhile P s2) + length (dropWhile P s2) = length s2" for P
    by (metis length_append takeWhile_dropWhile_id)
  ultimately show ?thesis by (metis add_less_cancel_right length_greater_0_conv less_add_same_cancel2 order_less_le_trans)
qed

text \<open>The sum is a \<open>uint64\<close>: two parts of \<open>2 ^ 63\<close> each wrap to nothing before they are tested.\<close>

function duration_sum :: "string \<Rightarrow> int \<Rightarrow> string \<Rightarrow> string + int" where
  "duration_sum orig d s =
     (if s = [] then Inr d
      else case duration_part orig s of
        Inl e \<Rightarrow> Inl e
      | Inr (n, r) \<Rightarrow>
          let d' = (d + n) mod 2 ^ 64 in
          if d' > 2 ^ 63 then Inl (invalid_duration orig) else duration_sum orig d' r)"
  by pat_completeness auto
termination
  by (relation "measure (\<lambda>(orig, d, s). length s)") (auto dest: duration_part_shorter)

declare duration_sum.simps [simp del]

definition ParseDuration :: "string \<Rightarrow> string + duration" where
  "ParseDuration orig =
     (let signed = orig \<noteq> [] \<and> (hd orig = CHR ''-'' \<or> hd orig = CHR ''+'');
          neg = signed \<and> hd orig = CHR ''-'';
          s = (if signed then tl orig else orig)
      in if s = ''0'' then Inr 0
         else if s = [] then Inl (invalid_duration orig)
         else case duration_sum orig 0 s of
           Inl e \<Rightarrow> Inl e
         | Inr d \<Rightarrow>
             if neg then Inr (- d)
             else if d > 2 ^ 63 - 1 then Inl (invalid_duration orig)
             else Inr d)"

text \<open>What it returns is an \<open>int64\<close>.\<close>

lemma duration_sum_range:
  "duration_sum orig d s = Inr x \<Longrightarrow> 0 \<le> d \<Longrightarrow> d \<le> 2 ^ 63 \<Longrightarrow> 0 \<le> x \<and> x \<le> 2 ^ 63"
proof (induction orig d s rule: duration_sum.induct)
  case (1 orig d s)
  then show ?case
    by (subst (asm) (2) duration_sum.simps) (auto simp: Let_def split: if_splits sum.splits)
qed

lemma ParseDuration_range:
  "ParseDuration s = Inr d \<Longrightarrow> min_duration \<le> d \<and> d \<le> max_duration"
  using duration_sum_range [of s 0]
  by (fastforce simp: ParseDuration_def Let_def min_duration_def max_duration_def split: if_splits sum.splits)

lemma ParseDuration_examples:
  "ParseDuration ''2m'' = Inr 120000000000"
  "ParseDuration ''1h15m30.918s'' = Inr 4530918000000"
  "ParseDuration ''-.5s'' = Inr (- 500000000)"
  "ParseDuration ''90'' = Inl (''time: missing unit in duration '' @ [CHR 0x22] @ ''90'' @ [CHR 0x22])"
  by code_simp+

end
