(* ===== verification/Cli.thy ===== *)
theory Cli
  imports Runner BaselineFile Kube RenderTable GoDuration
begin

section \<open>The check command (internal/cli/check.go, exit.go, cmd/khealth/main.go)\<close>

text \<open>
  The pipeline of \<open>khealth check\<close>: \<open>runChecks\<close> (build the environment, parse the flags,
  detect the distribution, filter, run, drop healthy findings), then save the baseline, tag
  the findings seen before, render, and turn the report into the process's exit code.

  Parameters: \<open>cp_world\<close> (what \<open>kube.Build\<close> reads of its surroundings), \<open>cp_detect\<close> (what distro
  detection reads of the cluster), \<open>cp_run\<close> (the result of \<open>runner.Run\<close> for a list of
  checks and options: any function that returns a result some schedule of the pool returns),
  the file system of the baseline file, and for the output the record \<open>out_params\<close>: the terminal and
  its time zone, the errors of the standard output, and \<open>op_yaml\<close>, which
  stands for the conversion of a JSON text that \<open>sigs.k8s.io/yaml\<close> ends with.
\<close>

subsection \<open>Flags, errors and renderers\<close>

record cli_flags =
  g_kubeconfig :: string
  g_context :: string
  g_namespace :: string
  g_all_namespaces :: bool
  g_launch_mode :: string
  g_output :: string
  g_only_unhealthy :: bool
  g_strict :: bool
  g_checks :: "string list"
  g_skip_checks :: "string list"
  g_distro :: string
  g_baseline :: string
  g_save_baseline :: string
  g_timeout :: string
  g_log_level :: string
  g_config :: string
  g_etcd :: etcd_flags

datatype renderer = PrettyRenderer | CompactRenderer | TableRenderer | JsonRenderer | YamlRenderer

datatype cli_error =
    BuildErr kube_error
  | TimeoutErr string
  | DistroErr distro_error
  | RunErr run_error
  | SaveErr save_error
  | LoadErr load_error
  | FormatErr string
  | RenderErr string
  | CommandErr string
  | ExitErr int string

definition New_renderer :: "string \<Rightarrow> cli_error + renderer" where
  "New_renderer name =
     (if name = [] \<or> name = ''pretty'' then Inr PrettyRenderer
      else if name = ''compact'' then Inr CompactRenderer
      else if name = ''table'' then Inr TableRenderer
      else if name = ''json'' then Inr JsonRenderer
      else if name = ''yaml'' then Inr YamlRenderer
      else Inl (FormatErr name))"

definition parseTimeout :: "string \<Rightarrow> cli_error + duration" where
  "parseTimeout s =
     (if s = [] then Inr (2 * 60 * 1000000000)
      else case ParseDuration s of
        Inl e \<Rightarrow> Inl (TimeoutErr (''invalid --timeout '' @ quote s @ '': '' @ e))
      | Inr d \<Rightarrow> Inr d)"

text \<open>A negative timeout is taken as it is; the default of two minutes is for an empty flag.\<close>

lemma parseTimeout_range: "parseTimeout s = Inr d \<Longrightarrow> min_duration \<le> d \<and> d \<le> max_duration"
  by (auto simp: parseTimeout_def min_duration_def max_duration_def split: if_splits sum.splits
      dest: ParseDuration_range [unfolded min_duration_def max_duration_def])

lemma parseTimeout_examples:
  "parseTimeout ''90s'' = Inr 90000000000" "parseTimeout ''-1s'' = Inr (- 1000000000)"
  by code_simp+

definition capabilitiesFor :: "kube_env option \<Rightarrow> capabilities" where
  "capabilitiesFor env =
     (case env of
        None \<Rightarrow> CapAPIServer
      | Some e \<Rightarrow> if ke_mode e = ModeInCluster then CapAPIServer OR CapInCluster else CapAPIServer)"

subsection \<open>Dropping healthy findings, in place\<close>

definition unhealthy :: "finding \<Rightarrow> bool" where
  "unhealthy f \<longleftrightarrow> f_status f \<noteq> StatusOK \<and> f_status f \<noteq> StatusSkipped"

text \<open>
  \<open>out.Findings[:0]\<close> shares the backing array of \<open>rep.Findings\<close>, and the loop appends to it
  while it ranges over the same array: \<open>arr\<close> is the array, \<open>i\<close> the read position, \<open>n\<close> the
  length of the result so far (every append fits in the capacity).
\<close>

function unhealthy_loop :: "finding list \<Rightarrow> nat \<Rightarrow> nat \<Rightarrow> finding list \<times> nat" where
  "unhealthy_loop arr i n =
     (if i < length arr then
        let f = arr ! i in
        if unhealthy f then unhealthy_loop (arr[n := f]) (Suc i) (Suc n)
        else unhealthy_loop arr (Suc i) n
      else (arr, n))"
  by pat_completeness auto
termination
  by (relation "measure (\<lambda>(arr, i, n). length arr - i)") auto

declare unhealthy_loop.simps [simp del]

definition applyOnlyUnhealthy :: "report \<Rightarrow> bool \<Rightarrow> report" where
  "applyOnlyUnhealthy rep onlyUnhealthy =
     (if \<not> onlyUnhealthy then rep
      else let (arr, n) = unhealthy_loop (r_findings rep) 0 0 in rep\<lparr>r_findings := take n arr, r_nil := r_nil rep \<and> r_findings rep = []\<rparr>)"

lemma unhealthy_loop_eq:
  "n \<le> i \<Longrightarrow> i \<le> length arr \<Longrightarrow>
     (case unhealthy_loop arr i n of (arr', n') \<Rightarrow> take n' arr') =
       take n arr @ filter unhealthy (drop i arr)"
proof (induction arr i n rule: unhealthy_loop.induct)
  case (1 arr i n)
  show ?case
  proof (cases "i < length arr")
    case False
    then have "unhealthy_loop arr i n = (arr, n)" by (simp add: unhealthy_loop.simps [of arr i n])
    then show ?thesis using False by simp
  next
    case True
    then have d: "drop i arr = arr ! i # drop (Suc i) arr" by (simp add: Cons_nth_drop_Suc)
    have t: "take (Suc n) (arr[n := x]) = take n arr @ [x]" for x
      using True "1.prems" by (simp add: take_Suc_conv_app_nth)
    show ?thesis
      using True "1.prems" "1.IH" d t [of "arr ! i"]
      by (simp add: unhealthy_loop.simps [of arr i n] Let_def)
  qed
qed

lemma applyOnlyUnhealthy_eq:
  "applyOnlyUnhealthy rep b =
     (if b then rep\<lparr>r_findings := filter unhealthy (r_findings rep),
                   r_nil := r_nil rep \<and> r_findings rep = []\<rparr> else rep)"
  using unhealthy_loop_eq [of 0 0 "r_findings rep"]
  by (simp add: applyOnlyUnhealthy_def split: prod.splits)

subsection \<open>Tagging the findings of a baseline\<close>

definition seenBeforePrefix :: string where
  "seenBeforePrefix = ''[seen-before] ''"

definition baseline_key :: "finding \<Rightarrow> string" where
  "baseline_key f = f_status f @ ''|'' @ f_check f @ ''|'' @ f_resource f"

lemma baseline_key_compare_key: "baseline_key = compare_key"
  by (simp add: baseline_key_def compare_key_def fun_eq_iff)

interpretation bk: finding_identity baseline_key
  using ck.finding_identity_axioms by (simp add: baseline_key_compare_key)

definition tag_seen :: "string set \<Rightarrow> finding \<Rightarrow> finding" where
  "tag_seen persisting f =
     (if baseline_key f \<in> persisting then f\<lparr>f_resource := seenBeforePrefix @ f_resource f\<rparr> else f)"

definition tag_report :: "finding list \<Rightarrow> report \<Rightarrow> report" where
  "tag_report base rep =
     (let diff = Compare base (r_findings rep);
          persisting = key_set baseline_key (d_persisting diff) {}
      in rep\<lparr>r_findings := map (tag_seen persisting) (r_findings rep), r_nil := False\<rparr>)"

definition applyBaseline ::
  "(string \<rightharpoonup> string) \<Rightarrow> report \<Rightarrow> string \<Rightarrow> load_error + report" where
  "applyBaseline files rep path =
     (case LoadBaseline files path of
        Inl e \<Rightarrow> Inl e
      | Inr None \<Rightarrow> Inr rep
      | Inr (Some base) \<Rightarrow> Inr (tag_report (b_findings base) rep))"

lemma tag_report_eq:
  "tag_report base rep = rep\<lparr>r_findings :=
     map (\<lambda>f. if compare_key f \<in> compare_key ` set base
              then f\<lparr>f_resource := seenBeforePrefix @ f_resource f\<rparr> else f) (r_findings rep),
     r_nil := False\<rparr>"
  by (auto simp: tag_report_def Let_def key_set_eq Compare_sel tag_seen_def
      baseline_key_compare_key intro!: arg_cong [where f = "\<lambda>fs. rep\<lparr>r_findings := fs, r_nil := False\<rparr>"])

lemma tag_report_statuses:
  "map f_status (r_findings (tag_report base rep)) = map f_status (r_findings rep)"
  by (simp add: tag_report_eq)

lemma applyBaseline_statuses:
  "applyBaseline files rep path = Inr rep' \<Longrightarrow>
     map f_status (r_findings rep') = map f_status (r_findings rep)"
  by (auto simp: applyBaseline_def tag_report_statuses split: sum.splits option.splits)

subsection \<open>The command\<close>

definition checkExit :: "report \<Rightarrow> bool \<Rightarrow> cli_error option" where
  "checkExit rep strict =
     (let code = ExitCode rep strict in
      if code = 0 then None
      else Some (ExitErr code (''findings present (worst='' @ Worst rep @ '')'')))"

record 'e check_params =
  cp_world :: kube_world
  cp_detect :: "kube_env \<Rightarrow> detect_env"
  cp_registry :: "'e registry"
  cp_run :: "kube_env \<Rightarrow> duration \<Rightarrow> 'e check list \<Rightarrow> run_options \<Rightarrow> report \<times> run_error option"

definition kube_options_for :: "cli_flags \<Rightarrow> kube_options" where
  "kube_options_for g = \<lparr>ko_kubeconfig = g_kubeconfig g, ko_context = g_context g,
     ko_launch_mode = g_launch_mode g, ko_namespace = g_namespace g,
     ko_all_namespaces = g_all_namespaces g, ko_etcd = g_etcd g\<rparr>"

definition runChecks :: "'e check_params \<Rightarrow> cli_flags \<Rightarrow> string list \<Rightarrow> cli_error + report" where
  "runChecks p g cats =
     (case Build (cp_world p) (kube_options_for g) of
        Inl e \<Rightarrow> Inl (BuildErr e)
      | Inr env \<Rightarrow>
     (case parseTimeout (g_timeout g) of
        Inl e \<Rightarrow> Inl e
      | Inr timeout \<Rightarrow>
     (case ParseDistro (g_distro g) of
        Inl e \<Rightarrow> Inl (DistroErr e)
      | Inr distro0 \<Rightarrow>
          let distro = (if distro0 = DistroAuto then DetectDistro (Some (cp_detect p env)) else distro0);
              cs = Filter_checks (cp_registry p) (g_checks g) (g_skip_checks g) cats distro;
              caps = capabilitiesFor (Some env);
              (rep, runErr) =
                cp_run p env timeout cs \<lparr>opt_workers = 0, opt_timeout = 0, opt_caps = caps\<rparr>
          in case runErr of
               Some e \<Rightarrow> Inl (RunErr e)
             | None \<Rightarrow> Inr (applyOnlyUnhealthy (rep\<lparr>r_distro := distro\<rparr>) (g_only_unhealthy g)))))"

record out_params =
  op_world :: out_world
  op_write_err :: "nat \<Rightarrow> string option"
  op_yaml :: "string \<Rightarrow> string option"
  op_writable :: "string \<Rightarrow> bool"

text \<open>The JSON and YAML renderers: a report has no text when its time stamp has none.\<close>

definition json_Render :: "out_params \<Rightarrow> report \<Rightarrow> cli_error + string" where
  "json_Render q rep =
     (case json_time (zn_offset (ow_zone (op_world q))) (r_generated_at rep) of
        None \<Rightarrow> Inl (RenderErr ''json'')
      | Some t \<Rightarrow> Inr (Encode (encode_report t rep)))"

definition yaml_Render :: "out_params \<Rightarrow> report \<Rightarrow> cli_error + string" where
  "yaml_Render q rep =
     (case json_time (zn_offset (ow_zone (op_world q))) (r_generated_at rep) of
        None \<Rightarrow> Inl (RenderErr ''json'')
      | Some t \<Rightarrow>
          (case op_yaml q (Marshal (encode_report t rep)) of
             None \<Rightarrow> Inl (RenderErr ''yaml'')
           | Some s \<Rightarrow> Inr s))"

lemmas render_defs = json_Render_def yaml_Render_def

text \<open>The strings a renderer writes (the JSON and YAML ones write once), or its error.\<close>

definition render_writes :: "out_params \<Rightarrow> renderer \<Rightarrow> report \<Rightarrow> cli_error + string list" where
  "render_writes q r rep =
     (case r of
        PrettyRenderer \<Rightarrow> Inr (pretty_Render (op_world q) rep)
      | CompactRenderer \<Rightarrow> Inr (compact_Render (op_world q) rep)
      | TableRenderer \<Rightarrow> Inr (table_Render (op_world q) rep)
      | JsonRenderer \<Rightarrow> map_sum id (\<lambda>s. [s]) (json_Render q rep)
      | YamlRenderer \<Rightarrow> map_sum id (\<lambda>s. [s]) (yaml_Render q rep))"

definition writeReport :: "out_params \<Rightarrow> cli_flags \<Rightarrow> report \<Rightarrow> string \<times> cli_error option" where
  "writeReport q g rep =
     (case New_renderer (g_output g) of
        Inl e \<Rightarrow> ([], Some e)
      | Inr r \<Rightarrow>
          (case render_writes q r rep of
             Inl e \<Rightarrow> ([], Some e)
           | Inr ss \<Rightarrow> apsnd (map_option RenderErr) (emit (op_write_err q) 0 ss)))"

text \<open>
  The files after the command, what it printed, what it wrote to the standard error itself, and the
  error \<open>RunE\<close> returns.
\<close>

record outcome =
  o_files :: "string \<rightharpoonup> string"
  o_stdout :: string
  o_stderr :: string
  o_err :: "cli_error option"

definition report_stage :: "out_params \<Rightarrow> cli_flags \<Rightarrow> (string \<rightharpoonup> string) \<Rightarrow> report \<Rightarrow> outcome" where
  "report_stage q g files rep =
     (case (if g_save_baseline g \<noteq> []
            then SaveBaseline (op_writable q) files (g_save_baseline g) rep
            else Inr files) of
        Inl e \<Rightarrow> \<lparr>o_files = files, o_stdout = [], o_stderr = [], o_err = Some (SaveErr e)\<rparr>
      | Inr files' \<Rightarrow>
     (case (if g_baseline g \<noteq> []
            then applyBaseline files' rep (g_baseline g)
            else Inr rep) of
        Inl e \<Rightarrow> \<lparr>o_files = files', o_stdout = [], o_stderr = [], o_err = Some (LoadErr e)\<rparr>
      | Inr rep' \<Rightarrow>
          (case writeReport q g rep' of
             (out, Some e) \<Rightarrow> \<lparr>o_files = files', o_stdout = out, o_stderr = [], o_err = Some e\<rparr>
           | (out, None) \<Rightarrow> \<lparr>o_files = files', o_stdout = out, o_stderr = [], o_err = checkExit rep' (g_strict g)\<rparr>)))"

definition check_cmd ::
  "'e check_params \<Rightarrow> out_params \<Rightarrow> cli_flags \<Rightarrow> string list \<Rightarrow> (string \<rightharpoonup> string) \<Rightarrow> outcome" where
  "check_cmd p q g cats files =
     (case runChecks p g cats of
        Inl e \<Rightarrow> \<lparr>o_files = files, o_stdout = [], o_stderr = [], o_err = Some e\<rparr>
      | Inr rep \<Rightarrow> report_stage q g files rep)"

text \<open>\<open>run\<close> of main.go: only an \<open>exitError\<close> carries its own code.\<close>

definition main_exit :: "cli_error option \<Rightarrow> int" where
  "main_exit err =
     (case err of
        None \<Rightarrow> 0
      | Some (ExitErr code m) \<Rightarrow> code
      | Some e \<Rightarrow> 3)"

subsection \<open>What the stages keep\<close>

lemma ExitCode_statuses_eq:
  "f_status ` set (r_findings a) = f_status ` set (r_findings b) \<Longrightarrow> ExitCode a s = ExitCode b s"
  by (rule ExitCode_status_set)

lemma ExitCode_filter_unhealthy:
  "ExitCode (rep\<lparr>r_findings := filter unhealthy (r_findings rep), r_nil := b\<rparr>) strict = ExitCode rep strict"
proof -
  have "s \<in> f_status ` set (filter unhealthy fs) \<longleftrightarrow> s \<in> f_status ` set fs"
    if "s = StatusCritical \<or> s = StatusWarning" for s fs
    using that by (force simp: unhealthy_def)
  then have "(\<exists>f \<in> set (filter unhealthy fs). f_status f = s) \<longleftrightarrow> (\<exists>f \<in> set fs. f_status f = s)"
    if "s = StatusCritical \<or> s = StatusWarning" for s fs
    using that by (auto simp: unhealthy_def)
  then show ?thesis by (simp add: ExitCode_cases del: set_filter)
qed

lemma ExitCode_applyOnlyUnhealthy: "ExitCode (applyOnlyUnhealthy rep b) s = ExitCode rep s"
  by (simp add: applyOnlyUnhealthy_eq ExitCode_filter_unhealthy)

lemma ExitCode_distro: "ExitCode (rep\<lparr>r_distro := d\<rparr>) s = ExitCode rep s"
  by (rule ExitCode_status_set) simp

lemma ExitCode_applyBaseline:
  assumes "applyBaseline files rep path = Inr rep'"
  shows "ExitCode rep' s = ExitCode rep s"
  using applyBaseline_statuses [OF assms]
  by (intro ExitCode_status_set) (metis image_set)

lemma main_exit_checkExit: "main_exit (checkExit rep s) = ExitCode rep s"
  by (simp add: main_exit_def checkExit_def Let_def)

lemma ExitCode_range: "ExitCode rep s \<in> {0, 1, 2}"
  by (simp add: ExitCode_cases)

definition tool_error :: "cli_error option \<Rightarrow> bool" where
  "tool_error err \<longleftrightarrow> (case err of None \<Rightarrow> False | Some (ExitErr c m) \<Rightarrow> False | Some e \<Rightarrow> True)"

lemma runChecks_no_exit: "runChecks p g cats = Inl e \<Longrightarrow> tool_error (Some e) \<and> main_exit (Some e) = 3"
  by (auto simp: runChecks_def parseTimeout_def tool_error_def main_exit_def Let_def
      split: sum.splits option.splits prod.splits if_splits)

lemma writeReport_error:
  assumes "writeReport q g r = (out, Some e)"
  shows "e \<noteq> ExitErr c m"
proof -
  have "New_renderer name = Inl e' \<Longrightarrow> e' \<noteq> ExitErr c m" for name e'
    by (auto simp: New_renderer_def split: if_splits)
  moreover have "render_writes q k r = Inl e' \<Longrightarrow> e' \<noteq> ExitErr c m" for k e'
    by (auto simp: render_writes_def render_defs split: renderer.splits option.splits)
  moreover have "apsnd (map_option RenderErr) x = (out, Some e') \<Longrightarrow> e' \<noteq> ExitErr c m" for x e'
    by (cases x) auto
  ultimately show ?thesis using assms by (auto simp: writeReport_def split: sum.splits)
qed

lemma report_stage_cases:
  "(tool_error (o_err (report_stage q g files rep)) \<and> main_exit (o_err (report_stage q g files rep)) = 3) \<or>
   (\<not> tool_error (o_err (report_stage q g files rep)) \<and>
    main_exit (o_err (report_stage q g files rep)) = ExitCode rep (g_strict g))"
proof -
  define save where "save = (if g_save_baseline g \<noteq> [] then SaveBaseline (op_writable q) files (g_save_baseline g) rep
    else Inr files)"
  note stage = report_stage_def [of q g files rep, folded save_def]
  show ?thesis
  proof (cases save)
    case (Inl e)
    then show ?thesis by (simp add: stage tool_error_def main_exit_def)
  next
    case (Inr fls)
    define base where "base = (if g_baseline g \<noteq> [] then applyBaseline fls rep (g_baseline g)
      else Inr rep)"
    note stage = stage [unfolded Inr sum.case, folded base_def]
    show ?thesis
    proof (cases base)
      case (Inl e)
      then show ?thesis by (simp add: stage tool_error_def main_exit_def)
    next
      case base: (Inr rep')
      have exit: "ExitCode rep' s = ExitCode rep s" for s
        using ExitCode_applyBaseline base by (auto simp: base_def split: if_splits)
      obtain out e where w: "writeReport q g rep' = (out, e)" by fastforce
      show ?thesis
      proof (cases e)
        case None
        then show ?thesis
          using base w exit main_exit_checkExit [of rep' "g_strict g"]
          by (simp add: stage tool_error_def checkExit_def Let_def)
      next
        case (Some e')
        then have "\<not> (\<exists>c m. e' = ExitErr c m)" using w writeReport_error by blast
        then show ?thesis
          using base w Some by (cases e') (auto simp: stage tool_error_def main_exit_def)
      qed
    qed
  qed
qed

lemma kube_options_only [simp]: "kube_options_for (g\<lparr>g_only_unhealthy := b\<rparr>) = kube_options_for g"
  by (simp add: kube_options_for_def)

lemma runChecks_only_unhealthy:
  "runChecks p g cats = Inr rep \<Longrightarrow>
     \<exists>raw. runChecks p (g\<lparr>g_only_unhealthy := False\<rparr>) cats = Inr raw \<and>
       rep = applyOnlyUnhealthy raw (g_only_unhealthy g)"
  by (auto simp: runChecks_def Let_def applyOnlyUnhealthy_def
      split: sum.splits option.splits prod.splits)

lemma check_cmd_exit:
  "if tool_error (o_err (check_cmd p q g cats files))
   then main_exit (o_err (check_cmd p q g cats files)) = 3
   else \<exists>raw. runChecks p (g\<lparr>g_only_unhealthy := False\<rparr>) cats = Inr raw \<and>
          main_exit (o_err (check_cmd p q g cats files)) = ExitCode raw (g_strict g)"
proof (cases "runChecks p g cats")
  case (Inl e)
  then show ?thesis using runChecks_no_exit [OF Inl] by (simp add: check_cmd_def)
next
  case (Inr rep)
  then obtain raw where raw: "runChecks p (g\<lparr>g_only_unhealthy := False\<rparr>) cats = Inr raw"
      "rep = applyOnlyUnhealthy raw (g_only_unhealthy g)"
    using runChecks_only_unhealthy by blast
  show ?thesis
    using report_stage_cases [of q g files rep] Inr raw
    by (auto simp: check_cmd_def ExitCode_applyOnlyUnhealthy)
qed

subsection \<open>Properties\<close>

text \<open>
  The exit status of \<open>khealth check\<close>: 3 exactly on a tool error (configuration, flags,
  deadline, baseline file, unknown format), and otherwise the exit code of the report of the
  run itself: neither \<open>--only-unhealthy\<close> nor \<open>--baseline\<close> nor \<open>--save-baseline\<close> nor the
  output format can change it.
\<close>

lemma check_exit_status:
  "if tool_error (o_err (check_cmd p q g cats files))
   then main_exit (o_err (check_cmd p q g cats files)) = 3
   else \<exists>raw. runChecks p (g\<lparr>g_only_unhealthy := False\<rparr>) cats = Inr raw \<and>
          main_exit (o_err (check_cmd p q g cats files)) = ExitCode raw (g_strict g)"
  by (rule check_cmd_exit)

text \<open>
  C35. The in-place compaction of \<open>--only-unhealthy\<close>, which overwrites the array it is
  reading, returns exactly the findings that are neither OK nor SKIP, in order.
\<close>

theorem only_unhealthy_in_place_is_filter:
  "applyOnlyUnhealthy rep True =
     rep\<lparr>r_findings := filter (\<lambda>f. f_status f \<noteq> StatusOK \<and> f_status f \<noteq> StatusSkipped) (r_findings rep),
       r_nil := r_nil rep \<and> r_findings rep = []\<rparr>"
  by (simp add: applyOnlyUnhealthy_eq unhealthy_def [abs_def])

text \<open>
  \<open>--baseline\<close> only marks: the tagged report has the same findings in the same order,
  changed in nothing but the resource, and a resource is marked exactly when the baseline
  has a finding with the same check, status and resource.
\<close>

lemma baseline_tags_exactly_seen:
  assumes "LoadBaseline files path = Inr (Some base)"
    and "\<forall>f \<in> set (b_findings base) \<union> set (r_findings rep). pipe_free f"
  shows "applyBaseline files rep path = Inr (rep\<lparr>r_findings :=
     map (\<lambda>f. if \<exists>g \<in> set (b_findings base). same_identity f g
              then f\<lparr>f_resource := ''[seen-before] '' @ f_resource f\<rparr> else f) (r_findings rep),
     r_nil := False\<rparr>)"
proof -
  have "compare_key f \<in> compare_key ` set (b_findings base) \<longleftrightarrow>
      (\<exists>g \<in> set (b_findings base). same_identity f g)" if "f \<in> set (r_findings rep)" for f
    using assms(2) that by (intro ck.key_mem_iff) auto
  then show ?thesis
    using assms(1)
    by (auto simp: applyBaseline_def tag_report_eq seenBeforePrefix_def
        intro!: arg_cong [where f = "\<lambda>fs. rep\<lparr>r_findings := fs, r_nil := False\<rparr>"])
qed

definition demo_base :: report where
  "demo_base = report0\<lparr>r_findings := [mk_finding ''x'' StatusWarning ''r'' []]\<rparr>"

lemma demo_base_loads:
  "LoadBaseline [''b'' \<mapsto> MarshalIndent (encode_baseline True (r_findings demo_base))] ''b'' =
     Inr (Some \<lparr>b_findings = [mk_finding ''x'' StatusWarning ''r'' []]\<rparr>)"
proof -
  have "\<forall>f \<in> set (r_findings demo_base). good_finding f"
    by (simp add: demo_base_def wf_finding_def utf8_finding_def status_defs utf8_ascii byte_Char)
  then show ?thesis
    using load_saved [of "''b''" demo_base "\<lambda>_. True" Map.empty]
    by (simp add: SaveBaseline_def) (simp add: demo_base_def canon_def report0_def mk_finding_def finding0_def)
qed

lemma baseline_tags_exactly_seen_example:
  "applyBaseline [''b'' \<mapsto> MarshalIndent (encode_baseline True (r_findings demo_base))]
     (report0\<lparr>r_findings := [mk_finding ''x'' StatusWarning ''r'' ''msg'',
        mk_finding ''y'' StatusWarning ''r'' []]\<rparr>) ''b''
   = Inr (report0\<lparr>r_findings := [mk_finding ''x'' StatusWarning ''[seen-before] r'' ''msg'',
        mk_finding ''y'' StatusWarning ''r'' []], r_nil := False\<rparr>)"
  using baseline_tags_exactly_seen [OF demo_base_loads, of "report0\<lparr>r_findings :=
      [mk_finding ''x'' StatusWarning ''r'' ''msg'', mk_finding ''y'' StatusWarning ''r'' []]\<rparr>"]
  by (simp add: pipe_free_def same_identity_def status_defs mk_finding_def)

definition crit_check :: "unit check" where
  "crit_check = (demo_check ''a'' [] None)\<lparr>chk_run := (\<lambda>_. [mk_finding ''a'' StatusCritical [] []])\<rparr>"

text \<open>
  C38. An interrupted run exits 0: when the context is cancelled (a signal) before the checks
  are handed out, \<open>Run\<close> returns an empty report and no error, so the process exits 0, also in
  strict mode, where the complete run of the same check exits 1.
\<close>

theorem interrupted_run_exits_zero:
  "\<exists>s. pool_returns demo_work 8 [crit_check] s \<and> p_ctx s = CtxCanceled \<and>
       snd (Run_result now cl s) = None \<and>
       main_exit (checkExit (fst (Run_result now cl s)) True) = 0 \<and>
       (\<forall>t. pool_returns demo_work 8 [crit_check] t \<longrightarrow> p_ctx t = CtxLive \<longrightarrow>
          main_exit (checkExit (fst (Run_result now cl t)) True) = 1)"
proof -
  let ?s = "\<lparr>p_todo = [crit_check], p_closed = True, p_workers = replicate 8 WExit,
    p_report = [], p_ctx = CtxCanceled\<rparr> :: unit check pool"
  have "pool_exec demo_work [MCtx CtxCanceled, MClose, MExit 0, MExit 1, MExit 2, MExit 3, MExit 4,
      MExit 5, MExit 6, MExit 7] (init_pool 8 [crit_check]) = Some ?s"
    by (simp add: init_pool_def eval_nat_numeral)
  then have s: "pool_returns demo_work 8 [crit_check] ?s"
    by (rule pool_exec_returns) (simp add: pool_final_def)
  have live: "main_exit (checkExit (fst (Run_result now cl t)) True) = 1"
    if t: "pool_returns demo_work 8 [crit_check] t" "p_ctx t = CtxLive" for t
  proof -
    have "mset (p_report t) = mset (demo_work crit_check)"
      using pool_returns_live [OF t(1) _ t(2)] by simp
    then have "set (p_report t) = set (demo_work crit_check)" by (metis set_mset_mset)
    then show ?thesis
      by (simp add: main_exit_checkExit ExitCode_cases Run_result_def runOne_def opts2_def
          crit_check_def demo_check_def Has_def)
  qed
  show ?thesis
    using s live by (intro exI [of _ ?s]) (simp add: main_exit_checkExit ExitCode_cases Run_result_def)
qed

text \<open>
  The output format is validated last: with an unknown \<open>--output\<close> the command still runs
  the checks and writes the baseline file, prints nothing and exits 3.
\<close>

lemma bad_format_fails_after_saving:
  assumes "runChecks p g cats = Inr rep" and "g_save_baseline g \<noteq> []" and "g_baseline g = []"
    and "op_writable q (g_save_baseline g)"
    and "g_output g \<notin> {[], ''pretty'', ''compact'', ''table'', ''json'', ''yaml''}"
  shows "o_files (check_cmd p q g cats files) (g_save_baseline g) =
           Some (MarshalIndent (encode_baseline (r_nil rep) (r_findings rep))) \<and>
         o_stdout (check_cmd p q g cats files) = [] \<and>
         main_exit (o_err (check_cmd p q g cats files)) = 3"
  using assms
  by (simp add: check_cmd_def report_stage_def SaveBaseline_def writeReport_def New_renderer_def main_exit_def)

definition format_flags :: cli_flags where
  "format_flags = \<lparr>g_kubeconfig = [], g_context = [], g_namespace = [], g_all_namespaces = True,
     g_launch_mode = ''auto'', g_output = ''xml'', g_only_unhealthy = False, g_strict = False,
     g_checks = [], g_skip_checks = [], g_distro = ''k3s'', g_baseline = [],
     g_save_baseline = ''b.json'', g_timeout = [], g_log_level = [], g_config = [], g_etcd = no_etcd_flags\<rparr>"

definition format_params :: "unit check_params" where
  "format_params = \<lparr>cp_world = demo_world,
     cp_detect = (\<lambda>_. \<lparr>de_lease = (\<lambda>_ _. False), de_nodes = (\<lambda>_. None)\<rparr>),
     cp_registry = \<lparr>reg_m = [(''a'', crit_check)]\<rparr>,
     cp_run = (\<lambda>env timeout cs opts. Run_result 0 (Some (ke_cluster env))
       (seq_pool (runOne opts (\<lambda>_ _. ()) () (\<lambda>_. 1)) (worker_count opts) cs))\<rparr>"

definition piped_out :: out_params where
  "piped_out = \<lparr>op_world = \<lparr>ow_no_color = False, ow_file = False, ow_terminal = False, ow_size = None,
       ow_columns = [], ow_zone = \<lparr>zn_offset = 3600, zn_name = ''CET''\<rparr>\<rparr>,
     op_write_err = (\<lambda>_. None), op_yaml = (\<lambda>s. Some s), op_writable = (\<lambda>_. True)\<rparr>"

lemma bad_format_fails_after_saving_example:
  "main_exit (o_err (check_cmd format_params piped_out format_flags [] Map.empty)) = 3 \<and>
   o_files (check_cmd format_params piped_out format_flags [] Map.empty) ''b.json'' \<noteq> None"
proof -
  have "case runChecks format_params format_flags [] of Inl _ \<Rightarrow> False | Inr _ \<Rightarrow> True" by code_simp
  then obtain rep where "runChecks format_params format_flags [] = Inr rep"
    by (auto split: sum.splits)
  from bad_format_fails_after_saving [OF this, of piped_out Map.empty] show ?thesis
    by (simp add: format_flags_def piped_out_def)
qed

theorem interrupted_run_exits_zero_witness:
  "\<exists>s t. pool_returns demo_work 8 [crit_check] s \<and> pool_returns demo_work 8 [crit_check] t \<and>
     main_exit (checkExit (fst (Run_result 0 None s)) True) = 0 \<and>
     main_exit (checkExit (fst (Run_result 0 None t)) True) = 1"
proof -
  obtain t where "pool_returns demo_work 8 [crit_check] t" "p_ctx t = CtxLive"
    using pool_returns_exists by blast
  then show ?thesis using interrupted_run_exits_zero [of 0 None] by metis
qed

end
