(* ===== verification/Wrapper.thy ===== *)
theory Wrapper
  imports Prelude
begin

section \<open>The script run by the editor hooks (.github/setup.js)\<close>

text \<open>
  The one line of \<open>setup.js\<close> is \<open>try { eval(decode(codes, 17)) } catch (e) { console.log(...) }\<close>:
  an array of character codes is turned into a string, every ASCII letter is moved 17 places
  in its alphabet, and the result is executed. The editor settings of the repository run it
  on opening a session. This theory models that outer layer: \<open>String.fromCharCode\<close>,
  the array map, the \<open>replace\<close> callback and the \<open>try\<close>/\<open>catch\<close>. Strings are lists of UTF-16
  code units, here naturals, and \<open>String.fromCharCode\<close> reduces modulo \<open>2^16\<close>.

  The array's million elements are an argument, and \<open>eval\<close>, which runs the decoded program,
  is a parameter: what that program does is not modelled. Its text is fixed by the array,
  as the lemmas below show: the decoder is a bijection.
\<close>

type_synonym js_string = "nat list"

definition fromCharCode :: "nat \<Rightarrow> nat" where
  "fromCharCode n = n mod 65536"

definition is_letter :: "nat \<Rightarrow> bool" where
  "is_letter c \<longleftrightarrow> (97 \<le> c \<and> c \<le> 122) \<or> (65 \<le> c \<and> c \<le> 90)"

definition replace_letter :: "nat \<Rightarrow> nat \<Rightarrow> nat" where
  "replace_letter n c = (let b = (if c \<le> 90 then 65 else 97) in fromCharCode ((c - b + n) mod 26 + b))"

definition decode :: "js_string \<Rightarrow> nat \<Rightarrow> js_string" where
  "decode s n = map (\<lambda>c. if is_letter c then replace_letter n c else c) s"

text \<open>
  The value thrown by \<open>eval\<close>, if any: an object with a \<open>message\<close> (a string, empty or not) or
  another value, as the console prints it.
\<close>

datatype js_throw = Thrown (thrown_message: js_string) (thrown_text: js_string)

definition wrapper_label :: js_string where
  "wrapper_label = map of_char ''wrapper:''"

text \<open>The argument of \<open>eval\<close> and the lines printed to the console.\<close>

definition wrapper :: "(js_string \<Rightarrow> js_throw option) \<Rightarrow> nat list \<Rightarrow> js_string \<times> js_string list list" where
  "wrapper js_eval codes =
     (let source = decode (map fromCharCode codes) 17
      in (source,
          case js_eval source of
            None \<Rightarrow> []
          | Some e \<Rightarrow> [[wrapper_label, if thrown_message e \<noteq> [] then thrown_message e else thrown_text e]]))"

subsection \<open>Rotations\<close>

text \<open>What a rotation of an alphabet is, for any letter test and map of one code unit.\<close>

locale rotation =
  fixes rot :: "nat \<Rightarrow> nat \<Rightarrow> nat"
    and letter :: "nat \<Rightarrow> bool"
  assumes rot_letter: "letter c \<Longrightarrow> letter (rot n c)"
    and rot_other: "\<not> letter c \<Longrightarrow> rot n c = c"
    and rot_add: "rot m (rot n c) = rot (m + n) c"
    and rot_period: "rot 26 c = c"
begin

lemma rot_inverse: "m + n = 26 \<Longrightarrow> rot m (rot n c) = c"
  by (simp add: rot_add rot_period)

lemma rot_map_inverse: "m + n = 26 \<Longrightarrow> map (rot m) (map (rot n) s) = s"
  by (simp add: rot_inverse map_idI)

lemma rot_inj: "n \<le> 26 \<Longrightarrow> inj (rot n)"
  by (rule inj_on_inverseI [where g = "rot (26 - n)"]) (simp add: rot_inverse)

lemma rot_letter_iff: "n \<le> 26 \<Longrightarrow> letter (rot n c) \<longleftrightarrow> letter c"
  using rot_letter rot_other by metis

end

definition decode_unit :: "nat \<Rightarrow> nat \<Rightarrow> nat" where
  "decode_unit n c = (if is_letter c then replace_letter n c else c)"

lemma decode_map: "decode s n = map (decode_unit n) s"
  by (simp add: decode_def decode_unit_def)

lemma replace_letter_eq:
  "is_letter c \<Longrightarrow> replace_letter n c =
     (if c \<le> 90 then (c - 65 + n) mod 26 + 65 else (c - 97 + n) mod 26 + 97)"
proof -
  have "(k mod 26 + 65) mod 65536 = k mod 26 + 65" "(k mod 26 + 97) mod 65536 = k mod 26 + 97"
    for k :: nat
    by (rule mod_less, use mod_less_divisor [of 26 k] in simp)+
  then show "is_letter c \<Longrightarrow> ?thesis" by (simp add: replace_letter_def fromCharCode_def)
qed

lemma replace_letter_range:
  assumes "is_letter c"
  shows "is_letter (replace_letter n c) \<and> (replace_letter n c \<le> 90 \<longleftrightarrow> c \<le> 90)"
  using mod_less_divisor [of 26 "c - 65 + n"] mod_less_divisor [of 26 "c - 97 + n"] assms
  by (auto simp: replace_letter_eq) (auto simp: is_letter_def)

interpretation ds: rotation decode_unit is_letter
proof
  fix c m n
  show "is_letter c \<Longrightarrow> is_letter (decode_unit n c)"
    by (simp add: decode_unit_def replace_letter_range)
  show "\<not> is_letter c \<Longrightarrow> decode_unit n c = c"
    by (simp add: decode_unit_def)
  show "decode_unit m (decode_unit n c) = decode_unit (m + n) c"
    using replace_letter_range [of c n]
    by (auto simp: decode_unit_def replace_letter_eq mod_add_right_eq ac_simps)
  show "decode_unit 26 c = c"
  proof (cases "is_letter c")
    case True
    have "(c - 65 + 26) mod 26 + 65 = c" if "65 \<le> c" "c \<le> 90"
      using that by (simp only: mod_add_self2) simp
    moreover have "(c - 97 + 26) mod 26 + 97 = c" if "97 \<le> c" "c \<le> 122"
      using that by (simp only: mod_add_self2) simp
    ultimately show ?thesis
      using True by (auto simp: decode_unit_def replace_letter_eq is_letter_def simp del: mod_add_self2)
  qed (simp add: decode_unit_def)
qed

subsection \<open>Properties\<close>

text \<open>
  C40. What \<open>setup.js\<close> executes: for every program text \<open>p\<close> (a list of code units), the array
  that hides it is its rotation by 9, the wrapper then evaluates exactly \<open>p\<close>, and no other
  array of code units makes it evaluate \<open>p\<close>; an error of the program is caught and printed.
\<close>

theorem wrapper_evaluates:
  assumes "\<forall>c \<in> set p. c < 65536" and "\<forall>c \<in> set codes. c < 65536"
  shows "(fst (wrapper js_eval codes) = p \<longleftrightarrow> codes = decode p 9) \<and>
         (snd (wrapper js_eval codes) = [] \<longleftrightarrow> js_eval (fst (wrapper js_eval codes)) = None)"
proof -
  have "map fromCharCode codes = codes"
    using assms(2) by (simp add: fromCharCode_def map_idI)
  moreover have "decode codes 17 = p \<longleftrightarrow> codes = decode p 9"
    using ds.rot_map_inverse [of 17 9 p] ds.rot_map_inverse [of 9 17 codes]
    by (auto simp: decode_map simp del: map_map)
  ultimately show ?thesis by (simp add: wrapper_def Let_def split: option.split)
qed

text \<open>The first codes of the array: the program starts an asynchronous function.\<close>

theorem wrapper_evaluates_witness:
  "fst (wrapper (\<lambda>_. None) [40, 106, 98, 104, 119, 108, 40, 41, 61, 62, 123, 99, 97, 104, 123, 10]) =
     map of_char ''(async()=>{try{'' @ [10]"
proof -
  have "fst (wrapper (\<lambda>_. None) [40, 106, 98, 104, 119, 108, 40, 41, 61, 62, 123, 99, 97, 104, 123, 10]) =
      map of_char ''(async()=>{try{'' @ [10] \<longleftrightarrow>
    [40, 106, 98, 104, 119, 108, 40, 41, 61, 62, 123, 99, 97, 104, 123, 10] =
      decode (map of_char ''(async()=>{try{'' @ [10]) 9"
    using wrapper_evaluates [of "map of_char ''(async()=>{try{'' @ [10]"
        "[40, 106, 98, 104, 119, 108, 40, 41, 61, 62, 123, 99, 97, 104, 123, 10]" "\<lambda>_. None"]
    by simp
  then show ?thesis by (simp add: decode_def is_letter_def replace_letter_def fromCharCode_def)
qed

end
