(* ===== verification/EtcdStatus.thy ===== *)
theory EtcdStatus
  imports Json Result GoTime
begin

section \<open>The status of etcd and its JSON (internal/etcd/etcd.go)\<close>

text \<open>
  \<open>Status\<close>, \<open>MemberStatus\<close> and \<open>Alarm\<close>, what \<open>json.Marshal\<close> prints of them and what
  \<open>json.Unmarshal\<close> makes of a line: the probe pod prints a status, the launcher reads it. A time stamp is printed in
  the local zone, of offset \<open>off\<close>. Not kept: elements of a slice beyond its length, which
  \<open>Unmarshal\<close> uses again when the slice grows back.
\<close>

subsection \<open>Types\<close>

definition EtcdAuto :: string where "EtcdAuto = ''auto''"
definition EtcdDirect :: string where "EtcdDirect = ''direct''"
definition EtcdInClusterJob :: string where "EtcdInClusterJob = ''in-cluster''"
definition EtcdViaAPIServer :: string where "EtcdViaAPIServer = ''via-apiserver''"
definition EtcdPodExec :: string where "EtcdPodExec = ''pod-exec''"

lemmas etcd_modes = EtcdAuto_def EtcdDirect_def EtcdInClusterJob_def EtcdViaAPIServer_def EtcdPodExec_def

record member_status =
  ms_endpoint :: string
  ms_version :: string
  ms_size :: int
  ms_in_use :: int
  ms_leader :: int
  ms_raft :: int
  ms_errors :: "string list"
  ms_reachable :: bool

record alarm =
  al_member :: int
  al_type :: string

record etcd_status =
  es_mode :: string
  es_collected :: instant
  es_reachable :: bool
  es_members :: "member_status list"
  es_alarms :: "alarm list"
  es_has_leader :: bool
  es_quota :: int
  es_size :: int
  es_in_use :: int

definition new_status :: "string \<Rightarrow> instant \<Rightarrow> int \<Rightarrow> etcd_status" where
  "new_status mode now quota = \<lparr>es_mode = mode, es_collected = now, es_reachable = False,
     es_members = [], es_alarms = [], es_has_leader = False, es_quota = quota, es_size = 0,
     es_in_use = 0\<rparr>"

definition new_member :: "string \<Rightarrow> member_status" where
  "new_member ep = \<lparr>ms_endpoint = ep, ms_version = [], ms_size = 0, ms_in_use = 0, ms_leader = 0,
     ms_raft = 0, ms_errors = [], ms_reachable = False\<rparr>"

subsection \<open>Encoding\<close>

definition omit_list :: "string \<Rightarrow> json list \<Rightarrow> (string \<times> json) list" where
  "omit_list name js = (if js = [] then [] else [(name, JArr js)])"

definition encode_member :: "member_status \<Rightarrow> json" where
  "encode_member m = JObj
     ([(''endpoint'', JStr (ms_endpoint m))]
      @ omit_empty ''version'' (ms_version m)
      @ omit_zero ''dbSize'' (ms_size m)
      @ omit_zero ''dbSizeInUse'' (ms_in_use m)
      @ omit_zero ''leaderID'' (ms_leader m)
      @ omit_zero ''raftIndex'' (ms_raft m)
      @ omit_list ''errors'' (map JStr (ms_errors m))
      @ [(''reachable'', JBool (ms_reachable m))])"

definition encode_alarm :: "alarm \<Rightarrow> json" where
  "encode_alarm a = JObj [(''memberID'', JInt (al_member a)), (''type'', JStr (al_type a))]"

definition encode_status :: "string \<Rightarrow> etcd_status \<Rightarrow> json" where
  "encode_status time st = JObj
     ([(''mode'', JStr (es_mode st)), (''collectedAt'', JStr time), (''reachable'', JBool (es_reachable st))]
      @ omit_list ''members'' (map encode_member (es_members st))
      @ omit_list ''alarms'' (map encode_alarm (es_alarms st))
      @ [(''hasLeader'', JBool (es_has_leader st))]
      @ omit_zero ''quotaBytes'' (es_quota st)
      @ omit_zero ''sizeBytes'' (es_size st)
      @ omit_zero ''sizeInUseBytes'' (es_in_use st))"

text \<open>\<open>json.Marshal\<close> of a status: an error when the time stamp has no text.\<close>

definition marshal_status :: "int \<Rightarrow> etcd_status \<Rightarrow> string + string" where
  "marshal_status off st =
     (case json_time off (es_collected st) of
        None \<Rightarrow> Inl (json_time_error off (es_collected st))
      | Some t \<Rightarrow> Inr (Marshal (encode_status t st)))"

subsection \<open>Decoding\<close>

definition decode_member_field :: "string \<Rightarrow> json \<Rightarrow> member_status \<Rightarrow> member_status \<times> bool" where
  "decode_member_field k v m =
     (if field_match k ''endpoint'' then
        apfst (\<lambda>x. m\<lparr>ms_endpoint := x\<rparr>) (keep_old decode_string v (ms_endpoint m))
      else if field_match k ''version'' then
        apfst (\<lambda>x. m\<lparr>ms_version := x\<rparr>) (keep_old decode_string v (ms_version m))
      else if field_match k ''dbSize'' then
        apfst (\<lambda>x. m\<lparr>ms_size := x\<rparr>) (keep_old decode_int64 v (ms_size m))
      else if field_match k ''dbSizeInUse'' then
        apfst (\<lambda>x. m\<lparr>ms_in_use := x\<rparr>) (keep_old decode_int64 v (ms_in_use m))
      else if field_match k ''leaderID'' then
        apfst (\<lambda>x. m\<lparr>ms_leader := x\<rparr>) (keep_old decode_uint64 v (ms_leader m))
      else if field_match k ''raftIndex'' then
        apfst (\<lambda>x. m\<lparr>ms_raft := x\<rparr>) (keep_old decode_uint64 v (ms_raft m))
      else if field_match k ''errors'' then
        apfst (\<lambda>x. m\<lparr>ms_errors := x\<rparr>) (decode_slice (keep_old decode_string) [] v (ms_errors m))
      else if field_match k ''reachable'' then
        apfst (\<lambda>x. m\<lparr>ms_reachable := x\<rparr>) (keep_old decode_bool v (ms_reachable m))
      else (m, True))"

definition decode_alarm_field :: "string \<Rightarrow> json \<Rightarrow> alarm \<Rightarrow> alarm \<times> bool" where
  "decode_alarm_field k v a =
     (if field_match k ''memberID'' then
        apfst (\<lambda>x. a\<lparr>al_member := x\<rparr>) (keep_old decode_uint64 v (al_member a))
      else if field_match k ''type'' then
        apfst (\<lambda>x. a\<lparr>al_type := x\<rparr>) (keep_old decode_string v (al_type a))
      else (a, True))"

definition new_alarm :: alarm where
  "new_alarm = \<lparr>al_member = 0, al_type = []\<rparr>"

text \<open>\<open>Time.UnmarshalJSON\<close>: a text that is no time leaves the zero time.\<close>

fun decode_time :: "json \<Rightarrow> instant \<Rightarrow> instant \<times> bool" where
  "decode_time (JStr s) old =
     (case parse_rfc3339 s of None \<Rightarrow> (zero_time, False) | Some t \<Rightarrow> (t, True))"
| "decode_time JNull old = (old, True)"
| "decode_time _ old = (old, False)"

definition decode_status_field :: "string \<Rightarrow> json \<Rightarrow> etcd_status \<Rightarrow> etcd_status \<times> bool" where
  "decode_status_field k v st =
     (if field_match k ''mode'' then
        apfst (\<lambda>x. st\<lparr>es_mode := x\<rparr>) (keep_old decode_string v (es_mode st))
      else if field_match k ''collectedAt'' then
        apfst (\<lambda>x. st\<lparr>es_collected := x\<rparr>) (decode_time v (es_collected st))
      else if field_match k ''reachable'' then
        apfst (\<lambda>x. st\<lparr>es_reachable := x\<rparr>) (keep_old decode_bool v (es_reachable st))
      else if field_match k ''members'' then
        apfst (\<lambda>x. st\<lparr>es_members := x\<rparr>)
          (decode_slice (decode_struct decode_member_field) (new_member []) v (es_members st))
      else if field_match k ''alarms'' then
        apfst (\<lambda>x. st\<lparr>es_alarms := x\<rparr>)
          (decode_slice (decode_struct decode_alarm_field) new_alarm v (es_alarms st))
      else if field_match k ''hasLeader'' then
        apfst (\<lambda>x. st\<lparr>es_has_leader := x\<rparr>) (keep_old decode_bool v (es_has_leader st))
      else if field_match k ''quotaBytes'' then
        apfst (\<lambda>x. st\<lparr>es_quota := x\<rparr>) (keep_old decode_int64 v (es_quota st))
      else if field_match k ''sizeBytes'' then
        apfst (\<lambda>x. st\<lparr>es_size := x\<rparr>) (keep_old decode_int64 v (es_size st))
      else if field_match k ''sizeInUseBytes'' then
        apfst (\<lambda>x. st\<lparr>es_in_use := x\<rparr>) (keep_old decode_int64 v (es_in_use st))
      else (st, True))"

text \<open>
  \<open>json.Unmarshal(line, &st)\<close>: a text that is not JSON changes nothing. The error of a time stamp
  comes from its own method and ends the decoding at once; the fields before it are set.
\<close>

definition bad_time :: "string \<times> json \<Rightarrow> bool" where
  "bad_time kv \<longleftrightarrow> field_match (fst kv) ''collectedAt'' \<and> snd (decode_time (snd kv) 0) = False"

fun cut_at_bad_time :: "(string \<times> json) list \<Rightarrow> (string \<times> json) list" where
  "cut_at_bad_time [] = []"
| "cut_at_bad_time (kv # kvs) = kv # (if bad_time kv then [] else cut_at_bad_time kvs)"

definition decode_status :: "json \<Rightarrow> etcd_status \<Rightarrow> etcd_status \<times> bool" where
  "decode_status j st =
     decode_struct decode_status_field (case j of JObj kvs \<Rightarrow> JObj (cut_at_bad_time kvs) | _ \<Rightarrow> j) st"

definition unmarshal_status :: "etcd_status \<Rightarrow> string \<Rightarrow> etcd_status \<times> bool" where
  "unmarshal_status st line =
     (case json_parse line of None \<Rightarrow> (st, False) | Some j \<Rightarrow> decode_status j st)"

subsection \<open>Reading back a status\<close>

definition int64 :: "int \<Rightarrow> bool" where "int64 n \<longleftrightarrow> - (2 ^ 63) \<le> n \<and> n < 2 ^ 63"

definition uint64 :: "int \<Rightarrow> bool" where "uint64 n \<longleftrightarrow> 0 \<le> n \<and> n < 2 ^ 64"

definition good_member :: "member_status \<Rightarrow> bool" where
  "good_member m \<longleftrightarrow> list_all utf8_string (ms_endpoint m # ms_version m # ms_errors m) \<and>
     int64 (ms_size m) \<and> int64 (ms_in_use m) \<and> uint64 (ms_leader m) \<and> uint64 (ms_raft m)"

definition good_alarm :: "alarm \<Rightarrow> bool" where
  "good_alarm a \<longleftrightarrow> uint64 (al_member a) \<and> utf8_string (al_type a)"

definition good_status :: "etcd_status \<Rightarrow> bool" where
  "good_status st \<longleftrightarrow> utf8_string (es_mode st) \<and> list_all good_member (es_members st) \<and>
     list_all good_alarm (es_alarms st) \<and> int64 (es_quota st) \<and> int64 (es_size st) \<and> int64 (es_in_use st)"

lemma keep_old_simps [simp]:
  "keep_old decode_string (JStr s) s0 = (s, True)"
  "keep_old decode_bool (JBool b) b0 = (b, True)"
  "int64 n \<Longrightarrow> keep_old decode_int64 (JInt n) n0 = (n, True)"
  "uint64 n \<Longrightarrow> keep_old decode_uint64 (JInt n) n0 = (n, True)"
  by (simp_all add: keep_old_def int64_def uint64_def)

lemma decode_fields_append:
  "decode_fields f (xs @ ys) s =
     (let (s', a) = decode_fields f xs s; (s'', b) = decode_fields f ys s' in (s'', a \<and> b))"
  by (induction xs arbitrary: s) (auto simp: case_prod_beta Let_def)

lemma decode_slice_list:
  "(\<And>x. x \<in> set xs \<Longrightarrow> dec (enc x) zero = (x, True)) \<Longrightarrow>
     decode_slice dec zero (JArr (map enc xs)) [] = (xs, True)"
  by (simp add: decode_slice_def decode_list_map)

lemma decode_omitted:
  "decode_fields f (omit_empty n s) x = (if s = [] then (x, True) else f n (JStr s) x)"
  "decode_fields f (omit_zero n i) x = (if i = 0 then (x, True) else f n (JInt i) x)"
  "decode_fields f (omit_list n js) x = (if js = [] then (x, True) else f n (JArr js) x)"
  by (simp_all add: omit_empty_def omit_zero_def omit_list_def case_prod_beta)

lemmas name_simps = field_match_def foldName_ascii byte_Char ascii_lower_def

lemma member_fields:
  "decode_member_field ''endpoint'' (JStr s) m = (m\<lparr>ms_endpoint := s\<rparr>, True)"
  "decode_member_field ''version'' (JStr s) m = (m\<lparr>ms_version := s\<rparr>, True)"
  "int64 i \<Longrightarrow> decode_member_field ''dbSize'' (JInt i) m = (m\<lparr>ms_size := i\<rparr>, True)"
  "int64 i \<Longrightarrow> decode_member_field ''dbSizeInUse'' (JInt i) m = (m\<lparr>ms_in_use := i\<rparr>, True)"
  "uint64 i \<Longrightarrow> decode_member_field ''leaderID'' (JInt i) m = (m\<lparr>ms_leader := i\<rparr>, True)"
  "uint64 i \<Longrightarrow> decode_member_field ''raftIndex'' (JInt i) m = (m\<lparr>ms_raft := i\<rparr>, True)"
  "ms_errors m = [] \<Longrightarrow> decode_member_field ''errors'' (JArr (map JStr es)) m = (m\<lparr>ms_errors := es\<rparr>, True)"
  "decode_member_field ''reachable'' (JBool b) m = (m\<lparr>ms_reachable := b\<rparr>, True)"
  by (simp_all add: decode_member_field_def name_simps decode_slice_list)

lemma decode_encode_member:
  assumes "good_member m"
  shows "decode_struct decode_member_field (encode_member m) (new_member []) = (m, True)"
  using assms
  by (cases m) (simp add: decode_struct_def encode_member_def decode_fields_append decode_omitted
      member_fields good_member_def new_member_def)

lemma alarm_fields:
  "uint64 i \<Longrightarrow> decode_alarm_field ''memberID'' (JInt i) a = (a\<lparr>al_member := i\<rparr>, True)"
  "decode_alarm_field ''type'' (JStr s) a = (a\<lparr>al_type := s\<rparr>, True)"
  by (simp_all add: decode_alarm_field_def name_simps)

lemma decode_encode_alarm:
  "good_alarm a \<Longrightarrow> decode_struct decode_alarm_field (encode_alarm a) new_alarm = (a, True)"
  by (cases a) (simp add: decode_struct_def encode_alarm_def alarm_fields good_alarm_def new_alarm_def)

lemma status_fields:
  "decode_status_field ''mode'' (JStr s) st = (st\<lparr>es_mode := s\<rparr>, True)"
  "parse_rfc3339 t = Some i \<Longrightarrow> decode_status_field ''collectedAt'' (JStr t) st = (st\<lparr>es_collected := i\<rparr>, True)"
  "decode_status_field ''reachable'' (JBool b) st = (st\<lparr>es_reachable := b\<rparr>, True)"
  "es_members st = [] \<Longrightarrow> list_all good_member ms \<Longrightarrow>
     decode_status_field ''members'' (JArr (map encode_member ms)) st = (st\<lparr>es_members := ms\<rparr>, True)"
  "es_alarms st = [] \<Longrightarrow> list_all good_alarm als \<Longrightarrow>
     decode_status_field ''alarms'' (JArr (map encode_alarm als)) st = (st\<lparr>es_alarms := als\<rparr>, True)"
  "decode_status_field ''hasLeader'' (JBool b) st = (st\<lparr>es_has_leader := b\<rparr>, True)"
  "int64 n \<Longrightarrow> decode_status_field ''quotaBytes'' (JInt n) st = (st\<lparr>es_quota := n\<rparr>, True)"
  "int64 n \<Longrightarrow> decode_status_field ''sizeBytes'' (JInt n) st = (st\<lparr>es_size := n\<rparr>, True)"
  "int64 n \<Longrightarrow> decode_status_field ''sizeInUseBytes'' (JInt n) st = (st\<lparr>es_in_use := n\<rparr>, True)"
  by (simp_all add: decode_status_field_def name_simps decode_slice_list decode_encode_member
      decode_encode_alarm list_all_iff)

text \<open>\<open>new_status [] zero_time 0\<close> is the zero \<open>Status\<close>.\<close>

lemma cut_all_good: "\<forall>kv \<in> set kvs. \<not> bad_time kv \<Longrightarrow> cut_at_bad_time kvs = kvs"
  by (induction kvs) simp_all

lemma decode_encode_status:
  assumes "good_status st" and "parse_rfc3339 t = Some (es_collected st)"
  shows "decode_status (encode_status t st) (new_status [] zero_time 0) = (st, True)"
proof -
  obtain kvs where k: "encode_status t st = JObj kvs" by (simp add: encode_status_def)
  have "\<forall>kv \<in> set kvs. \<not> bad_time kv"
    using k assms(2)
    by (auto simp: encode_status_def bad_time_def omit_list_def omit_zero_def name_simps split: if_splits)
  then have "cut_at_bad_time kvs = kvs" by (rule cut_all_good)
  then have "decode_status (encode_status t st) (new_status [] zero_time 0) =
      decode_struct decode_status_field (encode_status t st) (new_status [] zero_time 0)"
    by (simp add: decode_status_def k)
  also have "\<dots> = (st, True)"
    using assms
    by (cases st) (simp add: decode_struct_def encode_status_def decode_fields_append decode_omitted
        status_fields good_status_def new_status_def)
  finally show ?thesis .
qed

lemma member_shape:
  "integral (encode_member m)" "depth (encode_member m) \<le> 2" "good_member m \<Longrightarrow> utf8_json (encode_member m)"
proof -
  have "foldr max (map depth (map JStr es)) 0 = 0" for es
    by (simp add: o_def foldr_max_zero)
  then show "integral (encode_member m)" "depth (encode_member m) \<le> 2" "good_member m \<Longrightarrow> utf8_json (encode_member m)"
    by (auto simp: encode_member_def omit_empty_def omit_zero_def omit_list_def list_all_iff good_member_def
        utf8_ascii byte_Char simp del: map_map)
qed

lemma alarm_shape:
  "integral (encode_alarm a)" "depth (encode_alarm a) \<le> 2" "good_alarm a \<Longrightarrow> utf8_json (encode_alarm a)"
  by (simp_all add: encode_alarm_def good_alarm_def utf8_ascii byte_Char)

lemma status_shape:
  "integral (encode_status t st)" "depth (encode_status t st) \<le> 10000"
  "good_status st \<Longrightarrow> utf8_string t \<Longrightarrow> utf8_json (encode_status t st)"
proof -
  have m: "foldr max (map depth (map encode_member ms)) 0 \<le> 2" for ms
    by (induction ms) (simp_all add: member_shape)
  have a: "foldr max (map depth (map encode_alarm als)) 0 \<le> 2" for als
    by (induction als) (simp_all add: alarm_shape)
  show "integral (encode_status t st)" "depth (encode_status t st) \<le> 10000"
    "good_status st \<Longrightarrow> utf8_string t \<Longrightarrow> utf8_json (encode_status t st)"
    using m [of "es_members st"] a [of "es_alarms st"]
    by (auto simp: encode_status_def omit_zero_def omit_list_def list_all_iff good_status_def
        utf8_ascii byte_Char member_shape alarm_shape simp del: map_map)
qed

text \<open>
  The probe's line: the JSON struct whose good values are the statuses with a time stamp that is
  the text of their instant.
\<close>

interpretation sj: json_struct
  "\<lambda>(t, st). encode_status t st"
  "\<lambda>j. case decode_status j (new_status [] zero_time 0) of (st, ok) \<Rightarrow> if ok then Some st else None"
  "\<lambda>(t, st). good_status st \<and> utf8_string t \<and> parse_rfc3339 t = Some (es_collected st)"
  "\<lambda>(t, st). st"
  by (unfold_locales; clarsimp simp: status_shape decode_encode_status)

lemma unmarshal_marshal:
  assumes "good_status st" and "json_time off (es_collected st) = Some t" and "60 dvd off"
  shows "unmarshal_status (new_status [] zero_time 0) (Marshal (encode_status t st)) = (st, True)"
proof -
  have "utf8_string t"
    using printable_json_time [OF assms(2)] by (intro utf8_ascii) (auto simp: printable_def list_all_iff byte_def)
  then show ?thesis
    using sj.parse_enc(1) [of "(t, st)"] assms json_time_parses [OF assms(2,3)]
    by (simp add: unmarshal_status_def decode_encode_status)
qed

lemma status_line:
  assumes "good_status st"
  shows "Marshal (encode_status t st) \<noteq> []" and "hd (Marshal (encode_status t st)) = CHR ''{''"
    and "last (Marshal (encode_status t st)) = CHR ''}''" and "CHR 0x0A \<notin> set (Marshal (encode_status t st))"
proof -
  obtain kvs where k: "encode_status t st = JObj kvs" "kvs \<noteq> []" by (simp add: encode_status_def)
  have "integral (JObj kvs)" using status_shape(1) [of t st] k(1) by simp
  from Marshal_object [OF this k(2)] show "Marshal (encode_status t st) \<noteq> []"
    "hd (Marshal (encode_status t st)) = CHR ''{''" "last (Marshal (encode_status t st)) = CHR ''}''"
    "CHR 0x0A \<notin> set (Marshal (encode_status t st))"
    by (simp_all add: k(1))
qed

end
