(* ===== verification/EtcdCtl.thy ===== *)
theory EtcdCtl
  imports EtcdStatus
begin

section \<open>The JSON of etcdctl (the decoders of internal/etcd/podexec.go)\<close>

text \<open>
  The three shapes that the pod-exec mode decodes with \<open>json.Unmarshal\<close> into a fresh variable:
  \<open>statusJSON\<close>, \<open>memberListJSON\<close> and \<open>alarmListJSON\<close>. A field of the wrong type makes the whole
  call an error, which the callers answer by giving up on the text.
\<close>

definition unmarshal_fresh :: "(json \<Rightarrow> 'a \<Rightarrow> 'a \<times> bool) \<Rightarrow> 'a \<Rightarrow> string \<Rightarrow> 'a option" where
  "unmarshal_fresh dec zero s =
     (case json_parse s of
        None \<Rightarrow> None
      | Some j \<Rightarrow> (case dec j zero of (x, ok) \<Rightarrow> if ok then Some x else None))"

subsection \<open>endpoint status\<close>

record ctl_header =
  ch_member_id :: int
  ch_raft_term :: int

record ctl_status =
  cs_header :: ctl_header
  cs_version :: string
  cs_size :: int
  cs_in_use :: int
  cs_quota :: int
  cs_leader :: int
  cs_raft :: int
  cs_applied :: int

record ctl_entry =
  ce_endpoint :: string
  ce_status :: ctl_status

definition ctl_entry0 :: ctl_entry where
  "ctl_entry0 = \<lparr>ce_endpoint = [], ce_status = \<lparr>cs_header = \<lparr>ch_member_id = 0, ch_raft_term = 0\<rparr>,
     cs_version = [], cs_size = 0, cs_in_use = 0, cs_quota = 0, cs_leader = 0, cs_raft = 0, cs_applied = 0\<rparr>\<rparr>"

definition decode_header_field :: "string \<Rightarrow> json \<Rightarrow> ctl_header \<Rightarrow> ctl_header \<times> bool" where
  "decode_header_field k v h =
     (if field_match k ''member_id'' then
        apfst (\<lambda>x. h\<lparr>ch_member_id := x\<rparr>) (keep_old decode_uint64 v (ch_member_id h))
      else if field_match k ''raft_term'' then
        apfst (\<lambda>x. h\<lparr>ch_raft_term := x\<rparr>) (keep_old decode_uint64 v (ch_raft_term h))
      else (h, True))"

definition decode_ctl_status_field :: "string \<Rightarrow> json \<Rightarrow> ctl_status \<Rightarrow> ctl_status \<times> bool" where
  "decode_ctl_status_field k v s =
     (if field_match k ''header'' then
        apfst (\<lambda>x. s\<lparr>cs_header := x\<rparr>) (decode_struct decode_header_field v (cs_header s))
      else if field_match k ''version'' then
        apfst (\<lambda>x. s\<lparr>cs_version := x\<rparr>) (keep_old decode_string v (cs_version s))
      else if field_match k ''dbSize'' then
        apfst (\<lambda>x. s\<lparr>cs_size := x\<rparr>) (keep_old decode_int64 v (cs_size s))
      else if field_match k ''dbSizeInUse'' then
        apfst (\<lambda>x. s\<lparr>cs_in_use := x\<rparr>) (keep_old decode_int64 v (cs_in_use s))
      else if field_match k ''dbSizeQuota'' then
        apfst (\<lambda>x. s\<lparr>cs_quota := x\<rparr>) (keep_old decode_int64 v (cs_quota s))
      else if field_match k ''leader'' then
        apfst (\<lambda>x. s\<lparr>cs_leader := x\<rparr>) (keep_old decode_uint64 v (cs_leader s))
      else if field_match k ''raftIndex'' then
        apfst (\<lambda>x. s\<lparr>cs_raft := x\<rparr>) (keep_old decode_uint64 v (cs_raft s))
      else if field_match k ''raftAppliedIndex'' then
        apfst (\<lambda>x. s\<lparr>cs_applied := x\<rparr>) (keep_old decode_uint64 v (cs_applied s))
      else (s, True))"

definition decode_entry_field :: "string \<Rightarrow> json \<Rightarrow> ctl_entry \<Rightarrow> ctl_entry \<times> bool" where
  "decode_entry_field k v e =
     (if field_match k ''Endpoint'' then
        apfst (\<lambda>x. e\<lparr>ce_endpoint := x\<rparr>) (keep_old decode_string v (ce_endpoint e))
      else if field_match k ''Status'' then
        apfst (\<lambda>x. e\<lparr>ce_status := x\<rparr>) (decode_struct decode_ctl_status_field v (ce_status e))
      else (e, True))"

definition parse_status_json :: "string \<Rightarrow> ctl_entry list option" where
  "parse_status_json = unmarshal_fresh (decode_slice (decode_struct decode_entry_field) ctl_entry0) []"

subsection \<open>member list\<close>

record ctl_member =
  cm_id :: int
  cm_name :: string
  cm_peers :: "string list"
  cm_clients :: "string list"

definition ctl_member0 :: ctl_member where
  "ctl_member0 = \<lparr>cm_id = 0, cm_name = [], cm_peers = [], cm_clients = []\<rparr>"

definition decode_ctl_member_field :: "string \<Rightarrow> json \<Rightarrow> ctl_member \<Rightarrow> ctl_member \<times> bool" where
  "decode_ctl_member_field k v m =
     (if field_match k ''ID'' then
        apfst (\<lambda>x. m\<lparr>cm_id := x\<rparr>) (keep_old decode_uint64 v (cm_id m))
      else if field_match k ''name'' then
        apfst (\<lambda>x. m\<lparr>cm_name := x\<rparr>) (keep_old decode_string v (cm_name m))
      else if field_match k ''peerURLs'' then
        apfst (\<lambda>x. m\<lparr>cm_peers := x\<rparr>) (decode_slice (keep_old decode_string) [] v (cm_peers m))
      else if field_match k ''clientURLs'' then
        apfst (\<lambda>x. m\<lparr>cm_clients := x\<rparr>) (decode_slice (keep_old decode_string) [] v (cm_clients m))
      else (m, True))"

definition decode_members_field :: "string \<Rightarrow> json \<Rightarrow> ctl_member list \<Rightarrow> ctl_member list \<times> bool" where
  "decode_members_field k v ms =
     (if field_match k ''members'' then decode_slice (decode_struct decode_ctl_member_field) ctl_member0 v ms
      else (ms, True))"

definition parse_members_json :: "string \<Rightarrow> ctl_member list option" where
  "parse_members_json = unmarshal_fresh (decode_struct decode_members_field) []"

subsection \<open>alarm list\<close>

definition decode_ctl_alarm_field :: "string \<Rightarrow> json \<Rightarrow> alarm \<Rightarrow> alarm \<times> bool" where
  "decode_ctl_alarm_field k v a =
     (if field_match k ''memberID'' then
        apfst (\<lambda>x. a\<lparr>al_member := x\<rparr>) (keep_old decode_uint64 v (al_member a))
      else if field_match k ''alarm'' then
        apfst (\<lambda>x. a\<lparr>al_type := x\<rparr>) (keep_old decode_string v (al_type a))
      else (a, True))"

definition decode_alarms_field :: "string \<Rightarrow> json \<Rightarrow> alarm list \<Rightarrow> alarm list \<times> bool" where
  "decode_alarms_field k v als =
     (if field_match k ''alarms'' then decode_slice (decode_struct decode_ctl_alarm_field) new_alarm v als
      else (als, True))"

definition parse_alarms_json :: "string \<Rightarrow> alarm list option" where
  "parse_alarms_json = unmarshal_fresh (decode_struct decode_alarms_field) []"

subsection \<open>Reading what etcdctl prints\<close>

text \<open>
  \<open>etcdctl alarm list -w json\<close> prints the reply of the server as one line: a header and an array
  of alarms, each with a member and its type, a JSON value \<open>t\<close> that is left open here.
\<close>

definition reply_header :: "int \<Rightarrow> int \<Rightarrow> int \<Rightarrow> json" where
  "reply_header cluster member_id term =
     JObj [(''cluster_id'', JInt cluster), (''member_id'', JInt member_id), (''raft_term'', JInt term)]"

definition alarm_reply :: "json \<Rightarrow> (int \<times> json) list \<Rightarrow> json" where
  "alarm_reply h als =
     JObj [(''header'', h), (''alarms'', JArr (map (\<lambda>(m, t). JObj [(''memberID'', JInt m), (''alarm'', t)]) als))]"

lemma print_reply_parses:
  assumes "integral j" and "depth j \<le> 10000" and "utf8_json j"
  shows "json_parse (Marshal j @ [CHR 0x0A]) = Some j"
  using parse_print_line [OF assms(1,2), of False] assms(3) by (simp add: Marshal_def clean_utf8)

lemma alarm_entry_decodes:
  "uint64 m \<Longrightarrow> decode_struct decode_ctl_alarm_field (JObj [(''memberID'', JInt m), (''alarm'', JStr t)]) a =
     (\<lparr>al_member = m, al_type = t\<rparr>, True)"
  "snd (decode_struct decode_ctl_alarm_field (JObj [(''memberID'', JInt m), (''alarm'', JInt n)]) a) = False"
  by (simp_all add: decode_struct_def decode_ctl_alarm_field_def name_simps)
    (simp_all add: keep_old_def)

lemma decode_list_fails:
  "j \<in> set js \<Longrightarrow> (\<And>a. snd (dec j a) = False) \<Longrightarrow> snd (decode_list dec zero js old) = False"
proof (induction js arbitrary: old)
  case (Cons x xs)
  then show ?case by (auto simp: case_prod_beta Let_def)
qed simp

lemma alarm_reply_fields:
  "parse_alarms_json s = (case json_parse s of None \<Rightarrow> None | Some j \<Rightarrow>
     (case decode_struct decode_alarms_field j [] of (x, ok) \<Rightarrow> if ok then Some x else None))"
  "decode_struct decode_alarms_field (alarm_reply h als) [] =
     decode_slice (decode_struct decode_ctl_alarm_field) new_alarm
       (JArr (map (\<lambda>(m, t). JObj [(''memberID'', JInt m), (''alarm'', t)]) als)) []"
  by (simp_all add: parse_alarms_json_def unmarshal_fresh_def alarm_reply_def decode_struct_def
      decode_alarms_field_def name_simps)

lemma string_alarms_read:
  assumes "json_parse s = Some (alarm_reply h (map (\<lambda>a. (al_member a, JStr (al_type a))) als))"
    and "list_all good_alarm als"
  shows "parse_alarms_json s = Some als"
proof -
  have "decode_slice (decode_struct decode_ctl_alarm_field) new_alarm
      (JArr (map (\<lambda>a. JObj [(''memberID'', JInt (al_member a)), (''alarm'', JStr (al_type a))]) als)) [] = (als, True)"
    using assms(2) by (intro decode_slice_list) (auto simp: alarm_entry_decodes good_alarm_def list_all_iff)
  then show ?thesis by (simp add: alarm_reply_fields assms(1) o_def)
qed

lemma number_alarms_fail:
  assumes "json_parse s = Some (alarm_reply h als)" and "(m, JInt n) \<in> set als"
  shows "parse_alarms_json s = None"
proof -
  have "snd (decode_list (decode_struct decode_ctl_alarm_field)  new_alarm
      (map (\<lambda>(m, t). JObj [(''memberID'', JInt m), (''alarm'', t)]) als) []) = False"
    using assms(2) alarm_entry_decodes(2) by (intro decode_list_fails) (force simp: image_iff)+
  then show ?thesis
    by (auto simp: alarm_reply_fields assms(1) decode_slice_def split: prod.splits)
qed

end
