(* ===== verification/Etcd.thy ===== *)
theory Etcd
  imports EtcdCtl
begin

section \<open>Reading etcd: the four modes and the fallback (internal/etcd)\<close>

text \<open>
  \<open>Collect\<close> and its modes: direct gRPC (\<open>collectDirect\<close>), \<open>etcdctl\<close> in the etcd pods
  (\<open>PodExec\<close>), a probe job (\<open>InClusterJob\<close>, whose pod runs \<open>etcd-probe\<close>) and the API
  server's \<open>/readyz\<close> (\<open>ViaAPIServer\<close>). A Go result \<open>(*Status, error)\<close> is a pair of
  options. The clients (etcd, Kubernetes, exec) and the clock are parameters: records of what
  each call returns; the JSON texts are decoded by the model. Sizes are \<open>int64\<close>, so sums wrap.
\<close>

subsection \<open>Errors and options\<close>

text \<open>An error of the package: whether \<open>errors.Is(err, ErrUnavailable)\<close>, and its text.\<close>

datatype etcd_error = Unavailable string | OtherErr string

fun err_text :: "etcd_error \<Rightarrow> string" where
  "err_text (Unavailable s) = s"
| "err_text (OtherErr s) = s"

definition ErrUnavailable :: string where
  "ErrUnavailable = ''etcd: not reachable in this mode''"

definition unavailable :: "string \<Rightarrow> etcd_error" where
  "unavailable s = Unavailable (ErrUnavailable @ '': '' @ s)"

type_synonym etcd_result = "etcd_status option \<times> etcd_error option"

record etcd_options =
  eo_mode :: string
  eo_endpoints :: "string list"
  eo_ca :: string
  eo_cert :: string
  eo_key :: string
  eo_quota :: int
  eo_dial_timeout :: duration
  eo_job_image :: string
  eo_job_namespace :: string

subsection \<open>Direct mode\<close>

record direct_world =
  dw_tls_config :: "string \<Rightarrow> string \<Rightarrow> string \<Rightarrow> string option"
  dw_new_client :: "string list \<Rightarrow> string option"
  dw_member_list :: "string option"
  dw_status :: "string \<Rightarrow> string + member_status"
  dw_alarms :: "alarm list option"
  dw_now :: instant

definition buildTLS :: "direct_world \<Rightarrow> etcd_options \<Rightarrow> string option" where
  "buildTLS w opts =
     (if eo_ca opts = [] \<and> eo_cert opts = [] \<and> eo_key opts = [] then None
      else if eo_ca opts = [] \<or> eo_cert opts = [] \<or> eo_key opts = [] then
        Some ''--etcd-cacert, --etcd-cert and --etcd-key must all be set together''
      else dw_tls_config w (eo_cert opts) (eo_key opts) (eo_ca opts))"

definition add_member :: "member_status \<Rightarrow> etcd_status \<Rightarrow> etcd_status" where
  "add_member ms st = st\<lparr>es_members := es_members st @ [ms]\<rparr>"

definition add_reachable :: "member_status \<Rightarrow> etcd_status \<Rightarrow> etcd_status" where
  "add_reachable ms st =
     add_member ms (st\<lparr>es_size := wrap64 (es_size st + ms_size ms),
        es_in_use := wrap64 (es_in_use st + ms_in_use ms),
        es_has_leader := (if ms_leader ms \<noteq> 0 then True else es_has_leader st),
        es_reachable := True\<rparr>)"

fun direct_loop :: "direct_world \<Rightarrow> string list \<Rightarrow> etcd_status \<Rightarrow> etcd_status" where
  "direct_loop w [] st = st"
| "direct_loop w (ep # eps) st =
     direct_loop w eps
       (case dw_status w ep of
          Inl e \<Rightarrow> add_member ((new_member ep)\<lparr>ms_errors := [e]\<rparr>) st
        | Inr s \<Rightarrow> add_reachable (s\<lparr>ms_endpoint := ep, ms_errors := [], ms_reachable := True\<rparr>) st)"

definition collectDirect :: "direct_world \<Rightarrow> etcd_options \<Rightarrow> etcd_result" where
  "collectDirect w opts =
     (if eo_endpoints opts = [] then
        (None, Some (unavailable ''direct mode requires --etcd-endpoints''))
      else case buildTLS w opts of
        Some e \<Rightarrow> (None, Some (OtherErr (''etcd: tls: '' @ e)))
      | None \<Rightarrow>
     (case dw_new_client w (eo_endpoints opts) of
        Some e \<Rightarrow> (None, Some (unavailable e))
      | None \<Rightarrow>
     (case dw_member_list w of
        Some e \<Rightarrow> (None, Some (unavailable (''member list: '' @ e)))
      | None \<Rightarrow>
          let st = direct_loop w (eo_endpoints opts) (new_status EtcdDirect (dw_now w) (eo_quota opts));
              st = (case dw_alarms w of
                      Some als \<Rightarrow> st\<lparr>es_alarms := es_alarms st @ als\<rparr>
                    | None \<Rightarrow> st)
          in if \<not> es_reachable st then
               (Some st, Some (unavailable ''no member responded to Status()''))
             else (Some st, None))))"

subsection \<open>etcdctl in the etcd pods\<close>

record cert_candidate =
  cc_ca :: string
  cc_cert :: string
  cc_key :: string

definition etcdCertCandidates :: "cert_candidate list" where
  "etcdCertCandidates =
     [\<lparr>cc_ca = ''/var/lib/rancher/rke2/server/tls/etcd/server-ca.crt'',
       cc_cert = ''/var/lib/rancher/rke2/server/tls/etcd/server-client.crt'',
       cc_key = ''/var/lib/rancher/rke2/server/tls/etcd/server-client.key''\<rparr>,
      \<lparr>cc_ca = ''/var/lib/rancher/k3s/server/tls/etcd/server-ca.crt'',
       cc_cert = ''/var/lib/rancher/k3s/server/tls/etcd/server-client.crt'',
       cc_key = ''/var/lib/rancher/k3s/server/tls/etcd/server-client.key''\<rparr>,
      \<lparr>cc_ca = ''/etc/kubernetes/pki/etcd/ca.crt'',
       cc_cert = ''/etc/kubernetes/pki/etcd/server.crt'',
       cc_key = ''/etc/kubernetes/pki/etcd/server.key''\<rparr>,
      \<lparr>cc_ca = ''/etc/kubernetes/pki/etcd/ca.crt'',
       cc_cert = ''/etc/kubernetes/pki/etcd/peer.crt'',
       cc_key = ''/etc/kubernetes/pki/etcd/peer.key''\<rparr>]"

text \<open>
  \<open>pw_exec n pod command\<close> is the output of the command in the pod, \<open>None\<close> for an error; \<open>n\<close> tells
  the calls apart that run the same command twice.
\<close>

record pod_world =
  pw_config :: bool
  pw_pods :: "string + string list"
  pw_exec :: "nat \<Rightarrow> string \<Rightarrow> string list \<Rightarrow> string option"
  pw_now :: instant

definition execEtcdctl ::
  "pod_world \<Rightarrow> nat \<Rightarrow> string \<Rightarrow> cert_candidate \<Rightarrow> string list \<Rightarrow> string option" where
  "execEtcdctl w n pod c args = pw_exec w n pod
     ([''etcdctl'', ''--endpoints=https://127.0.0.1:2379'', ''--cacert='' @ cc_ca c,
       ''--cert='' @ cc_cert c, ''--key='' @ cc_key c] @ args)"

definition status_args :: "string list" where
  "status_args = [''endpoint'', ''status'', ''-w'', ''json'']"

definition alarm_args :: "string list" where
  "alarm_args = [''alarm'', ''list'', ''-w'', ''json'']"

definition member_of_entry :: "string \<Rightarrow> ctl_entry \<Rightarrow> member_status" where
  "member_of_entry pod e =
     (let s = ce_status e in
      \<lparr>ms_endpoint = pod, ms_version = cs_version s, ms_size = cs_size s, ms_in_use = cs_in_use s,
       ms_leader = cs_leader s, ms_raft = cs_raft s, ms_errors = [], ms_reachable = True\<rparr>)"

fun try_certs :: "pod_world \<Rightarrow> string \<Rightarrow> cert_candidate list \<Rightarrow> (cert_candidate \<times> member_status) option" where
  "try_certs w pod [] = None"
| "try_certs w pod (c # cs) =
     (case execEtcdctl w 0 pod c status_args of
        None \<Rightarrow> try_certs w pod cs
      | Some out \<Rightarrow>
          (case parse_status_json out of
             None \<Rightarrow> try_certs w pod cs
           | Some [] \<Rightarrow> try_certs w pod cs
           | Some (s # ss) \<Rightarrow> Some (c, member_of_entry pod s)))"

definition podStatus :: "pod_world \<Rightarrow> string \<Rightarrow> string + cert_candidate \<times> member_status" where
  "podStatus w pod =
     (case try_certs w pod etcdCertCandidates of
        None \<Rightarrow> Inl (''no cert candidate worked for pod '' @ pod)
      | Some r \<Rightarrow> Inr r)"

definition fetchQuota :: "pod_world \<Rightarrow> string \<Rightarrow> cert_candidate \<Rightarrow> int" where
  "fetchQuota w pod c =
     (case execEtcdctl w 1 pod c status_args of
        None \<Rightarrow> 0
      | Some out \<Rightarrow>
          (case parse_status_json out of
             None \<Rightarrow> 0
           | Some [] \<Rightarrow> 0
           | Some (s # ss) \<Rightarrow> cs_quota (ce_status s)))"

definition fetchAlarms :: "pod_world \<Rightarrow> string \<Rightarrow> cert_candidate \<Rightarrow> alarm list" where
  "fetchAlarms w pod c =
     (case execEtcdctl w 0 pod c alarm_args of
        None \<Rightarrow> []
      | Some out \<Rightarrow>
          (if trim_space out = [] then []
           else case parse_alarms_json out of None \<Rightarrow> [] | Some als \<Rightarrow> als))"

text \<open>\<open>FetchMemberCount\<close>, exported and called by nothing: the first non-empty member list.\<close>

definition member_args :: "string list" where
  "member_args = [''member'', ''list'', ''-w'', ''json'']"

fun count_by_certs :: "pod_world \<Rightarrow> string \<Rightarrow> cert_candidate list \<Rightarrow> nat option" where
  "count_by_certs w pod [] = None"
| "count_by_certs w pod (c # cs) =
     (case execEtcdctl w 0 pod c member_args of
        None \<Rightarrow> count_by_certs w pod cs
      | Some out \<Rightarrow>
          (case parse_members_json out of
             None \<Rightarrow> count_by_certs w pod cs
           | Some ms \<Rightarrow> if length ms > 0 then Some (length ms) else count_by_certs w pod cs))"

fun count_by_pods :: "pod_world \<Rightarrow> string list \<Rightarrow> nat" where
  "count_by_pods w [] = 0"
| "count_by_pods w (pod # pods) =
     (case count_by_certs w pod etcdCertCandidates of Some n \<Rightarrow> n | None \<Rightarrow> count_by_pods w pods)"

definition FetchMemberCount :: "pod_world \<Rightarrow> nat" where
  "FetchMemberCount w = (case pw_pods w of Inl e \<Rightarrow> 0 | Inr pods \<Rightarrow> count_by_pods w pods)"

fun pods_loop :: "pod_world \<Rightarrow> string list \<Rightarrow> bool \<Rightarrow> etcd_status \<Rightarrow> etcd_status" where
  "pods_loop w [] fetched st = st"
| "pods_loop w (pod # pods) fetched st =
     (case podStatus w pod of
        Inl e \<Rightarrow> pods_loop w pods fetched (add_member ((new_member pod)\<lparr>ms_errors := [e]\<rparr>) st)
      | Inr (certs, perPod) \<Rightarrow>
          let st = add_reachable perPod st in
          if \<not> fetched then
            pods_loop w pods True
              (st\<lparr>es_quota := fetchQuota w pod certs, es_alarms := fetchAlarms w pod certs\<rparr>)
          else pods_loop w pods fetched st)"

definition PodExec :: "pod_world \<Rightarrow> etcd_options \<Rightarrow> etcd_result" where
  "PodExec w opts =
     (if \<not> pw_config w then (None, Some (unavailable ''pod-exec needs a rest.Config''))
      else case pw_pods w of
        Inl e \<Rightarrow> (None, Some (unavailable (''list etcd pods: '' @ e)))
      | Inr [] \<Rightarrow> (None, Some (unavailable ''no pods component=etcd in kube-system''))
      | Inr pods \<Rightarrow>
          let st = pods_loop w pods False (new_status EtcdPodExec (pw_now w) 0) in
          if \<not> es_reachable st then
            (Some st, Some (unavailable ''no etcd pod responded to endpoint status''))
          else if es_quota st = 0 then (Some (st\<lparr>es_quota := eo_quota opts\<rparr>), None)
          else (Some st, None))"

subsection \<open>The API server's readiness report\<close>

record api_world =
  aw_rest :: bool
  aw_readyz :: "string + string"
  aw_now :: instant

text \<open>
  The tokens of a \<open>bufio.Scanner\<close>: lines without their end (\<open>\n\<close> or \<open>\r\n\<close>), up to the
  first one that does not fit in its buffer of 65536 bytes.
\<close>

definition drop_cr :: "string \<Rightarrow> string" where
  "drop_cr l = (if l \<noteq> [] \<and> last l = CHR 0x0D then butlast l else l)"

definition scan_lines :: "string \<Rightarrow> string list" where
  "scan_lines s =
     (let ls = split_on (CHR 0x0A) s;
          ls = (if last ls = [] then butlast ls else ls)
      in map drop_cr (takeWhile (\<lambda>l. length l < 65536) ls))"

fun readyz_loop :: "string list \<Rightarrow> bool \<Rightarrow> bool \<Rightarrow> bool \<times> bool" where
  "readyz_loop [] seen healthy = (seen, healthy)"
| "readyz_loop (l # ls) seen healthy =
     (let line = trim_space l in
      if \<not> has_substring line ''etcd'' then readyz_loop ls seen healthy
      else if take 3 line = ''[+]'' then readyz_loop ls True True
      else readyz_loop ls True healthy)"

definition parseReadyzEtcd :: "string \<Rightarrow> bool \<times> bool" where
  "parseReadyzEtcd body = readyz_loop (scan_lines body) False False"

definition ViaAPIServer :: "api_world \<Rightarrow> etcd_options \<Rightarrow> etcd_result" where
  "ViaAPIServer w opts =
     (if \<not> aw_rest w then (None, Some (unavailable ''no REST client available''))
      else case aw_readyz w of
        Inl e \<Rightarrow> (None, Some (unavailable e))
      | Inr body \<Rightarrow>
          let st = new_status EtcdViaAPIServer (aw_now w) (eo_quota opts);
              (etcdSeen, etcdHealthy) = parseReadyzEtcd body
          in if \<not> etcdSeen then (Some st, Some (unavailable ''/readyz had no etcd lines''))
             else (Some (st\<lparr>es_reachable := etcdHealthy, es_has_leader := etcdHealthy\<rparr>), None))"

subsection \<open>The probe job\<close>

text \<open>
  What one turn of the waiting loop sees: the context is done, listing the pods failed or
  found none, or the first pod with its phase. \<open>jw_polls\<close> are the turns up to the deadline,
  \<open>jw_now\<close> is the Unix time in seconds when the job is created.
  The result carries the calls that change the cluster: the job created and deleted. Of the
  manifest's Kubernetes types the records keep what \<open>buildEtcdProbeJob\<close> sets.
\<close>

record pod_manifest =
  pm_restart :: string
  pm_host_network :: bool
  pm_tolerate_all :: bool
  pm_node_selector :: "(string \<times> string) list"
  pm_run_as_user :: int
  pm_container :: string
  pm_image :: string
  pm_command :: "string list"
  pm_mounts :: "(string \<times> string \<times> bool) list"
  pm_host_dirs :: "(string \<times> string) list"

record job_manifest =
  jm_name :: string
  jm_namespace :: string
  jm_labels :: "(string \<times> string) list"
  jm_backoff_limit :: int
  jm_ttl_seconds :: int
  jm_completions :: int
  jm_parallelism :: int
  jm_pod :: pod_manifest

definition buildEtcdProbeJob :: "string \<Rightarrow> string \<Rightarrow> string \<Rightarrow> job_manifest" where
  "buildEtcdProbeJob name ns img =
     \<lparr>jm_name = name, jm_namespace = ns,
      jm_labels = [(''app.kubernetes.io/name'', ''khealth''), (''app.kubernetes.io/component'', ''etcd-probe'')],
      jm_backoff_limit = 0, jm_ttl_seconds = 1, jm_completions = 1, jm_parallelism = 1,
      jm_pod = \<lparr>pm_restart = ''Never'', pm_host_network = True, pm_tolerate_all = True,
        pm_node_selector = [(''node-role.kubernetes.io/control-plane'', [])], pm_run_as_user = 0,
        pm_container = ''probe'', pm_image = img,
        pm_command = [''/usr/local/bin/khealth'', ''etcd-probe''],
        pm_mounts = [(''etcd-pki'', ''/etc/kubernetes/pki/etcd'', True)],
        pm_host_dirs = [(''etcd-pki'', ''/etc/kubernetes/pki/etcd'')]\<rparr>\<rparr>"

datatype poll = PollDone string | PollNone | PollPod string string

record job_world =
  jw_now :: int
  jw_create :: "string option"
  jw_polls :: "poll list"
  jw_logs :: "string \<Rightarrow> string + string"
  jw_read_error :: "string option"

datatype job_action = CreateJob string job_manifest | DeleteJob string string

fun poll_loop :: "poll list \<Rightarrow> string \<Rightarrow> etcd_error + string" where
  "poll_loop [] podName = Inr podName"
| "poll_loop (PollDone e # ps) podName = Inl (OtherErr e)"
| "poll_loop (PollNone # ps) podName = poll_loop ps podName"
| "poll_loop (PollPod n phase # ps) podName =
     (if phase = ''Succeeded'' \<or> phase = ''Failed'' then Inr n else poll_loop ps n)"

fun probe_lines :: "job_world \<Rightarrow> string list \<Rightarrow> etcd_status \<Rightarrow> etcd_status option" where
  "probe_lines w [] st = None"
| "probe_lines w (l # ls) st =
     (let line = trim_space l in
      if take 1 line \<noteq> ''{'' then probe_lines w ls st
      else let (st', ok) = unmarshal_status st line in
        if ok \<and> es_collected st' \<noteq> zero_time then Some (st'\<lparr>es_mode := EtcdInClusterJob\<rparr>)
        else probe_lines w ls st')"

definition read_probe :: "job_world \<Rightarrow> etcd_result" where
  "read_probe w =
     (case poll_loop (jw_polls w) [] of
        Inl e \<Rightarrow> (None, Some e)
      | Inr podName \<Rightarrow>
          if podName = [] then (None, Some (unavailable ''probe pod never appeared''))
          else case jw_logs w podName of
            Inl e \<Rightarrow> (None, Some (unavailable (''get probe logs: '' @ e)))
          | Inr raw \<Rightarrow>
              (case jw_read_error w of
                 Some e \<Rightarrow> (None, Some (unavailable (''read probe logs: '' @ e)))
               | None \<Rightarrow>
                   (case probe_lines w (split_on (CHR 0x0A) raw) (new_status [] zero_time 0) of
                      Some st \<Rightarrow> (Some st, None)
                    | None \<Rightarrow> (None, Some (unavailable ''probe produced no parseable JSON line'')))))"

definition probe_job_name :: "int \<Rightarrow> string" where
  "probe_job_name now = ''khealth-etcd-probe-'' @ itoa now"

definition InClusterJob :: "job_world \<Rightarrow> etcd_options \<Rightarrow> etcd_result \<times> job_action list" where
  "InClusterJob w opts =
     (if eo_job_image opts = [] then
        ((None, Some (unavailable ''--launch-mode in-cluster needs --etcd-job-image'')), [])
      else
        let ns = (if eo_job_namespace opts = [] then ''kube-system'' else eo_job_namespace opts) in
        case jw_create w of
          Some e \<Rightarrow> ((None, Some (unavailable (''create probe job: '' @ e))), [])
        | None \<Rightarrow>
            let jobName = probe_job_name (jw_now w) in
            (read_probe w,
             [CreateJob ns (buildEtcdProbeJob jobName ns (eo_job_image opts)), DeleteJob ns jobName]))"

subsection \<open>Choosing a mode\<close>

record reachers =
  re_direct :: direct_world
  re_job :: "(etcd_options \<Rightarrow> etcd_result) option"
  re_api :: "(etcd_options \<Rightarrow> etcd_result) option"
  re_pod :: "(etcd_options \<Rightarrow> etcd_result) option"

text \<open>What \<open>collectEtcdFor\<close> has at hand: etcd itself and three uses of the Kubernetes client.\<close>

record etcd_clients =
  ec_direct :: direct_world
  ec_job :: job_world
  ec_api :: api_world
  ec_pod :: pod_world

text \<open>One rung of the ladder: a result without error or with another error is final.\<close>

definition attempt :: "etcd_result \<Rightarrow> etcd_result \<Rightarrow> etcd_result" where
  "attempt r next_mode =
     (case snd r of
        None \<Rightarrow> (fst r, None)
      | Some (OtherErr e) \<Rightarrow> r
      | Some (Unavailable e) \<Rightarrow> next_mode)"

definition collectAuto :: "reachers \<Rightarrow> etcd_options \<Rightarrow> etcd_result" where
  "collectAuto re opts =
     (let last_mode = (case re_api re of
             Some f \<Rightarrow> f opts | None \<Rightarrow> (None, Some (Unavailable ErrUnavailable)));
          via_job = (case re_job re of Some f \<Rightarrow> attempt (f opts) last_mode | None \<Rightarrow> last_mode);
          via_pod = (case re_pod re of Some f \<Rightarrow> attempt (f opts) via_job | None \<Rightarrow> via_job)
      in if eo_endpoints opts \<noteq> [] then attempt (collectDirect (re_direct re) opts) via_pod
         else via_pod)"

definition call_reacher :: "(etcd_options \<Rightarrow> etcd_result) option \<Rightarrow> etcd_options \<Rightarrow> etcd_result option" where
  "call_reacher f opts = (case f of None \<Rightarrow> None | Some g \<Rightarrow> Some (g opts))"

text \<open>\<open>None\<close> is the panic of calling a nil reacher in an explicit mode.\<close>

definition Collect :: "reachers \<Rightarrow> etcd_options \<Rightarrow> etcd_result option" where
  "Collect re opts0 =
     (let opts = (if eo_quota opts0 = 0 then opts0\<lparr>eo_quota := 8 * 1024 * 1024 * 1024\<rparr> else opts0);
          opts = (if eo_dial_timeout opts = 0 then opts\<lparr>eo_dial_timeout := 10 * Second\<rparr> else opts);
          mode = eo_mode opts
      in if mode = EtcdDirect then Some (collectDirect (re_direct re) opts)
         else if mode = EtcdInClusterJob then call_reacher (re_job re) opts
         else if mode = EtcdViaAPIServer then call_reacher (re_api re) opts
         else if mode = EtcdPodExec then
           (case re_pod re of
              None \<Rightarrow> Some (None, Some (unavailable ''pod-exec reacher not configured''))
            | Some f \<Rightarrow> Some (f opts))
         else if mode = EtcdAuto \<or> mode = [] then Some (collectAuto re opts)
         else Some (None, Some (OtherErr (''etcd: unknown mode '' @ mode))))"

subsection \<open>The hidden etcd-probe command (cli/etcd_probe.go)\<close>

text \<open>
  \<open>env\<close> is \<open>KHEALTH_ETCD_ENDPOINTS\<close> and \<open>off\<close> the offset of the pod's time zone. The result is the line
  printed, if any, what is written to the standard error, and the error \<open>RunE\<close> returns: an error with
  a status is reported on the standard error only. A nil status without an error is printed as \<open>null\<close>.
\<close>

definition probe_options :: "string \<Rightarrow> etcd_options" where
  "probe_options env = \<lparr>eo_mode = EtcdDirect,
     eo_endpoints = (if env \<noteq> [] then [env] else [''https://127.0.0.1:2379'']),
     eo_ca = ''/etc/kubernetes/pki/etcd/ca.crt'',
     eo_cert = ''/etc/kubernetes/pki/etcd/healthcheck-client.crt'',
     eo_key = ''/etc/kubernetes/pki/etcd/healthcheck-client.key'',
     eo_quota = 0, eo_dial_timeout = 10 * Second, eo_job_image = [], eo_job_namespace = []\<rparr>"

definition etcd_probe ::
  "direct_world \<Rightarrow> int \<Rightarrow> string \<Rightarrow> string option \<times> string \<times> string option" where
  "etcd_probe w off env =
     (case Collect \<lparr>re_direct = w, re_job = None, re_api = None, re_pod = None\<rparr> (probe_options env) of
        None \<Rightarrow> (None, [], None)
      | Some (st, err) \<Rightarrow>
          let errs = (case err of None \<Rightarrow> [] | Some e \<Rightarrow> ''etcd-probe: '' @ err_text e @ [CHR 0x0A])
          in case (st, err) of
               (None, Some e) \<Rightarrow> (None, errs, Some (err_text e))
             | (None, None) \<Rightarrow> (Some ''null'', errs, None)
             | (Some st, _) \<Rightarrow>
                 (case marshal_status off st of
                    Inl e \<Rightarrow> (None, errs, Some e)
                  | Inr line \<Rightarrow> (Some line, errs, None)))"

subsection \<open>Facts about the modes\<close>

lemma wrap64_add [simp]: "wrap64 (wrap64 a + b) = wrap64 (a + b)"
proof -
  have "(wrap64 a + b + 2 ^ 63) mod 2 ^ 64 = ((a + 2 ^ 63) mod 2 ^ 64 + b) mod 2 ^ 64"
    by (simp add: wrap64_def)
  also have "\<dots> = (a + b + 2 ^ 63) mod 2 ^ 64"
    by (simp add: mod_add_left_eq mod_add_right_eq ac_simps)
  finally show ?thesis by (simp add: wrap64_def)
qed

lemma wrap64_range: "- (2 ^ 63) \<le> wrap64 a \<and> wrap64 a < 2 ^ 63"
  by (simp add: wrap64_def)

lemma wrap64_id: "- (2 ^ 63) \<le> a \<Longrightarrow> a < 2 ^ 63 \<Longrightarrow> wrap64 a = a"
  by (simp add: wrap64_def)

text \<open>What the totals of a status mean; both loops over members keep it.\<close>

definition aggregated :: "etcd_status \<Rightarrow> bool" where
  "aggregated st \<longleftrightarrow>
     es_size st = wrap64 (sum_list (map ms_size (es_members st))) \<and>
     es_in_use st = wrap64 (sum_list (map ms_in_use (es_members st))) \<and>
     (es_reachable st \<longleftrightarrow> (\<exists>m \<in> set (es_members st). ms_reachable m)) \<and>
     (es_has_leader st \<longleftrightarrow> (\<exists>m \<in> set (es_members st). ms_reachable m \<and> ms_leader m \<noteq> 0))"

text \<open>
  The contract of a loop over members: it starts from an aggregated status, and each turn adds
  either a member that did not answer (all zero) or one that did.
\<close>

locale member_loop =
  fixes run :: "'m list \<Rightarrow> etcd_status \<Rightarrow> etcd_status"
    and probe :: "'m \<Rightarrow> member_status"
  assumes run_Nil: "run [] st = st"
    and run_members: "es_members (run ms st) = es_members st @ map probe ms"
    and run_aggregated: "aggregated st \<Longrightarrow> aggregated (run ms st)"
begin

lemma run_fresh:
  assumes "es_members st = []" and "aggregated st"
  shows "es_members (run ms st) = map probe ms"
    and "es_reachable (run ms st) \<longleftrightarrow> (\<exists>m \<in> set ms. ms_reachable (probe m))"
    and "es_size (run ms st) = wrap64 (\<Sum>m \<leftarrow> ms. ms_size (probe m))"
  using run_members [of ms st] run_aggregated [OF assms(2), of ms] assms(1)
  by (simp_all add: aggregated_def o_def)

end

lemma aggregated_new: "aggregated (new_status mode now quota)"
  by (simp add: aggregated_def new_status_def wrap64_def)

lemma aggregated_down:
  "aggregated st \<Longrightarrow> aggregated (add_member ((new_member ep)\<lparr>ms_errors := es\<rparr>) st)"
  by (simp add: aggregated_def add_member_def new_member_def)

lemma aggregated_up: "ms_reachable m \<Longrightarrow> aggregated st \<Longrightarrow> aggregated (add_reachable m st)"
  by (auto simp: aggregated_def add_member_def add_reachable_def)

lemma aggregated_other: "aggregated (st\<lparr>es_quota := q, es_alarms := al\<rparr>) = aggregated st"
    "aggregated (st\<lparr>es_quota := q\<rparr>) = aggregated st" "aggregated (st\<lparr>es_alarms := al\<rparr>) = aggregated st"
  by (simp_all add: aggregated_def)

lemma add_members: "es_members (add_member m st) = es_members st @ [m]"
    "es_members (add_reachable m st) = es_members st @ [m]"
  by (simp_all add: add_member_def add_reachable_def)

definition direct_member :: "direct_world \<Rightarrow> string \<Rightarrow> member_status" where
  "direct_member w ep =
     (case dw_status w ep of
        Inl e \<Rightarrow> (new_member ep)\<lparr>ms_errors := [e]\<rparr>
      | Inr s \<Rightarrow> s\<lparr>ms_endpoint := ep, ms_errors := [], ms_reachable := True\<rparr>)"

interpretation dl: member_loop "direct_loop w" "direct_member w" for w
proof
  fix ms st
  show "es_members (direct_loop w ms st) = es_members st @ map (direct_member w) ms"
    by (induction ms arbitrary: st) (auto simp: direct_member_def add_members split: sum.split)
  show "aggregated st \<Longrightarrow> aggregated (direct_loop w ms st)"
    by (induction ms arbitrary: st) (auto simp: aggregated_down aggregated_up split: sum.split)
qed simp

definition pod_member :: "pod_world \<Rightarrow> string \<Rightarrow> member_status" where
  "pod_member w pod =
     (case podStatus w pod of
        Inl e \<Rightarrow> (new_member pod)\<lparr>ms_errors := [e]\<rparr>
      | Inr (c, m) \<Rightarrow> m)"

lemma try_certs_up: "try_certs w pod cs = Some (c, m) \<Longrightarrow> ms_reachable m \<and> ms_endpoint m = pod"
  by (induction cs) (auto simp: member_of_entry_def Let_def split: option.splits list.splits)

lemma podStatus_up: "podStatus w pod = Inr (c, m) \<Longrightarrow> ms_reachable m \<and> ms_endpoint m = pod"
  by (auto simp: podStatus_def dest: try_certs_up split: option.splits)

interpretation pl: member_loop "\<lambda>ms. pods_loop w ms fetched" "pod_member w" for w fetched
proof
  fix ms st
  show "es_members (pods_loop w ms fetched st) = es_members st @ map (pod_member w) ms"
    by (induction ms arbitrary: st fetched)
      (auto simp: pod_member_def add_members Let_def split: sum.split prod.split)
  show "aggregated st \<Longrightarrow> aggregated (pods_loop w ms fetched st)"
    by (induction ms arbitrary: st fetched)
      (auto simp: Let_def aggregated_other aggregated_down aggregated_up dest!: podStatus_up
        split: sum.split prod.split)
qed simp

lemma collectDirect_status:
  assumes "collectDirect w opts = (Some st, err)"
  shows "aggregated st \<and> es_members st = map (direct_member w) (eo_endpoints opts) \<and>
         (err = None \<longleftrightarrow> es_reachable st) \<and> es_mode st = EtcdDirect \<and> es_quota st = eo_quota opts"
proof -
  let ?st = "direct_loop w (eo_endpoints opts) (new_status EtcdDirect (dw_now w) (eo_quota opts))"
  have keep: "es_mode (direct_loop w eps s) = es_mode s \<and> es_quota (direct_loop w eps s) = es_quota s"
    for eps s
    by (induction eps arbitrary: s) (auto simp: add_member_def add_reachable_def split: sum.split)
  have "st = (case dw_alarms w of Some als \<Rightarrow> ?st\<lparr>es_alarms := es_alarms ?st @ als\<rparr> | None \<Rightarrow> ?st) \<and>
      (err = None \<longleftrightarrow> es_reachable st)"
    using assms by (auto simp: collectDirect_def Let_def split: if_splits option.splits)
  moreover have "aggregated ?st" by (rule dl.run_aggregated [OF aggregated_new])
  moreover have "es_members ?st = map (direct_member w) (eo_endpoints opts)"
    by (rule dl.run_fresh(1) [OF _ aggregated_new]) (simp add: new_status_def)
  ultimately show ?thesis
    by (auto simp: aggregated_other keep new_status_def split: option.splits)
qed

lemma PodExec_status:
  assumes "PodExec w opts = (Some st, err)"
  obtains pods where "pw_pods w = Inr pods" "aggregated st" "es_members st = map (pod_member w) pods"
    "err = None \<longleftrightarrow> es_reachable st"
proof -
  from assms obtain pods where p: "pw_pods w = Inr pods" "pods \<noteq> []"
    by (auto simp: PodExec_def split: if_splits sum.splits list.splits)
  let ?st = "pods_loop w pods False (new_status EtcdPodExec (pw_now w) 0)"
  have "(st = ?st \<or> st = ?st\<lparr>es_quota := eo_quota opts\<rparr>) \<and> (err = None \<longleftrightarrow> es_reachable st)"
    using assms p by (auto simp: PodExec_def Let_def split: if_splits list.splits)
  moreover have "aggregated ?st" by (rule pl.run_aggregated [OF aggregated_new])
  moreover have "es_members ?st = map (pod_member w) pods"
    by (rule pl.run_fresh(1) [OF _ aggregated_new]) (simp add: new_status_def)
  ultimately show ?thesis using that [of pods] p by (auto simp: aggregated_other)
qed

lemma PodExec_mode: "PodExec w opts = (Some st, err) \<Longrightarrow> es_mode st = EtcdPodExec"
proof -
  have "es_mode (pods_loop w pods fetched s) = es_mode s" for pods fetched s
    by (induction pods arbitrary: fetched s)
      (auto simp: add_member_def add_reachable_def Let_def split: sum.split prod.split)
  then show "PodExec w opts = (Some st, err) \<Longrightarrow> es_mode st = EtcdPodExec"
    by (auto simp: PodExec_def Let_def new_status_def simp del: pods_loop.simps
        split: if_splits sum.splits list.splits)
qed

lemma readyz_loop_eq:
  "readyz_loop ls seen healthy =
     (seen \<or> (\<exists>l \<in> set ls. has_substring (trim_space l) ''etcd''),
      healthy \<or> (\<exists>l \<in> set ls. has_substring (trim_space l) ''etcd'' \<and> take 3 (trim_space l) = ''[+]''))"
  by (induction ls arbitrary: seen healthy) (auto simp: Let_def)

lemma trim_space_id:
  assumes "s \<noteq> []" and "\<not> is_space (hd s)" and "\<not> is_space (last s)"
  shows "trim_space s = s"
proof -
  have "dropWhile is_space s = s" using assms(1,2) by (cases s) auto
  moreover have "dropWhile is_space (rev s) = rev s"
    using assms(1,3) by (cases s rule: rev_cases) auto
  ultimately show ?thesis by (simp add: trim_space_def)
qed

lemma direct_now:
  assumes "collectDirect w opts = (Some st, err)"
  shows "es_collected st = dw_now w"
proof -
  have "es_collected (direct_loop w eps s) = es_collected s" for eps s
    by (induction eps arbitrary: s) (auto simp: add_member_def add_reachable_def split: sum.split)
  then show ?thesis
    using assms
    by (auto simp: collectDirect_def Let_def new_status_def split: if_splits option.splits)
qed

lemma direct_alarms:
  assumes "collectDirect w opts = (Some st, err)"
  shows "es_alarms st = (case dw_alarms w of Some als \<Rightarrow> als | None \<Rightarrow> [])"
proof -
  have "es_alarms (direct_loop w eps s) = es_alarms s" for eps s
    by (induction eps arbitrary: s) (auto simp: add_member_def add_reachable_def split: sum.split)
  then show ?thesis
    using assms
    by (auto simp: collectDirect_def Let_def new_status_def split: if_splits option.splits)
qed

lemma aggregated_good:
  "aggregated st \<Longrightarrow> es_mode st = EtcdDirect \<Longrightarrow> es_quota st = 8589934592 \<Longrightarrow>
     good_status st \<longleftrightarrow> list_all good_member (es_members st) \<and> list_all good_alarm (es_alarms st)"
  using wrap64_range by (simp add: good_status_def aggregated_def etcd_modes utf8_ascii byte_Char int64_def)

lemma Collect_probe:
  "Collect \<lparr>re_direct = w, re_job = None, re_api = None, re_pod = None\<rparr> (probe_options env) =
     Some (collectDirect w ((probe_options env)\<lparr>eo_quota := 8 * 1024 * 1024 * 1024\<rparr>))"
  by (simp add: Collect_def probe_options_def Let_def Second_def)

lemma direct_answers_something: "collectDirect w opts \<noteq> (None, None)"
  by (auto simp: collectDirect_def Let_def split: option.split)

text \<open>What the probe does with the three kinds of results.\<close>

lemma etcd_probe_cases:
  assumes "collectDirect w ((probe_options env)\<lparr>eo_quota := 8 * 1024 * 1024 * 1024\<rparr>) = (st, err)"
  shows "st = None \<Longrightarrow> \<exists>e. err = Some e \<and>
      etcd_probe w off env = (None, ''etcd-probe: '' @ err_text e @ [CHR 0x0A], Some (err_text e))"
    and "st = Some st' \<Longrightarrow> etcd_probe w off env =
      (let errs = (case err of None \<Rightarrow> [] | Some e \<Rightarrow> ''etcd-probe: '' @ err_text e @ [CHR 0x0A])
       in case marshal_status off st' of Inl e \<Rightarrow> (None, errs, Some e) | Inr line \<Rightarrow> (Some line, errs, None))"
  using assms direct_answers_something [of w "(probe_options env)\<lparr>eo_quota := 8 * 1024 * 1024 * 1024\<rparr>"]
  by (auto simp: etcd_probe_def Collect_probe Let_def)

lemma etcd_probe_line:
  assumes "etcd_probe w off env = (Some line, errs, None)"
  obtains st err where "marshal_status off st = Inr line"
    "collectDirect w ((probe_options env)\<lparr>eo_quota := 8 * 1024 * 1024 * 1024\<rparr>) = (Some st, err)"
proof (cases "collectDirect w ((probe_options env)\<lparr>eo_quota := 8 * 1024 * 1024 * 1024\<rparr>)")
  case (Pair st err)
  show ?thesis
  proof (cases st)
    case None
    then have "fst (etcd_probe w off env) = None" using etcd_probe_cases(1) [OF Pair] by (metis fst_conv)
    then show ?thesis using assms by simp
  next
    case (Some st')
    then have "marshal_status off st' = Inr line"
      using etcd_probe_cases(2) [OF Pair Some, of off] assms by (simp add: Let_def split: sum.splits)
    then show ?thesis using Pair Some that by blast
  qed
qed

subsection \<open>Properties\<close>

text \<open>
  C20. The totals of a status mean what they say, in both modes that see the members: one entry
  per configured endpoint or listed pod, in order; the sizes are the (wrapped) sums over the
  members; reachable exactly when a member answered, with a leader exactly when a member that
  answered names one; and an unreachable cluster is an error.
\<close>

theorem etcd_status_aggregates:
  assumes "collectDirect w opts = (Some st, err) \<and> ms = map (direct_member w) (eo_endpoints opts) \<or>
           PodExec v opts = (Some st, err) \<and> pw_pods v = Inr pods \<and> ms = map (pod_member v) pods"
  shows "es_members st = ms \<and>
         es_size st = wrap64 (sum_list (map ms_size ms)) \<and>
         es_in_use st = wrap64 (sum_list (map ms_in_use ms)) \<and>
         (es_reachable st \<longleftrightarrow> (\<exists>m \<in> set ms. ms_reachable m)) \<and>
         (es_has_leader st \<longleftrightarrow> (\<exists>m \<in> set ms. ms_reachable m \<and> ms_leader m \<noteq> 0)) \<and>
         (err = None \<longleftrightarrow> es_reachable st)"
  using assms
proof
  assume a: "collectDirect w opts = (Some st, err) \<and> ms = map (direct_member w) (eo_endpoints opts)"
  then show ?thesis using collectDirect_status [of w opts st err] by (simp add: aggregated_def)
next
  assume a: "PodExec v opts = (Some st, err) \<and> pw_pods v = Inr pods \<and> ms = map (pod_member v) pods"
  then obtain ps where "pw_pods v = Inr ps" "aggregated st" "es_members st = map (pod_member v) ps"
      "err = None \<longleftrightarrow> es_reachable st"
    using PodExec_status by metis
  then show ?thesis using a by (simp add: aggregated_def)
qed

definition demo_direct :: direct_world where
  "demo_direct = \<lparr>dw_tls_config = (\<lambda>_ _ _. None), dw_new_client = (\<lambda>_. None), dw_member_list = None,
     dw_status = (\<lambda>ep. if ep = ''b'' then Inl ''timeout''
        else Inr ((new_member [])\<lparr>ms_size := 4000, ms_in_use := 1000, ms_leader := 7\<rparr>)),
     dw_alarms = None, dw_now = 5\<rparr>"

definition demo_options :: "string list \<Rightarrow> etcd_options" where
  "demo_options eps = \<lparr>eo_mode = [], eo_endpoints = eps, eo_ca = [], eo_cert = [], eo_key = [],
     eo_quota = 0, eo_dial_timeout = 0, eo_job_image = [], eo_job_namespace = []\<rparr>"

theorem etcd_status_aggregates_witness:
  "\<exists>st. collectDirect demo_direct (demo_options [''a'', ''b'', ''c'']) = (Some st, None) \<and>
        es_size st = 8000 \<and> es_has_leader st"
proof -
  have "fst (collectDirect demo_direct (demo_options [''a'', ''b'', ''c''])) \<noteq> None" by code_simp
  then obtain st err where r: "collectDirect demo_direct (demo_options [''a'', ''b'', ''c'']) = (Some st, err)"
    by (cases "collectDirect demo_direct (demo_options [''a'', ''b'', ''c''])") auto
  have m: "map (direct_member demo_direct) (eo_endpoints (demo_options [''a'', ''b'', ''c''])) =
      [(new_member ''a'')\<lparr>ms_size := 4000, ms_in_use := 1000, ms_leader := 7, ms_reachable := True\<rparr>,
       (new_member ''b'')\<lparr>ms_errors := [''timeout'']\<rparr>,
       (new_member ''c'')\<lparr>ms_size := 4000, ms_in_use := 1000, ms_leader := 7, ms_reachable := True\<rparr>]"
    by (simp add: demo_options_def demo_direct_def direct_member_def new_member_def)
  show ?thesis
    using etcd_status_aggregates [of demo_direct "demo_options [''a'', ''b'', ''c'']" st err
        "map (direct_member demo_direct) (eo_endpoints (demo_options [''a'', ''b'', ''c'']))"] r
    unfolding m by (simp add: wrap64_def new_member_def)
qed

definition usable :: "etcd_result \<Rightarrow> bool" where
  "usable r \<longleftrightarrow> (case snd r of Some (Unavailable e) \<Rightarrow> False | _ \<Rightarrow> True)"

definition rungs :: "reachers \<Rightarrow> etcd_options \<Rightarrow> etcd_result list" where
  "rungs re opts =
     (if eo_endpoints opts \<noteq> [] then [collectDirect (re_direct re) opts] else []) @
     map (\<lambda>f. f opts) (List.map_filter id [re_pod re, re_job re, re_api re])"

lemma attempt_usable: "attempt r n = (if usable r then r else n)"
  by (cases r; cases "snd r") (auto simp: attempt_def usable_def split: etcd_error.splits)

text \<open>
  C21. Auto mode is a ladder: of direct (when endpoints are configured), pod-exec, the probe job
  and the API server, in this order and as far as configured, the first whose error is not
  \<open>ErrUnavailable\<close> decides; when none does, the API server's result stands, and with no API
  server mode the error is \<open>ErrUnavailable\<close>.
\<close>

theorem collect_auto_ladder:
  "collectAuto re opts =
     (case filter usable (rungs re opts) of
        r # rs \<Rightarrow> r
      | [] \<Rightarrow> (case re_api re of
                 Some f \<Rightarrow> f opts
               | None \<Rightarrow> (None, Some (Unavailable ErrUnavailable))))"
  by (cases "re_pod re"; cases "re_job re"; cases "re_api re")
    (auto simp: collectAuto_def rungs_def attempt_usable Let_def map_filter_def)

text \<open>
  \<open>parseReadyzEtcd\<close> calls etcd healthy as soon as one etcd line is \<open>[+]\<close>, although its
  comment says that all of them must be: a report with a failing etcd line can be healthy.
\<close>

lemma readyz_any_line:
  "parseReadyzEtcd body =
     (\<exists>l \<in> set (scan_lines body). has_substring (trim_space l) ''etcd'',
      \<exists>l \<in> set (scan_lines body). has_substring (trim_space l) ''etcd'' \<and> take 3 (trim_space l) = ''[+]'') \<and>
   parseReadyzEtcd (''[-]etcd failed'' @ [CHR 0x0A] @ ''[+]etcd-readiness ok'') = (True, True)"
proof
  show "parseReadyzEtcd (''[-]etcd failed'' @ [CHR 0x0A] @ ''[+]etcd-readiness ok'') = (True, True)"
    by (simp add: parseReadyzEtcd_def scan_lines_def drop_cr_def trim_space_def is_space_def)
qed (simp add: parseReadyzEtcd_def readyz_loop_eq)

text \<open>The files the probe reads are in the directory that its job mounts from the host.\<close>

lemma probe_files_mounted:
  "list_all (\<lambda>f. take 25 f = ''/etc/kubernetes/pki/etcd/'')
     [eo_ca (probe_options env), eo_cert (probe_options env), eo_key (probe_options env)] \<and>
   pm_mounts (jm_pod (buildEtcdProbeJob n ns i)) = [(''etcd-pki'', ''/etc/kubernetes/pki/etcd'', True)]"
  by (simp add: probe_options_def buildEtcdProbeJob_def)

text \<open>The alarms of a pod-exec status are those of one pod, the first that answered.\<close>

lemma pods_loop_alarms:
  "es_alarms (pods_loop w pods fetched st) = es_alarms st \<or>
   (\<exists>pod c. es_alarms (pods_loop w pods fetched st) = fetchAlarms w pod c)"
proof (induction pods arbitrary: fetched st)
  case (Cons pod pods)
  have keep: "es_alarms (add_member m st) = es_alarms st" "es_alarms (add_reachable m st) = es_alarms st" for m
    by (simp_all add: add_member_def add_reachable_def)
  show ?case
  proof (cases "podStatus w pod")
    case (Inl e)
    then show ?thesis using Cons.IH [of fetched "add_member ((new_member pod)\<lparr>ms_errors := [e]\<rparr>) st"]
      by (simp add: keep)
  next
    case (Inr cm)
    then show ?thesis
      using Cons.IH [of fetched "add_reachable (snd cm) st"]
        Cons.IH [of True "(add_reachable (snd cm) st)\<lparr>es_quota := fetchQuota w pod (fst cm),
          es_alarms := fetchAlarms w pod (fst cm)\<rparr>"]
      by (auto simp: Let_def keep case_prod_beta) blast+
  qed
qed simp

text \<open>\<open>etcdctl\<close> prints an alarm by the number of its type, wherever it answers: one is active.\<close>

definition prints_alarm_numbers :: "pod_world \<Rightarrow> bool" where
  "prints_alarm_numbers w \<longleftrightarrow>
     (\<forall>pod c out. execEtcdctl w 0 pod c alarm_args = Some out \<longrightarrow>
        (\<exists>h als m n. out = Marshal (alarm_reply h als) @ [CHR 0x0A] \<and> (m, JInt n) \<in> set als \<and>
           integral (alarm_reply h als) \<and> depth (alarm_reply h als) \<le> 10000 \<and> utf8_json (alarm_reply h als)))"

text \<open>
  In pod-exec mode such alarms are lost: the decoder expects the type of an alarm to be a string,
  so one number makes it an error, and the error means no alarms.
\<close>

lemma numeric_alarms_lost:
  assumes "PodExec w opts = (Some st, err)" and "prints_alarm_numbers w"
  shows "es_alarms st = []"
proof -
  have none: "fetchAlarms w pod c = []" for pod c
  proof (cases "execEtcdctl w 0 pod c alarm_args")
    case (Some out)
    then obtain h als m n where "json_parse out = Some (alarm_reply h als)" "(m, JInt n) \<in> set als"
      using assms(2) print_reply_parses unfolding prints_alarm_numbers_def by metis
    then have "parse_alarms_json out = None" by (rule number_alarms_fail)
    then show ?thesis using Some by (simp add: fetchAlarms_def)
  qed (simp add: fetchAlarms_def)
  obtain pods where "es_alarms st = es_alarms (pods_loop w pods False (new_status EtcdPodExec (pw_now w) 0))"
    using assms(1)
    by (auto simp: PodExec_def Let_def simp del: pods_loop.simps split: if_splits sum.splits list.splits)
  then show ?thesis
    using pods_loop_alarms [of w pods False "new_status EtcdPodExec (pw_now w) 0"] none
    by (auto simp: new_status_def)
qed

definition alarmed_reply :: json where
  "alarmed_reply = alarm_reply (reply_header 1 7 2) [(7, JInt 1)]"

definition status_reply :: json where
  "status_reply = JArr [JObj [(''Endpoint'', JStr ''https://127.0.0.1:2379''),
     (''Status'', JObj [(''header'', JObj [(''member_id'', JInt 7), (''raft_term'', JInt 2)]),
        (''version'', JStr ''3.5.9''), (''dbSize'', JInt 4000), (''leader'', JInt 7)])]]"

definition alarmed_pods :: pod_world where
  "alarmed_pods = \<lparr>pw_config = True, pw_pods = Inr [''etcd-a''],
     pw_exec = (\<lambda>n pod cmd. if drop 5 cmd = alarm_args then Some (Marshal alarmed_reply @ [CHR 0x0A])
       else Some (Marshal status_reply @ [CHR 0x0A])), pw_now = 5\<rparr>"

lemma status_reply_parses:
  "parse_status_json (Marshal status_reply @ [CHR 0x0A]) =
     Some [\<lparr>ce_endpoint = ''https://127.0.0.1:2379'',
       ce_status = \<lparr>cs_header = \<lparr>ch_member_id = 7, ch_raft_term = 2\<rparr>, cs_version = ''3.5.9'', cs_size = 4000,
         cs_in_use = 0, cs_quota = 0, cs_leader = 7, cs_raft = 0, cs_applied = 0\<rparr>\<rparr>]"
proof -
  have "json_parse (Marshal status_reply @ [CHR 0x0A]) = Some status_reply"
    by (intro print_reply_parses) (simp_all add: status_reply_def utf8_ascii byte_Char)
  then show ?thesis
    by (simp add: parse_status_json_def unmarshal_fresh_def status_reply_def decode_slice_def decode_struct_def
        decode_entry_field_def decode_ctl_status_field_def decode_header_field_def name_simps ctl_entry0_def
        keep_old_def)
qed

lemma alarmed_commands:
  "execEtcdctl alarmed_pods n pod c status_args = Some (Marshal status_reply @ [CHR 0x0A])"
  "execEtcdctl alarmed_pods n pod c alarm_args = Some (Marshal alarmed_reply @ [CHR 0x0A])"
  by (simp_all add: execEtcdctl_def alarmed_pods_def status_args_def alarm_args_def)

lemma alarmed_pods_print: "prints_alarm_numbers alarmed_pods"
  unfolding prints_alarm_numbers_def
  by (intro allI impI exI [of _ "reply_header 1 7 2"] exI [of _ "[(7, JInt 1)]"] exI [of _ 7] exI [of _ 1])
    (simp add: alarmed_commands alarmed_reply_def alarm_reply_def reply_header_def utf8_ascii byte_Char)

lemma alarmed_pod_status:
  "\<exists>c m. podStatus alarmed_pods ''etcd-a'' = Inr (c, m) \<and> ms_leader m = 7"
  by (simp add: podStatus_def etcdCertCandidates_def alarmed_commands status_reply_parses member_of_entry_def)

text \<open>
  C22. The probe job's answer comes through: when the probe prints a line, the launcher parses it
  back to the status the probe collected, byte for byte through the JSON text, under mode
  in-cluster and without the probe's error. Its quota is the default of 8 GiB, whatever
  \<open>--etcd-quota-bytes\<close> the launcher was given.
\<close>

theorem probe_reaches_launcher:
  assumes "etcd_probe w off env = (Some line, errs, None)"
    and "eo_job_image opts \<noteq> []" and "jw_create v = None"
    and "poll_loop (jw_polls v) [] = Inr podName" and "podName \<noteq> []"
    and "jw_logs v podName = Inr (line @ [CHR 0x0A])" and "jw_read_error v = None"
    and "dw_now w \<noteq> zero_time"
    and "60 dvd off"
    and "list_all good_member (map (direct_member w) (eo_endpoints (probe_options env)))"
    and "\<And>als. dw_alarms w = Some als \<Longrightarrow> list_all good_alarm als"
  shows "\<exists>st err. collectDirect w ((probe_options env)\<lparr>eo_quota := 8 * 1024 * 1024 * 1024\<rparr>) = (Some st, err) \<and>
     fst (InClusterJob v opts) = (Some (st\<lparr>es_mode := EtcdInClusterJob\<rparr>), None) \<and>
     es_members st = map (direct_member w) (eo_endpoints (probe_options env)) \<and>
     es_quota st = 8 * 1024 * 1024 * 1024"
proof -
  obtain st err where st: "marshal_status off st = Inr line"
      "collectDirect w ((probe_options env)\<lparr>eo_quota := 8 * 1024 * 1024 * 1024\<rparr>) = (Some st, err)"
    using etcd_probe_line assms(1) by metis
  note facts = collectDirect_status [OF st(2)] direct_now [OF st(2)] direct_alarms [OF st(2)]
  obtain t where t: "json_time off (dw_now w) = Some t" "line = Marshal (encode_status t st)"
    using st(1) facts by (auto simp: marshal_status_def split: option.splits)
  have good: "good_status st"
    using facts assms(10,11) by (auto simp: aggregated_good split: option.splits)
  note line = status_line [OF good, of t, folded t(2)]
  have read: "unmarshal_status (new_status [] zero_time 0) line = (st, True)"
    using unmarshal_marshal [OF good, of off t] assms(9) t facts by simp
  have "trim_space line = line"
    using line by (intro trim_space_id) (auto simp: is_space_def)
  moreover have "take 1 line = ''{''" using line(1,2) by (cases line) auto
  ultimately have "probe_lines v (split_on (CHR 0x0A) (line @ [CHR 0x0A])) (new_status [] zero_time 0) =
      Some (st\<lparr>es_mode := EtcdInClusterJob\<rparr>)"
    using line(4) read facts assms(8) by (simp add: split_on_line)
  then have "fst (InClusterJob v opts) = (Some (st\<lparr>es_mode := EtcdInClusterJob\<rparr>), None)"
    using assms(2-7) by (simp add: InClusterJob_def read_probe_def Let_def)
  then show ?thesis using st(2) facts by auto
qed

definition probe_line :: string where
  "probe_line = (case etcd_probe demo_direct 0 [] of
     (Some l, _, _) \<Rightarrow> l | _ \<Rightarrow> [])"

definition probe_job :: job_world where
  "probe_job = \<lparr>jw_now = 1767323045, jw_create = None,
     jw_polls = [PollNone, PollPod ''p'' ''Running'', PollPod ''p'' ''Succeeded''],
     jw_logs = (\<lambda>_. Inr (probe_line @ [CHR 0x0A])), jw_read_error = None\<rparr>"

theorem probe_reaches_launcher_witness:
  "\<exists>st. fst (InClusterJob probe_job ((demo_options [])\<lparr>eo_job_image := ''khealth'', eo_quota := 100\<rparr>)) =
       (Some st, None) \<and> es_quota st = 8589934592 \<and> length (es_members st) = 1"
proof -
  have "\<exists>l errs. etcd_probe demo_direct 0 [] = (Some l, errs, None)"
  proof -
    have "fst (collectDirect demo_direct ((probe_options [])\<lparr>eo_quota := 8 * 1024 * 1024 * 1024\<rparr>)) \<noteq> None"
      by (simp add: collectDirect_def demo_direct_def probe_options_def buildTLS_def Let_def)
    then obtain st err where st: "collectDirect demo_direct ((probe_options [])\<lparr>eo_quota := 8 * 1024 * 1024 * 1024\<rparr>) =
        (Some st, err)"
      by (metis prod.collapse option.exhaust)
    have "es_collected st = 5" using direct_now [OF st] by (simp add: demo_direct_def)
    moreover have "json_time 0 5 = Some ''1970-01-01T00:00:00.000000005Z''" by code_simp
    ultimately show ?thesis
      using etcd_probe_cases(2) [OF st refl, of 0] by (simp add: marshal_status_def Let_def)
  qed
  then obtain errs where p: "etcd_probe demo_direct 0 [] = (Some probe_line, errs, None)"
    by (auto simp: probe_line_def)
  have good: "list_all good_member (map (direct_member demo_direct) (eo_endpoints (probe_options [])))"
    by (simp add: probe_options_def direct_member_def demo_direct_def good_member_def new_member_def
        utf8_ascii byte_Char int64_def uint64_def)
  show ?thesis
    using probe_reaches_launcher [OF p, of "(demo_options [])\<lparr>eo_job_image := ''khealth'', eo_quota := 100\<rparr>"
        probe_job "''p''"] good
    by (auto simp: probe_job_def demo_options_def demo_direct_def zero_time_def probe_options_def utf8_ascii byte_Char)
qed

end
