(* ===== verification/Cluster.thy ===== *)
theory Cluster
  imports GoFloat Kube BaselineFile Etcd
begin

section \<open>What the checks read (client-go objects) and their helpers (checks/helpers.go)\<close>

text \<open>
  A check sees the cluster through the Kubernetes client of \<open>env\<close> and through the clock. Both
  are parameters: a \<open>cluster\<close> is one record of functions, one per call the checks make, each
  giving an API error or the objects. An object is a record of the fields the checks read;
  a pointer field is an \<open>option\<close>, an \<open>int32\<close> or \<open>int64\<close> an \<open>int\<close> (the checks compare and
  print them; the few sums are wrapped where they are made), a map of labels an association
  list. \<open>None\<close> in \<open>cl_readyz\<close> and \<open>cl_kubelet_healthz\<close> is the nil REST client of the fake clientset.
\<close>

subsection \<open>Errors and helpers\<close>

record api_error =
  ae_text :: string
  ae_not_found :: bool
  ae_unavailable :: bool
  ae_forbidden :: bool
  ae_no_match :: bool

definition resourceID :: "string \<Rightarrow> string \<Rightarrow> string \<Rightarrow> string" where
  "resourceID kind namespace name =
     (if namespace = [] then kind @ ''/'' @ name
      else kind @ ''/'' @ name @ '' in ns/'' @ namespace)"

definition okFinding :: "string \<Rightarrow> string \<Rightarrow> finding" where
  "okFinding ident msg = mk_finding ident StatusOK [] msg"

definition unknownFromErr :: "string \<Rightarrow> string \<Rightarrow> string \<Rightarrow> finding list" where
  "unknownFromErr ident op err = [mk_finding ident StatusUnknown [] (op @ '': '' @ err)]"

definition isCRDMissing :: "api_error option \<Rightarrow> bool" where
  "isCRDMissing err =
     (case err of None \<Rightarrow> False | Some e \<Rightarrow> ae_not_found e \<or> ae_no_match e)"

text \<open>A composite literal with a \<open>Detail\<close> map.\<close>

definition detailed :: "finding \<Rightarrow> (string \<times> string) list \<Rightarrow> finding" where
  "detailed f d = f\<lparr>f_detail := d\<rparr>"

lemma helper_sel [simp]:
  "f_check (okFinding i m) = i" "f_status (okFinding i m) = StatusOK"
  "f_check (detailed f d) = f_check f" "f_status (detailed f d) = f_status f"
  "f_resource (detailed f d) = f_resource f" "f_message (detailed f d) = f_message f"
  by (simp_all add: okFinding_def detailed_def)

subsection \<open>Objects\<close>

record container_status =
  cs_name :: string
  cs_image :: string
  cs_ready :: bool
  cs_restarts :: int
  cs_waiting :: "string option"
  cs_terminated :: "(string \<times> int) option"

record condition =
  cd_type :: string
  cd_status :: string
  cd_reason :: string
  cd_message :: string

type_synonym ref_source = "string \<times> bool option"

record projection =
  pj_cm :: "ref_source option"
  pj_secret :: "ref_source option"

record volume =
  vol_name :: string
  vol_pvc :: "string option"
  vol_cm :: "ref_source option"
  vol_secret :: "ref_source option"
  vol_projected :: "projection list option"

record container =
  ctr_name :: string
  ctr_env_from :: "projection list"

record pod =
  pod_ns :: string
  pod_name :: string
  pod_phase :: string
  pod_created :: instant
  pod_conds :: "condition list"
  pod_cstats :: "container_status list"
  pod_sa :: string
  pod_volumes :: "volume list"
  pod_containers :: "container list"

record node =
  nd_name :: string
  nd_conds :: "condition list"
  nd_unschedulable :: bool
  nd_kubelet :: string
  nd_cap_cpu :: int
  nd_cap_mem :: int

text \<open>A Deployment or a StatefulSet.\<close>

record workload =
  wl_ns :: string
  wl_name :: string
  wl_replicas :: "int option"
  wl_ready :: int
  wl_labels :: "(string \<times> string) list"

record daemonset =
  ds_ns :: string
  ds_name :: string
  ds_desired :: int
  ds_ready :: int

record service =
  svc_ns :: string
  svc_name :: string
  svc_type :: string
  svc_selector :: "(string \<times> string) list"

record pvc =
  pvc_ns :: string
  pvc_name :: string
  pvc_phase :: string
  pvc_volume :: string
  pvc_created :: instant

record pv =
  pv_name :: string
  pv_phase :: string
  pv_policy :: string
  pv_created :: instant

record volume_attachment =
  va_name :: string
  va_attach_error :: "string option"
  va_detach_error :: "string option"

record storage_class =
  sc_name :: string
  sc_annotations :: "(string \<times> string) list"

record kevent =
  ev_type :: string
  ev_last :: instant
  ev_time :: instant
  ev_created :: instant
  ev_kind :: string
  ev_ns :: string
  ev_name :: string
  ev_reason :: string
  ev_message :: string
  ev_count :: int

record kns =
  ns_name :: string
  ns_phase :: string
  ns_deleted :: "instant option"
  ns_created :: instant

record lease =
  ls_holder :: "string option"
  ls_duration :: "int option"
  ls_renew :: "instant option"
  ls_acquire :: "instant option"

record hpa =
  hpa_ns :: string
  hpa_name :: string
  hpa_kind :: string
  hpa_target :: string

record backend_service =
  bs_name :: string
  bs_port_name :: string
  bs_port_number :: int

record ingress =
  ing_ns :: string
  ing_name :: string
  ing_class :: "string option"
  ing_default :: "backend_service option option"
  ing_rules :: "backend_service option list option list"

text \<open>A label selector of the library: whether it is empty and what it matches.\<close>

record selector =
  sel_empty :: bool
  sel_matches :: "(string \<times> string) list \<Rightarrow> bool"

datatype int_or_string = IntVal int | StrVal string

record pdb =
  pdb_ns :: string
  pdb_name :: string
  pdb_selector :: "selector option"
  pdb_min_available :: "int_or_string option"
  pdb_expected :: int

record policy_rule =
  pr_verbs :: "string list"
  pr_resources :: "string list"
  pr_groups :: "string list"

record role =
  rl_ns :: string
  rl_name :: string
  rl_rules :: "policy_rule list"

record webhook =
  wh_name :: string
  wh_failure_policy :: "string option"
  wh_timeout :: "int option"

record webhook_config =
  wc_name :: string
  wc_webhooks :: "webhook list"

record job =
  job_ns :: string
  job_name :: string
  job_failed :: int
  job_succeeded :: int
  job_active :: int
  job_created :: instant

text \<open>
  An object of a custom resource, as the library's accessors give it: \<open>un_string\<close> is
  \<open>NestedString\<close> (empty if absent or of another type), \<open>un_slice\<close> is \<open>NestedSlice\<close> (an error, not
  found, or the elements).
\<close>

record unstructured =
  un_ns :: string
  un_name :: string
  un_created :: instant
  un_string :: "string list \<Rightarrow> string"
  un_slice :: "string list \<Rightarrow> string + json list option"

text \<open>
  What \<open>errors.As\<close> meets while it unwraps the error of a TLS dial, outermost first. An
  \<open>x509.CertificateInvalidError\<close> (with whether its reason is \<open>Expired\<close>) may be in the chain as a
  value, which is how \<open>crypto/x509\<close> returns it, or as a pointer: two types to \<open>errors.As\<close>.
\<close>

datatype err_cause = InvalidCertValue bool | InvalidCertPointer bool | VerificationError | OtherCause

subsection \<open>The cluster a check sees\<close>

text \<open>
  List calls take the namespace (empty: all) and, where the code passes one, the label
  selector. \<open>cl_get\<close> is \<open>Get\<close> by kind, namespace and name, of which only the error is used.
  \<open>cl_dynamic\<close> lists custom resources by group, version and resource. \<open>cl_raw_get\<close> is a GET of a
  path by the API server's REST client, \<open>cl_json_error\<close> the text of the error of
  \<open>json.Unmarshal\<close> for a type and a text. \<open>cl_etcd\<close> is
  what the etcd modes meet. \<open>cl_milli\<close> and \<open>cl_value\<close> are the
  \<open>MilliValue\<close> and \<open>Value\<close> of a quantity string (0 if it does not parse).
  \<open>cl_host\<close> is the API server's address (\<open>None\<close>: no \<open>rest.Config\<close>); \<open>cl_url_host\<close>,
  \<open>cl_tls_error\<close> (operation and text), \<open>cl_dial\<close> (an error with its chain of causes, or the peer
  certificates by common name and expiry; \<open>None\<close>: not a TLS connection) are the URL and TLS functions. \<open>cl_range\<close> is the order
  in which \<open>range\<close> visits the keys of a map.
\<close>

record cluster =
  cl_env :: kube_env
  cl_now :: instant
  cl_pods :: "string \<Rightarrow> string \<Rightarrow> api_error + pod list"
  cl_nodes :: "api_error + node list"
  cl_deployments :: "string \<Rightarrow> string \<Rightarrow> api_error + workload list"
  cl_statefulsets :: "string \<Rightarrow> api_error + workload list"
  cl_daemonsets :: "string \<Rightarrow> api_error + daemonset list"
  cl_services :: "string \<Rightarrow> api_error + service list"
  cl_service_ports :: "string \<Rightarrow> string \<Rightarrow> api_error + (string \<times> int) list"
  cl_endpoint_slices :: "string \<Rightarrow> string \<Rightarrow> api_error + bool option list list"
  cl_selector_string :: "(string \<times> string) list \<Rightarrow> string"
  cl_pvcs :: "string \<Rightarrow> api_error + pvc list"
  cl_pvs :: "api_error + pv list"
  cl_attachments :: "api_error + volume_attachment list"
  cl_storage_classes :: "api_error + storage_class list"
  cl_events :: "string \<Rightarrow> api_error + kevent list"
  cl_namespaces :: "api_error + kns list"
  cl_lease :: "string \<Rightarrow> string \<Rightarrow> api_error + lease"
  cl_hpas :: "string \<Rightarrow> api_error + hpa list"
  cl_get :: "string \<Rightarrow> string \<Rightarrow> string \<Rightarrow> api_error option"
  cl_ingresses :: "string \<Rightarrow> api_error + ingress list"
  cl_ingress_classes :: "api_error + string list"
  cl_pdbs :: "string \<Rightarrow> api_error + pdb list"
  cl_configmaps :: "string \<Rightarrow> api_error + (string \<times> string) list"
  cl_secrets :: "string \<Rightarrow> api_error + (string \<times> string) list"
  cl_service_accounts :: "string \<Rightarrow> api_error + (string \<times> string) list"
  cl_cluster_roles :: "api_error + role list"
  cl_roles :: "string \<Rightarrow> api_error + role list"
  cl_validating :: "api_error + webhook_config list"
  cl_mutating :: "api_error + webhook_config list"
  cl_jobs :: "string \<Rightarrow> string \<Rightarrow> api_error + job list"
  cl_dynamic :: "string \<Rightarrow> string \<Rightarrow> string \<Rightarrow> api_error + unstructured list"
  cl_readyz :: "(api_error + string) option"
  cl_kubelet_healthz :: "(string \<Rightarrow> api_error + string) option"
  cl_server_minor :: "string + string"
  cl_raw_get :: "string \<Rightarrow> api_error + string"
  cl_json_error :: "string \<Rightarrow> string \<Rightarrow> string"
  cl_milli :: "string \<Rightarrow> int"
  cl_value :: "string \<Rightarrow> int"
  cl_etcd :: etcd_clients
  cl_host :: "string option"
  cl_url_host :: "string \<Rightarrow> string + string"
  cl_tls_error :: "(string \<times> string) option"
  cl_dial :: "string \<Rightarrow> string \<times> err_cause list + (string \<times> instant) list option"
  cl_range :: "string list \<Rightarrow> string list"

abbreviation list_ns :: "cluster \<Rightarrow> string" where
  "list_ns c \<equiv> NamespaceForList (cl_env c)"

end
