(* ===== verification/CheckBase.thy ===== *)
theory CheckBase
  imports Cluster Runner
begin

section \<open>The shape and the contract of a check\<close>

text \<open>
  Nearly every \<open>Run\<close> method of \<open>internal/checks\<close> is the same loop: list some objects, give up
  with one UNKNOWN finding if that fails, append the findings of each object, and answer one
  OK finding if there were none. \<open>or_ok\<close> is its end and \<open>scan_check\<close> the whole of it, with the
  loop body as a function \<open>flag\<close> from an object to the findings it appends. The locale
  \<open>item_scan\<close> is what the loop bodies promise; the lemmas in it give, once for all, the
  contract of the check and when it reports what.
\<close>

abbreviation statuses :: "finding list \<Rightarrow> status set" where
  "statuses fs \<equiv> f_status ` set fs"

definition or_ok :: "string \<Rightarrow> string \<Rightarrow> finding list \<Rightarrow> finding list" where
  "or_ok ident msg out = (if out = [] then [okFinding ident msg] else out)"

definition scan_check ::
  "string \<Rightarrow> string \<Rightarrow> string \<Rightarrow> ('x \<Rightarrow> finding list) \<Rightarrow> api_error + 'x list \<Rightarrow> finding list" where
  "scan_check ident op okmsg flag r =
     (case r of
        Inl e \<Rightarrow> unknownFromErr ident op (ae_text e)
      | Inr xs \<Rightarrow> or_ok ident okmsg (concat (map flag xs)))"

text \<open>What a report can rely on: some finding, all under the check's id, with a defined status.\<close>

definition wf_findings :: "string \<Rightarrow> finding list \<Rightarrow> bool" where
  "wf_findings ident fs \<longleftrightarrow> fs \<noteq> [] \<and> (\<forall>f \<in> set fs. f_check f = ident \<and>
     f_status f \<in> {StatusOK, StatusWarning, StatusCritical, StatusUnknown, StatusSkipped})"

lemma wf_single [check_contract]:
  "f_check f = ident \<Longrightarrow>
     f_status f \<in> {StatusOK, StatusWarning, StatusCritical, StatusUnknown, StatusSkipped} \<Longrightarrow>
     wf_findings ident [f]"
  by (simp add: wf_findings_def)

lemma wf_unknown [check_contract]: "wf_findings ident (unknownFromErr ident op e)"
  by (simp add: wf_findings_def unknownFromErr_def)

lemma statuses_unknown [simp]: "statuses (unknownFromErr ident op e) = {StatusUnknown}"
  by (simp add: unknownFromErr_def)

lemma or_ok_empty [simp]: "or_ok ident msg [] = [okFinding ident msg]"
  by (simp add: or_ok_def)

lemma ok_in_or_ok:
  "StatusOK \<notin> statuses out \<Longrightarrow> StatusOK \<in> statuses (or_ok ident msg out) \<longleftrightarrow> out = []"
  by (auto simp: or_ok_def)

lemma in_or_ok: "s \<noteq> StatusOK \<Longrightarrow> s \<in> statuses (or_ok ident msg out) \<longleftrightarrow> s \<in> statuses out"
  by (auto simp: or_ok_def)

lemma wf_or_ok [check_contract]:
  "(\<forall>f \<in> set out. f_check f = ident \<and>
      f_status f \<in> {StatusOK, StatusWarning, StatusCritical, StatusUnknown, StatusSkipped}) \<Longrightarrow>
   wf_findings ident (or_ok ident msg out)"
  by (simp add: or_ok_def wf_findings_def)

locale item_scan =
  fixes ident :: string
    and flag :: "'x \<Rightarrow> finding list"
  assumes flag_sound: "f \<in> set (flag x) \<Longrightarrow> f_check f = ident \<and>
     f_status f \<in> {StatusWarning, StatusCritical, StatusUnknown, StatusSkipped}"
begin

lemma flag_not_ok: "StatusOK \<notin> statuses (concat (map flag xs))"
  using flag_sound by fastforce

lemma scan_wf: "wf_findings ident (scan_check ident op okmsg flag r)"
proof (cases r)
  case (Inl e)
  then show ?thesis by (simp add: scan_check_def wf_unknown)
next
  case (Inr xs)
  have "f_check f = ident \<and>
      f_status f \<in> {StatusOK, StatusWarning, StatusCritical, StatusUnknown, StatusSkipped}"
    if "f \<in> set (concat (map flag xs))" for f
    using that flag_sound by auto
  then show ?thesis by (simp add: Inr scan_check_def wf_or_ok)
qed

lemma scan_ok:
  "StatusOK \<in> statuses (scan_check ident op okmsg flag (Inr xs)) \<longleftrightarrow> (\<forall>x \<in> set xs. flag x = [])"
  unfolding scan_check_def sum.case ok_in_or_ok [OF flag_not_ok] by auto

lemma scan_status:
  "s \<noteq> StatusOK \<Longrightarrow> s \<in> statuses (scan_check ident op okmsg flag (Inr xs)) \<longleftrightarrow>
     (\<exists>x \<in> set xs. s \<in> statuses (flag x))"
  unfolding scan_check_def sum.case by (subst in_or_ok) auto

lemma scan_error: "statuses (scan_check ident op okmsg flag (Inl e)) = {StatusUnknown}"
  by (simp add: scan_check_def)

lemma scan_not_silent:
  "StatusOK \<in> statuses (scan_check ident op okmsg flag r) \<Longrightarrow> \<exists>xs. r = Inr xs"
  by (cases r) (simp_all add: scan_check_def)

end

text \<open>A check of the program: all of them need the API server only.\<close>

definition mk_check ::
  "string \<Rightarrow> string \<Rightarrow> string list \<Rightarrow> string list option \<Rightarrow> (cluster \<Rightarrow> finding list) \<Rightarrow> cluster check" where
  "mk_check ident desc cats distros run = \<lparr>chk_id = ident, chk_desc = desc, chk_cats = cats,
     chk_requires = CapAPIServer, chk_distros = distros, chk_run = run\<rparr>"

lemma mk_check_sel [simp]:
  "chk_id (mk_check i d cs ds r) = i" "chk_run (mk_check i d cs ds r) = r"
  "chk_requires (mk_check i d cs ds r) = CapAPIServer" "chk_cats (mk_check i d cs ds r) = cs"
  "chk_distros (mk_check i d cs ds r) = ds"
  by (simp_all add: mk_check_def)

definition keeps_contract :: "cluster check \<Rightarrow> bool" where
  "keeps_contract c \<longleftrightarrow> (\<forall>e. wf_findings (chk_id c) (chk_run c e))"

lemma contract_honest: "keeps_contract c \<Longrightarrow> honest c"
  by (simp add: keeps_contract_def honest_def wf_findings_def)

subsection \<open>Two clusters: an empty one, and one whose API server refuses everything\<close>

text \<open>Clients of an etcd that no mode reaches: every call fails with the text \<open>e\<close>.\<close>

definition no_etcd :: "string \<Rightarrow> etcd_clients" where
  "no_etcd e = \<lparr>
     ec_direct = \<lparr>dw_tls_config = (\<lambda>_ _ _. Some e), dw_new_client = (\<lambda>_. Some e), dw_member_list = Some e,
       dw_status = (\<lambda>_. Inl e), dw_alarms = None, dw_now = 0\<rparr>,
     ec_job = \<lparr>jw_now = 0, jw_create = Some e, jw_polls = [], jw_logs = (\<lambda>_. Inl e), jw_read_error = None\<rparr>,
     ec_api = \<lparr>aw_rest = True, aw_readyz = Inl e, aw_now = 0\<rparr>,
     ec_pod = \<lparr>pw_config = True, pw_pods = Inl e, pw_exec = (\<lambda>_ _ _. None), pw_now = 0\<rparr>\<rparr>"

definition empty_cluster :: cluster where
  "empty_cluster = \<lparr>
     cl_env = \<lparr>ke_mode = ModeOutOfCluster, ke_config = [], ke_namespace = [], ke_all_namespaces = True,
       ke_cluster = [],
       ke_etcd = no_etcd_flags\<lparr>ef_mode := EtcdAuto\<rparr>\<rparr>,
     cl_now = 0, cl_pods = (\<lambda>_ _. Inr []), cl_nodes = Inr [], cl_deployments = (\<lambda>_ _. Inr []),
     cl_statefulsets = (\<lambda>_. Inr []), cl_daemonsets = (\<lambda>_. Inr []), cl_services = (\<lambda>_. Inr []),
     cl_service_ports = (\<lambda>_ _. Inr []), cl_endpoint_slices = (\<lambda>_ _. Inr []),
     cl_selector_string = (\<lambda>_. []), cl_pvcs = (\<lambda>_. Inr []), cl_pvs = Inr [],
     cl_attachments = Inr [], cl_storage_classes = Inr [], cl_events = (\<lambda>_. Inr []),
     cl_namespaces = Inr [],
     cl_lease = (\<lambda>_ _. Inr \<lparr>ls_holder = None, ls_duration = None, ls_renew = None, ls_acquire = None\<rparr>),
     cl_hpas = (\<lambda>_. Inr []), cl_get = (\<lambda>_ _ _. None), cl_ingresses = (\<lambda>_. Inr []),
     cl_ingress_classes = Inr [], cl_pdbs = (\<lambda>_. Inr []), cl_configmaps = (\<lambda>_. Inr []),
     cl_secrets = (\<lambda>_. Inr []), cl_service_accounts = (\<lambda>_. Inr []), cl_cluster_roles = Inr [],
     cl_roles = (\<lambda>_. Inr []), cl_validating = Inr [], cl_mutating = Inr [],
     cl_jobs = (\<lambda>_ _. Inr []), cl_dynamic = (\<lambda>_ _ _. Inr []), cl_readyz = Some (Inr ''ok''),
     cl_kubelet_healthz = Some (\<lambda>_. Inr ''ok''), cl_server_minor = Inr ''31'',
     cl_raw_get = (\<lambda>_. Inr ''{}''), cl_json_error = (\<lambda>_ _. ''bad JSON''), cl_milli = (\<lambda>_. 0),
     cl_value = (\<lambda>_. 0), cl_etcd = no_etcd ''connection refused'', cl_host = None, cl_url_host = Inr,
     cl_tls_error = None, cl_dial = (\<lambda>_. Inl (''timeout'', [OtherCause])),
     cl_range = (\<lambda>ks. ks)\<rparr>"

text \<open>
  Every request to the API server fails, each with an error of its own. The TLS dial of
  \<open>apiserver.certExpiry\<close> and the etcd client of direct mode are no requests to it.
\<close>

definition dead_cluster :: "cluster \<Rightarrow> bool" where
  "dead_cluster c \<longleftrightarrow>
     (\<forall>a b. isl (cl_pods c a b)) \<and> isl (cl_nodes c) \<and> (\<forall>a b. isl (cl_deployments c a b)) \<and>
     (\<forall>a. isl (cl_statefulsets c a)) \<and> (\<forall>a. isl (cl_daemonsets c a)) \<and>
     (\<forall>a. isl (cl_services c a)) \<and> (\<forall>a b. isl (cl_service_ports c a b)) \<and>
     (\<forall>a b. isl (cl_endpoint_slices c a b)) \<and> (\<forall>a. isl (cl_pvcs c a)) \<and> isl (cl_pvs c) \<and>
     isl (cl_attachments c) \<and> isl (cl_storage_classes c) \<and> (\<forall>a. isl (cl_events c a)) \<and>
     isl (cl_namespaces c) \<and> (\<forall>a b. isl (cl_lease c a b)) \<and> (\<forall>a. isl (cl_hpas c a)) \<and>
     (\<forall>k a b. cl_get c k a b \<noteq> None) \<and> (\<forall>a. isl (cl_ingresses c a)) \<and>
     isl (cl_ingress_classes c) \<and> (\<forall>a. isl (cl_pdbs c a)) \<and> (\<forall>a. isl (cl_configmaps c a)) \<and>
     (\<forall>a. isl (cl_secrets c a)) \<and> (\<forall>a. isl (cl_service_accounts c a)) \<and>
     isl (cl_cluster_roles c) \<and> (\<forall>a. isl (cl_roles c a)) \<and> isl (cl_validating c) \<and>
     isl (cl_mutating c) \<and> (\<forall>a b. isl (cl_jobs c a b)) \<and> (\<forall>g v r. isl (cl_dynamic c g v r)) \<and>
     (\<forall>r. cl_readyz c = Some r \<longrightarrow> isl r) \<and> isl (cl_server_minor c) \<and> (\<forall>p. isl (cl_raw_get c p)) \<and>
     jw_create (ec_job (cl_etcd c)) \<noteq> None \<and> isl (aw_readyz (ec_api (cl_etcd c))) \<and>
     isl (pw_pods (ec_pod (cl_etcd c)))"

lemma dead_calls:
  assumes "dead_cluster c"
  shows "isl (cl_pods c ns l)" "isl (cl_nodes c)" "isl (cl_deployments c ns l)"
    "isl (cl_statefulsets c ns)" "isl (cl_daemonsets c ns)" "isl (cl_services c ns)"
    "isl (cl_service_ports c ns l)" "isl (cl_endpoint_slices c ns l)" "isl (cl_pvcs c ns)"
    "isl (cl_pvs c)" "isl (cl_attachments c)" "isl (cl_storage_classes c)" "isl (cl_events c ns)"
    "isl (cl_namespaces c)" "isl (cl_lease c ns l)" "isl (cl_hpas c ns)" "\<exists>e. cl_get c k ns l = Some e"
    "isl (cl_ingresses c ns)" "isl (cl_ingress_classes c)" "isl (cl_pdbs c ns)"
    "isl (cl_cluster_roles c)" "isl (cl_roles c ns)" "isl (cl_validating c)" "isl (cl_mutating c)"
    "isl (cl_jobs c ns l)" "isl (cl_dynamic c k ns l)" "cl_readyz c = Some r \<Longrightarrow> isl r"
    "isl (cl_server_minor c)" "isl (cl_raw_get c k)"
  using assms by (simp_all add: dead_cluster_def)

lemma dead_etcd_calls:
  assumes "dead_cluster c"
  shows "jw_create (ec_job (cl_etcd c)) \<noteq> None" "isl (aw_readyz (ec_api (cl_etcd c)))"
    "isl (pw_pods (ec_pod (cl_etcd c)))"
  using assms by (simp_all add: dead_cluster_def)

text \<open>A failed call takes the branch of its error.\<close>

lemma case_failed: "isl r \<Longrightarrow> (case r of Inl e \<Rightarrow> f e | Inr x \<Rightarrow> g x) = f (projl r)"
  by (cases r) simp_all

end
