(* ===== verification/PodChecks.thy ===== *)
theory PodChecks
  imports CheckBase
begin

section \<open>The pod checks (checks/pods_*.go)\<close>

text \<open>
  One group of definitions per file: the loop body, the \<open>Run\<close> method and the registered
  check. \<open>pods.missingRefs\<close> collects messages per pod; \<open>pod_refs\<close> is its specification,
  the references a pod cannot start without.
\<close>

subsection \<open>pods.pending\<close>

definition pendingThreshold :: duration where "pendingThreshold = 5 * Minute"

fun pendingReason_loop :: "condition list \<Rightarrow> string" where
  "pendingReason_loop [] = ''unscheduled''"
| "pendingReason_loop (c # cs) =
     (if cd_type c = ''PodScheduled'' \<and> cd_status c = ''False'' \<and> cd_reason c \<noteq> [] then cd_reason c
      else pendingReason_loop cs)"

definition pendingReason :: "pod \<Rightarrow> string" where
  "pendingReason p = pendingReason_loop (pod_conds p)"

definition pending_flag :: "instant \<Rightarrow> pod \<Rightarrow> finding list" where
  "pending_flag now p =
     (if pod_phase p \<noteq> ''Pending'' then []
      else let age = time_sub now (pod_created p) in
        if age < pendingThreshold then []
        else let reason = pendingReason p in
          [detailed (mk_finding ''pods.pending'' StatusWarning (resourceID ''pod'' (pod_ns p) (pod_name p))
             (''Pending for '' @ duration_string (duration_round age Second) @ '' ('' @ reason @ '')''))
             [(''reason'', reason), (''ageSeconds'', fmt_f0 (duration_in Second age))]])"

definition podsPending_Run :: "cluster \<Rightarrow> finding list" where
  "podsPending_Run c = scan_check ''pods.pending'' ''list pods'' ''no pods stuck in Pending''
     (pending_flag (cl_now c)) (cl_pods c (list_ns c) [])"

definition podsPending :: "cluster check" where
  "podsPending = mk_check ''pods.pending'' ''Pods stuck in Pending past the threshold''
     [CategoryWorkload] None podsPending_Run"

subsection \<open>pods.backoff\<close>

definition backoffReasons :: "string set" where
  "backoffReasons = {''CrashLoopBackOff'', ''ImagePullBackOff'', ''ErrImagePull''}"

definition backoff_flag_container :: "pod \<Rightarrow> container_status \<Rightarrow> finding list" where
  "backoff_flag_container p cs =
     (case cs_waiting cs of
        None \<Rightarrow> []
      | Some reason \<Rightarrow>
          if reason \<notin> backoffReasons then []
          else [detailed (mk_finding ''pods.backoff'' StatusCritical
                  (resourceID ''pod'' (pod_ns p) (pod_name p))
                  (reason @ '': container '' @ quote (cs_name cs) @ '' ('' @ itoa (cs_restarts cs) @ '' restarts)''))
                  [(''reason'', reason), (''container'', cs_name cs), (''image'', cs_image cs)]])"

definition backoff_flag :: "pod \<Rightarrow> finding list" where
  "backoff_flag p = concat (map (backoff_flag_container p) (pod_cstats p))"

definition podsBackoff_Run :: "cluster \<Rightarrow> finding list" where
  "podsBackoff_Run c = scan_check ''pods.backoff'' ''list pods'' ''no pods in backoff''
     backoff_flag (cl_pods c (list_ns c) [])"

definition podsBackoff :: "cluster check" where
  "podsBackoff = mk_check ''pods.backoff'' ''Pods in CrashLoopBackOff or ImagePullBackOff''
     [CategoryWorkload] None podsBackoff_Run"

subsection \<open>pods.oomKilled\<close>

definition oom_flag_container :: "pod \<Rightarrow> container_status \<Rightarrow> finding list" where
  "oom_flag_container p cs =
     (case cs_terminated cs of
        None \<Rightarrow> []
      | Some (reason, exit) \<Rightarrow>
          if reason \<noteq> ''OOMKilled'' then []
          else [detailed (mk_finding ''pods.oomKilled'' StatusWarning
                  (resourceID ''pod'' (pod_ns p) (pod_name p))
                  (''container '' @ quote (cs_name cs) @ '' last terminated with OOMKilled (exit '' @ itoa exit @ '')''))
                  [(''container'', cs_name cs), (''exitCode'', itoa exit)]])"

definition oom_flag :: "pod \<Rightarrow> finding list" where
  "oom_flag p = concat (map (oom_flag_container p) (pod_cstats p))"

definition podsOOMKilled_Run :: "cluster \<Rightarrow> finding list" where
  "podsOOMKilled_Run c = scan_check ''pods.oomKilled'' ''list pods'' ''no recent OOMKilled containers''
     oom_flag (cl_pods c (list_ns c) [])"

definition podsOOMKilled :: "cluster check" where
  "podsOOMKilled = mk_check ''pods.oomKilled'' ''Containers whose last termination reason was OOMKilled''
     [CategoryWorkload] None podsOOMKilled_Run"

subsection \<open>pods.restarts\<close>

definition restartsWarnAt :: int where "restartsWarnAt = 5"
definition restartsCritAt :: int where "restartsCritAt = 20"

definition restarts_flag_container :: "pod \<Rightarrow> container_status \<Rightarrow> finding list" where
  "restarts_flag_container p cs =
     (if cs_restarts cs < restartsWarnAt then []
      else [mk_finding ''pods.restarts''
              (if cs_restarts cs \<ge> restartsCritAt then StatusCritical else StatusWarning)
              (resourceID ''pod'' (pod_ns p) (pod_name p))
              (''container '' @ quote (cs_name cs) @ '' restarted '' @ itoa (cs_restarts cs) @ '' times'')])"

definition restarts_flag :: "pod \<Rightarrow> finding list" where
  "restarts_flag p = concat (map (restarts_flag_container p) (pod_cstats p))"

definition podsRestarts_Run :: "cluster \<Rightarrow> finding list" where
  "podsRestarts_Run c = scan_check ''pods.restarts'' ''list pods'' ''no containers above restart threshold''
     restarts_flag (cl_pods c (list_ns c) [])"

definition podsRestarts :: "cluster check" where
  "podsRestarts = mk_check ''pods.restarts'' ''containers with elevated restart counts''
     [CategoryWorkload] None podsRestarts_Run"

subsection \<open>pods.notReady\<close>

definition notReadyThreshold :: duration where "notReadyThreshold = 5 * Minute"

definition notReady_flag_container :: "pod \<Rightarrow> container_status \<Rightarrow> finding list" where
  "notReady_flag_container p cs =
     (if cs_ready cs then []
      else [detailed (mk_finding ''pods.notReady'' StatusWarning (resourceID ''pod'' (pod_ns p) (pod_name p))
              (''container '' @ quote (cs_name cs) @ '' not ready'')) [(''container'', cs_name cs)]])"

definition notReady_flag :: "instant \<Rightarrow> pod \<Rightarrow> finding list" where
  "notReady_flag now p =
     (if pod_phase p \<noteq> ''Running'' then []
      else if time_sub now (pod_created p) < notReadyThreshold then []
      else concat (map (notReady_flag_container p) (pod_cstats p)))"

definition podsNotReady_Run :: "cluster \<Rightarrow> finding list" where
  "podsNotReady_Run c = scan_check ''pods.notReady'' ''list pods'' ''all running pods are ready''
     (notReady_flag (cl_now c)) (cl_pods c (list_ns c) [])"

definition podsNotReady :: "cluster check" where
  "podsNotReady = mk_check ''pods.notReady'' ''Running pods with not-ready containers past the threshold''
     [CategoryWorkload] None podsNotReady_Run"

subsection \<open>pods.missingRefs\<close>

definition indexByNSName :: "(string \<times> string) list \<Rightarrow> string set" where
  "indexByNSName items = set (map (\<lambda>(ns, name). ns @ ''/'' @ name) items)"

definition is_optional :: "ref_source \<Rightarrow> bool" where
  "is_optional r \<longleftrightarrow> snd r = Some True"

definition missing_unless :: "string set \<Rightarrow> string \<Rightarrow> string \<Rightarrow> string \<Rightarrow> string list" where
  "missing_unless present ns name msg = (if ns @ ''/'' @ name \<in> present then [] else [msg])"

text \<open>A projected source: an optional ConfigMap skips the rest of the source (\<open>continue\<close>).\<close>

definition projected_missing :: "string set \<Rightarrow> string set \<Rightarrow> string \<Rightarrow> projection \<Rightarrow> string list" where
  "projected_missing cm sec ns src =
     (let secret_part =
            (case pj_secret src of
               None \<Rightarrow> []
             | Some s \<Rightarrow> if is_optional s then []
                         else missing_unless sec ns (fst s) (''secret/'' @ fst s @ '' missing (projected)''))
      in case pj_cm src of
           None \<Rightarrow> secret_part
         | Some m \<Rightarrow> if is_optional m then []
                     else missing_unless cm ns (fst m) (''configmap/'' @ fst m @ '' missing (projected)'')
                          @ secret_part)"

definition volume_missing ::
  "string set \<Rightarrow> string set \<Rightarrow> string set \<Rightarrow> string \<Rightarrow> volume \<Rightarrow> string list" where
  "volume_missing cm sec pvc ns v =
     (case vol_pvc v of
        Some name \<Rightarrow> missing_unless pvc ns name (''persistentvolumeclaim/'' @ name @ '' missing'')
      | None \<Rightarrow>
     (case vol_cm v of
        Some m \<Rightarrow> if is_optional m then []
          else missing_unless cm ns (fst m)
                 (''configmap/'' @ fst m @ '' missing (volume '' @ vol_name v @ '')'')
      | None \<Rightarrow>
     (case vol_secret v of
        Some s \<Rightarrow> if is_optional s then []
          else missing_unless sec ns (fst s)
                 (''secret/'' @ fst s @ '' missing (volume '' @ vol_name v @ '')'')
      | None \<Rightarrow>
     (case vol_projected v of
        Some srcs \<Rightarrow> concat (map (projected_missing cm sec ns) srcs)
      | None \<Rightarrow> []))))"

definition env_from_missing ::
  "string set \<Rightarrow> string set \<Rightarrow> string \<Rightarrow> string \<Rightarrow> projection \<Rightarrow> string list" where
  "env_from_missing cm sec ns ctr ef =
     (case pj_cm ef of
        None \<Rightarrow> []
      | Some m \<Rightarrow> if is_optional m then []
          else missing_unless cm ns (fst m)
                 (''configmap/'' @ fst m @ '' missing (envFrom in '' @ ctr @ '')'')) @
     (case pj_secret ef of
        None \<Rightarrow> []
      | Some s \<Rightarrow> if is_optional s then []
          else missing_unless sec ns (fst s)
                 (''secret/'' @ fst s @ '' missing (envFrom in '' @ ctr @ '')''))"

definition podMissingRefs ::
  "pod \<Rightarrow> string set \<Rightarrow> string set \<Rightarrow> string set \<Rightarrow> string set \<Rightarrow> string list" where
  "podMissingRefs p cm sec sa pvc =
     (let ns = pod_ns p;
          saName = (if pod_sa p = [] then ''default'' else pod_sa p)
      in missing_unless sa ns saName (''serviceaccount/'' @ saName @ '' missing'') @
         concat (map (volume_missing cm sec pvc ns) (pod_volumes p)) @
         concat (map (\<lambda>ctr. concat (map (env_from_missing cm sec ns (ctr_name ctr)) (ctr_env_from ctr)))
                  (pod_containers p)))"

text \<open>The error of a list call is dropped and the list it returned is empty.\<close>

definition items_or_none :: "api_error + 'x list \<Rightarrow> 'x list" where
  "items_or_none r = (case r of Inl e \<Rightarrow> [] | Inr xs \<Rightarrow> xs)"

definition missing_flag ::
  "string set \<Rightarrow> string set \<Rightarrow> string set \<Rightarrow> string set \<Rightarrow> pod \<Rightarrow> finding list" where
  "missing_flag cm sec sa pvc p =
     map (\<lambda>msg. mk_finding ''pods.missingRefs'' StatusCritical
            (resourceID ''pod'' (pod_ns p) (pod_name p)) msg)
       (podMissingRefs p cm sec sa pvc)"

definition podsMissingRefs_Run :: "cluster \<Rightarrow> finding list" where
  "podsMissingRefs_Run c =
     (let ns = list_ns c;
          cmSet = indexByNSName (items_or_none (cl_configmaps c ns));
          secSet = indexByNSName (items_or_none (cl_secrets c ns));
          saSet = indexByNSName (items_or_none (cl_service_accounts c ns));
          pvcSet = indexByNSName (map (\<lambda>p. (pvc_ns p, pvc_name p)) (items_or_none (cl_pvcs c ns)))
      in scan_check ''pods.missingRefs'' ''list pods'' ''all pod references resolve''
           (missing_flag cmSet secSet saSet pvcSet) (cl_pods c ns []))"

definition podsMissingRefs :: "cluster check" where
  "podsMissingRefs = mk_check ''pods.missingRefs''
     ''pods reference ConfigMaps/Secrets/SAs/PVCs that don't exist'' [CategoryWorkload] None
     podsMissingRefs_Run"

subsection \<open>The contract of the loop bodies\<close>

interpretation pend: item_scan "''pods.pending''" "pending_flag now" for now
  by unfold_locales (auto simp: pending_flag_def Let_def split: if_splits)

interpretation bkf: item_scan "''pods.backoff''" backoff_flag
  by unfold_locales (auto simp: backoff_flag_def backoff_flag_container_def split: option.splits if_splits)

interpretation oom: item_scan "''pods.oomKilled''" oom_flag
  by unfold_locales (auto simp: oom_flag_def oom_flag_container_def split: option.splits if_splits)

interpretation rest: item_scan "''pods.restarts''" restarts_flag
  by unfold_locales (auto simp: restarts_flag_def restarts_flag_container_def split: if_splits)

interpretation nrdy: item_scan "''pods.notReady''" "notReady_flag now" for now
  by unfold_locales (auto simp: notReady_flag_def notReady_flag_container_def split: if_splits)

interpretation refs: item_scan "''pods.missingRefs''" "missing_flag cm sec sa pvc" for cm sec sa pvc
  by unfold_locales (auto simp: missing_flag_def)

lemma pod_checks_contract [check_contract]:
  "keeps_contract podsPending" "keeps_contract podsBackoff" "keeps_contract podsOOMKilled"
  "keeps_contract podsRestarts" "keeps_contract podsNotReady" "keeps_contract podsMissingRefs"
  by (simp_all add: keeps_contract_def podsPending_def podsPending_Run_def pend.scan_wf
      podsBackoff_def podsBackoff_Run_def bkf.scan_wf podsOOMKilled_def podsOOMKilled_Run_def
      oom.scan_wf podsRestarts_def podsRestarts_Run_def rest.scan_wf podsNotReady_def
      podsNotReady_Run_def nrdy.scan_wf podsMissingRefs_def podsMissingRefs_Run_def refs.scan_wf Let_def)

subsection \<open>What a pod cannot start without\<close>

text \<open>
  The references of a pod that \<open>pods.missingRefs\<close> is about, in the order of the specification:
  its ServiceAccount, its volumes, the \<open>envFrom\<close> of its containers. An entry has the kind, the name
  and the remark a message ends with; optional sources are left out.
\<close>

datatype ref_kind = ServiceAccountRef | PvcRef | ConfigMapRef | SecretRef

type_synonym reference = "ref_kind \<times> string \<times> string"

definition opt_ref :: "ref_kind \<Rightarrow> ref_source option \<Rightarrow> string \<Rightarrow> reference list" where
  "opt_ref k r remark = (case r of None \<Rightarrow> [] | Some s \<Rightarrow> if is_optional s then [] else [(k, fst s, remark)])"

definition source_refs :: "string \<Rightarrow> projection \<Rightarrow> reference list" where
  "source_refs remark src = opt_ref ConfigMapRef (pj_cm src) remark @ opt_ref SecretRef (pj_secret src) remark"

definition volume_refs :: "volume \<Rightarrow> reference list" where
  "volume_refs v =
     (if vol_pvc v \<noteq> None then [(PvcRef, the (vol_pvc v), [])]
      else if vol_cm v \<noteq> None then opt_ref ConfigMapRef (vol_cm v) ('' (volume '' @ vol_name v @ '')'')
      else if vol_secret v \<noteq> None then opt_ref SecretRef (vol_secret v) ('' (volume '' @ vol_name v @ '')'')
      else (case vol_projected v of None \<Rightarrow> [] | Some srcs \<Rightarrow> concat (map (source_refs '' (projected)'') srcs)))"

definition pod_refs :: "pod \<Rightarrow> reference list" where
  "pod_refs p =
     (ServiceAccountRef, if pod_sa p = [] then ''default'' else pod_sa p, []) #
     concat (map volume_refs (pod_volumes p)) @
     concat (map (\<lambda>ctr. concat (map (source_refs ('' (envFrom in '' @ ctr_name ctr @ '')'')) (ctr_env_from ctr)))
       (pod_containers p))"

fun kind_text :: "ref_kind \<Rightarrow> string" where
  "kind_text ServiceAccountRef = ''serviceaccount/''"
| "kind_text PvcRef = ''persistentvolumeclaim/''"
| "kind_text ConfigMapRef = ''configmap/''"
| "kind_text SecretRef = ''secret/''"

definition ref_message :: "reference \<Rightarrow> string" where
  "ref_message r = (case r of (k, n, remark) \<Rightarrow> kind_text k @ n @ '' missing'' @ remark)"

text \<open>
  A projected source names one object in a valid pod; the code's \<open>continue\<close> differs from the
  specification only for a source with an optional ConfigMap and a Secret at once.
\<close>

definition one_source :: "pod \<Rightarrow> bool" where
  "one_source p \<longleftrightarrow> (\<forall>v \<in> set (pod_volumes p). \<forall>srcs. vol_projected v = Some srcs \<longrightarrow>
     (\<forall>src \<in> set srcs. pj_cm src = None \<or> pj_secret src = None))"

fun resolves :: "string set \<Rightarrow> string set \<Rightarrow> string set \<Rightarrow> string set \<Rightarrow> string \<Rightarrow> ref_kind \<times> string \<Rightarrow> bool" where
  "resolves cm sec sa pvc ns (ServiceAccountRef, n) \<longleftrightarrow> ns @ ''/'' @ n \<in> sa"
| "resolves cm sec sa pvc ns (PvcRef, n) \<longleftrightarrow> ns @ ''/'' @ n \<in> pvc"
| "resolves cm sec sa pvc ns (ConfigMapRef, n) \<longleftrightarrow> ns @ ''/'' @ n \<in> cm"
| "resolves cm sec sa pvc ns (SecretRef, n) \<longleftrightarrow> ns @ ''/'' @ n \<in> sec"

text \<open>The messages for the references in a list that do not resolve.\<close>

definition unresolved ::
  "string set \<Rightarrow> string set \<Rightarrow> string set \<Rightarrow> string set \<Rightarrow> string \<Rightarrow> reference list \<Rightarrow> string list" where
  "unresolved cm sec sa pvc ns rs = map ref_message (filter (\<lambda>(k, n, _). \<not> resolves cm sec sa pvc ns (k, n)) rs)"

lemma unresolved_list [simp]:
  "unresolved cm sec sa pvc ns [] = []"
  "unresolved cm sec sa pvc ns (rs @ rs') = unresolved cm sec sa pvc ns rs @ unresolved cm sec sa pvc ns rs'"
  by (simp_all add: unresolved_def)

lemma unresolved_concat:
  "unresolved cm sec sa pvc ns (concat (map f xs)) = concat (map (\<lambda>x. unresolved cm sec sa pvc ns (f x)) xs)"
  by (induction xs) simp_all

lemma unresolved_ref:
  "unresolved cm sec sa pvc ns ((k, n, w) # rs) =
     (if resolves cm sec sa pvc ns (k, n) then [] else [kind_text k @ n @ '' missing'' @ w]) @
     unresolved cm sec sa pvc ns rs"
  by (simp add: unresolved_def ref_message_def)

lemma projected_missing_refs:
  "pj_cm src = None \<or> pj_secret src = None \<Longrightarrow>
     projected_missing cm sec ns src = unresolved cm sec sa pvc ns (source_refs '' (projected)'' src)"
  by (auto simp: projected_missing_def source_refs_def opt_ref_def missing_unless_def unresolved_ref Let_def
      split: option.split)

lemma env_from_missing_refs:
  "env_from_missing cm sec ns ctr ef =
     unresolved cm sec sa pvc ns (source_refs ('' (envFrom in '' @ ctr @ '')'') ef)"
  by (simp add: env_from_missing_def source_refs_def opt_ref_def missing_unless_def unresolved_ref
      split: option.split)

lemma volume_missing_refs:
  assumes "\<forall>srcs. vol_projected v = Some srcs \<longrightarrow>
     (\<forall>src \<in> set srcs. pj_cm src = None \<or> pj_secret src = None)"
  shows "volume_missing cm sec pvc ns v = unresolved cm sec sa pvc ns (volume_refs v)"
proof -
  have "concat (map (projected_missing cm sec ns) srcs) =
      concat (map (\<lambda>src. unresolved cm sec sa pvc ns (source_refs '' (projected)'' src)) srcs)"
    if "vol_projected v = Some srcs" for srcs
    using assms that by (intro arg_cong [of _ _ concat] map_cong refl projected_missing_refs) simp
  then show ?thesis
    by (auto simp: volume_missing_def volume_refs_def opt_ref_def missing_unless_def unresolved_ref
        unresolved_concat split: option.split)
qed

lemma podMissingRefs_refs:
  assumes "one_source p"
  shows "podMissingRefs p cm sec sa pvc = unresolved cm sec sa pvc (pod_ns p) (pod_refs p)"
proof -
  have "map (volume_missing cm sec pvc (pod_ns p)) (pod_volumes p) =
      map (\<lambda>v. unresolved cm sec sa pvc (pod_ns p) (volume_refs v)) (pod_volumes p)"
    using assms unfolding one_source_def by (intro map_cong refl volume_missing_refs) simp
  then have "concat (map (volume_missing cm sec pvc (pod_ns p)) (pod_volumes p)) =
      concat (map (\<lambda>v. unresolved cm sec sa pvc (pod_ns p) (volume_refs v)) (pod_volumes p))" by (rule arg_cong)
  moreover have "concat (map (env_from_missing cm sec (pod_ns p) ctr) efs) =
      concat (map (\<lambda>ef. unresolved cm sec sa pvc (pod_ns p) (source_refs ('' (envFrom in '' @ ctr @ '')'') ef)) efs)"
    for ctr efs
    using env_from_missing_refs [of cm sec "pod_ns p" ctr _ sa pvc] by (metis (no_types, lifting) map_eq_conv)
  ultimately show ?thesis
    unfolding podMissingRefs_def pod_refs_def Let_def unresolved_ref unresolved_list unresolved_concat
    by (simp add: missing_unless_def)
qed

subsection \<open>Properties\<close>

lemma indexByNSName_iff:
  assumes "\<forall>(a, b) \<in> set items. CHR ''/'' \<notin> set a" and "CHR ''/'' \<notin> set ns"
  shows "ns @ ''/'' @ n \<in> indexByNSName items \<longleftrightarrow> (ns, n) \<in> set items"
proof
  assume "ns @ ''/'' @ n \<in> indexByNSName items"
  then obtain a b where ab: "(a, b) \<in> set items" "ns @ ''/'' @ n = a @ ''/'' @ b"
    by (auto simp: indexByNSName_def)
  then have "CHR ''/'' \<notin> set a" using assms(1) by auto
  then show "(ns, n) \<in> set items" using ab assms(2) append_sep_eq [of "CHR ''/''" ns a n b] by auto
qed (force simp: indexByNSName_def)

text \<open>The objects of each kind the namespace scope shows.\<close>

fun ref_items :: "cluster \<Rightarrow> ref_kind \<Rightarrow> (string \<times> string) list" where
  "ref_items c ServiceAccountRef = items_or_none (cl_service_accounts c (list_ns c))"
| "ref_items c PvcRef = map (\<lambda>p. (pvc_ns p, pvc_name p)) (items_or_none (cl_pvcs c (list_ns c)))"
| "ref_items c ConfigMapRef = items_or_none (cl_configmaps c (list_ns c))"
| "ref_items c SecretRef = items_or_none (cl_secrets c (list_ns c))"

text \<open>The finding for a reference of a pod.\<close>

definition missing_finding :: "pod \<Rightarrow> reference \<Rightarrow> finding" where
  "missing_finding p r =
     mk_finding ''pods.missingRefs'' StatusCritical (resourceID ''pod'' (pod_ns p) (pod_name p)) (ref_message r)"

lemma missing_flag_refs:
  assumes "one_source p"
  shows "missing_flag cm sec sa pvc p =
    map (missing_finding p) (filter (\<lambda>(k, n, _). \<not> resolves cm sec sa pvc (pod_ns p) (k, n)) (pod_refs p))"
  by (simp add: missing_flag_def podMissingRefs_refs [OF assms] unresolved_def missing_finding_def)

lemma resolves_listed:
  assumes "CHR ''/'' \<notin> set ns" and "\<forall>k. \<forall>(a, b) \<in> set (ref_items c k). CHR ''/'' \<notin> set a"
  shows "resolves (indexByNSName (ref_items c ConfigMapRef)) (indexByNSName (ref_items c SecretRef))
      (indexByNSName (ref_items c ServiceAccountRef)) (indexByNSName (ref_items c PvcRef)) ns (k, n)
      \<longleftrightarrow> (ns, n) \<in> set (ref_items c k)"
  using indexByNSName_iff [OF assms(2) [THEN spec, of k] assms(1), of n] by (cases k) simp_all

lemma missing_refs_run:
  assumes "cl_pods c (list_ns c) [] = Inr ps"
  shows "podsMissingRefs_Run c = or_ok ''pods.missingRefs'' ''all pod references resolve''
     (concat (map (missing_flag (indexByNSName (ref_items c ConfigMapRef)) (indexByNSName (ref_items c SecretRef))
       (indexByNSName (ref_items c ServiceAccountRef)) (indexByNSName (ref_items c PvcRef))) ps))"
  by (simp add: podsMissingRefs_Run_def scan_check_def Let_def assms)

text \<open>
  C28. \<open>pods.missingRefs\<close> is exact: for the pods it lists, whatever their phase, it gives one CRIT
  finding for each reference (ServiceAccount, PVC, non-optional ConfigMap or Secret of a volume or
  of \<open>envFrom\<close>) that is not among the listed objects of the pod's namespace, in the order of the
  pods and of their references and with the kind, the name and the place in the message, nothing
  else, and one OK finding when there is none. Every projected source of the pods names one
  object, and no namespace has a slash in its name, as Kubernetes demands; a list that fails
  counts as empty.
\<close>

theorem missing_refs_exact:
  assumes "cl_pods c (list_ns c) [] = Inr ps" and "\<forall>p \<in> set ps. one_source p \<and> CHR ''/'' \<notin> set (pod_ns p)"
    and "\<forall>k. \<forall>(a, b) \<in> set (ref_items c k). CHR ''/'' \<notin> set a"
  shows "podsMissingRefs_Run c =
     (let out = concat (map (\<lambda>p. map (missing_finding p)
            (filter (\<lambda>(k, n, _). (pod_ns p, n) \<notin> set (ref_items c k)) (pod_refs p))) ps)
      in if out = [] then [okFinding ''pods.missingRefs'' ''all pod references resolve''] else out)"
proof -
  have "missing_flag (indexByNSName (ref_items c ConfigMapRef)) (indexByNSName (ref_items c SecretRef))
      (indexByNSName (ref_items c ServiceAccountRef)) (indexByNSName (ref_items c PvcRef)) p =
      map (missing_finding p) (filter (\<lambda>(k, n, _). (pod_ns p, n) \<notin> set (ref_items c k)) (pod_refs p))"
    if "p \<in> set ps" for p
  proof -
    have "one_source p" "CHR ''/'' \<notin> set (pod_ns p)" using that assms(2) by auto
    then show ?thesis unfolding missing_flag_refs [OF \<open>one_source p\<close>]
      using resolves_listed [OF _ assms(3)] by (intro arg_cong [of _ _ "map (missing_finding p)"] filter_cong refl) auto
  qed
  then have "map (missing_flag (indexByNSName (ref_items c ConfigMapRef)) (indexByNSName (ref_items c SecretRef))
      (indexByNSName (ref_items c ServiceAccountRef)) (indexByNSName (ref_items c PvcRef))) ps =
      map (\<lambda>p. map (missing_finding p) (filter (\<lambda>(k, n, _). (pod_ns p, n) \<notin> set (ref_items c k)) (pod_refs p))) ps"
    by (intro map_cong refl)
  then show ?thesis by (simp only: missing_refs_run [OF assms(1)] or_ok_def Let_def)
qed

definition demo_pod :: pod where
  "demo_pod = \<lparr>pod_ns = ''shop'', pod_name = ''web'', pod_phase = ''Running'', pod_created = 0,
     pod_conds = [], pod_cstats = [], pod_sa = [],
     pod_volumes = [\<lparr>vol_name = ''cfg'', vol_pvc = None, vol_cm = Some (''settings'', None),
        vol_secret = None, vol_projected = None\<rparr>],
     pod_containers = []\<rparr>"

theorem missing_refs_exact_witness:
  "podsMissingRefs_Run
     (empty_cluster\<lparr>cl_pods := (\<lambda>_ _. Inr [demo_pod]),
        cl_service_accounts := (\<lambda>_. Inr [(''shop'', ''default'')])\<rparr>) =
   [mk_finding ''pods.missingRefs'' StatusCritical (resourceID ''pod'' ''shop'' ''web'')
      ''configmap/settings missing (volume cfg)'']"
proof -
  let ?c = "empty_cluster\<lparr>cl_pods := (\<lambda>_ _. Inr [demo_pod]),
        cl_service_accounts := (\<lambda>_. Inr [(''shop'', ''default'')])\<rparr>"
  have "\<forall>(a, b) \<in> set (ref_items ?c k). CHR ''/'' \<notin> set a" for k
    by (cases k) (simp_all add: empty_cluster_def items_or_none_def)
  moreover have "pod_refs demo_pod = [(ServiceAccountRef, ''default'', []), (ConfigMapRef, ''settings'', '' (volume cfg)'')]"
    by (simp add: pod_refs_def demo_pod_def volume_refs_def opt_ref_def is_optional_def)
  ultimately show ?thesis
    using missing_refs_exact [of ?c "[demo_pod]"]
    by (simp add: one_source_def demo_pod_def missing_finding_def ref_message_def empty_cluster_def items_or_none_def)
qed

text \<open>The cluster in which listing the objects of one kind fails.\<close>

fun forbid :: "api_error \<Rightarrow> ref_kind \<Rightarrow> cluster \<Rightarrow> cluster" where
  "forbid e ServiceAccountRef c = c\<lparr>cl_service_accounts := (\<lambda>_. Inl e)\<rparr>"
| "forbid e PvcRef c = c\<lparr>cl_pvcs := (\<lambda>_. Inl e)\<rparr>"
| "forbid e ConfigMapRef c = c\<lparr>cl_configmaps := (\<lambda>_. Inl e)\<rparr>"
| "forbid e SecretRef c = c\<lparr>cl_secrets := (\<lambda>_. Inl e)\<rparr>"

lemma forbid_parts [simp]:
  "cl_pods (forbid e k c) = cl_pods c" "cl_env (forbid e k c) = cl_env c" "ref_items (forbid e k c) k = []"
  by (cases k; simp add: items_or_none_def)+

text \<open>
  C29. The errors of the four lists \<open>pods.missingRefs\<close> compares with are dropped: when listing
  ServiceAccounts, PVCs, ConfigMaps or Secrets fails (no permission, timeout), every reference of a
  listed pod to an object of that kind is reported CRIT as missing, although the object exists.
\<close>

theorem missing_refs_false_alarm:
  assumes "cl_pods c (list_ns c) [] = Inr ps" and "p \<in> set ps" and "one_source p"
    and "(k, n, remark) \<in> set (pod_refs p)" and "(pod_ns p, n) \<in> set (ref_items c k)"
  shows "\<exists>f \<in> set (podsMissingRefs_Run (forbid e k c)). f_status f = StatusCritical \<and>
           f_resource f = resourceID ''pod'' (pod_ns p) (pod_name p) \<and>
           f_message f = kind_text k @ n @ '' missing'' @ remark"
proof -
  let ?c = "forbid e k c"
  let ?flag = "missing_flag (indexByNSName (ref_items ?c ConfigMapRef)) (indexByNSName (ref_items ?c SecretRef))
     (indexByNSName (ref_items ?c ServiceAccountRef)) (indexByNSName (ref_items ?c PvcRef))"
  have "\<not> resolves (indexByNSName (ref_items ?c ConfigMapRef)) (indexByNSName (ref_items ?c SecretRef))
      (indexByNSName (ref_items ?c ServiceAccountRef)) (indexByNSName (ref_items ?c PvcRef)) (pod_ns p) (k, n)"
    by (cases k) (simp_all add: indexByNSName_def items_or_none_def)
  then have "missing_finding p (k, n, remark) \<in> set (?flag p)"
    using assms(4) by (auto simp: missing_flag_refs [OF assms(3)] intro!: imageI)
  then have "missing_finding p (k, n, remark) \<in> set (concat (map ?flag ps))" using assms(2) by auto
  moreover have "podsMissingRefs_Run ?c =
      or_ok ''pods.missingRefs'' ''all pod references resolve'' (concat (map ?flag ps))"
    using assms(1) by (intro missing_refs_run) simp
  ultimately have "missing_finding p (k, n, remark) \<in> set (podsMissingRefs_Run ?c)"
    by (cases "concat (map ?flag ps)") (simp_all only: or_ok_def list.set empty_iff list.distinct if_False)
  then show ?thesis
    by (intro bexI [of _ "missing_finding p (k, n, remark)"]) (simp_all add: missing_finding_def ref_message_def)
qed

definition refused :: api_error where
  "refused = \<lparr>ae_text = ''connection refused'', ae_not_found = False, ae_unavailable = False,
     ae_forbidden = False, ae_no_match = False\<rparr>"

definition shop_cluster :: cluster where
  "shop_cluster = empty_cluster\<lparr>cl_pods := (\<lambda>_ _. Inr [demo_pod]),
     cl_service_accounts := (\<lambda>_. Inr [(''shop'', ''default'')]),
     cl_configmaps := (\<lambda>_. Inr [(''shop'', ''settings'')])\<rparr>"

theorem missing_refs_false_alarm_witness:
  "\<exists>f \<in> set (podsMissingRefs_Run (forbid (refused\<lparr>ae_forbidden := True\<rparr>) ConfigMapRef shop_cluster)).
     f_status f = StatusCritical \<and> f_message f = ''configmap/settings missing (volume cfg)''"
proof -
  have "(ConfigMapRef, ''settings'', '' (volume cfg)'') \<in> set (pod_refs demo_pod)"
    by (simp add: pod_refs_def demo_pod_def volume_refs_def opt_ref_def is_optional_def)
  moreover have "cl_pods shop_cluster (list_ns shop_cluster) [] = Inr [demo_pod]" "one_source demo_pod"
    "(pod_ns demo_pod, ''settings'') \<in> set (ref_items shop_cluster ConfigMapRef)"
    by (simp_all add: shop_cluster_def one_source_def demo_pod_def items_or_none_def)
  ultimately show ?thesis
    using missing_refs_false_alarm [of shop_cluster "[demo_pod]" demo_pod ConfigMapRef "''settings''"
        "'' (volume cfg)''" "refused\<lparr>ae_forbidden := True\<rparr>"]
    by fastforce
qed

end
