(* ===== verification/NodeStats.thy ===== *)
theory NodeStats
  imports CheckBase
begin

section \<open>What the nodes measure (the fetch functions of checks/nodes_resources.go, nodes_disk.go)\<close>

text \<open>
  The two raw GET requests of the node checks and the JSON they decode: \<open>nodeMetricsList\<close> of the
  metrics server and the \<open>kubeletStatsSummary\<close> that a kubelet answers through the API server's
  proxy. A pointer field is an option: \<open>null\<close> clears it, an object is decoded into what it
  points to. An error of \<open>json.Unmarshal\<close> is wrapped, so that it is no API error any more.
\<close>

definition plain_error :: "string \<Rightarrow> api_error" where
  "plain_error s = \<lparr>ae_text = s, ae_not_found = False, ae_unavailable = False, ae_forbidden = False,
     ae_no_match = False\<rparr>"

definition decode_pointer :: "(json \<Rightarrow> 'a \<Rightarrow> 'a \<times> bool) \<Rightarrow> 'a \<Rightarrow> json \<Rightarrow> 'a option \<Rightarrow> 'a option \<times> bool" where
  "decode_pointer dec zero j old =
     (if j = JNull then (None, True)
      else apfst Some (dec j (case old of None \<Rightarrow> zero | Some x \<Rightarrow> x)))"

subsection \<open>The metrics server\<close>

record node_metric =
  nm_name :: string
  nm_cpu :: string
  nm_memory :: string

definition node_metric0 :: node_metric where
  "node_metric0 = \<lparr>nm_name = [], nm_cpu = [], nm_memory = []\<rparr>"

definition decode_metadata_field :: "string \<Rightarrow> json \<Rightarrow> node_metric \<Rightarrow> node_metric \<times> bool" where
  "decode_metadata_field k v m =
     (if field_match k ''name'' then
        apfst (\<lambda>x. m\<lparr>nm_name := x\<rparr>) (keep_old decode_string v (nm_name m))
      else (m, True))"

definition decode_usage_field :: "string \<Rightarrow> json \<Rightarrow> node_metric \<Rightarrow> node_metric \<times> bool" where
  "decode_usage_field k v m =
     (if field_match k ''cpu'' then
        apfst (\<lambda>x. m\<lparr>nm_cpu := x\<rparr>) (keep_old decode_string v (nm_cpu m))
      else if field_match k ''memory'' then
        apfst (\<lambda>x. m\<lparr>nm_memory := x\<rparr>) (keep_old decode_string v (nm_memory m))
      else (m, True))"

definition decode_metric_field :: "string \<Rightarrow> json \<Rightarrow> node_metric \<Rightarrow> node_metric \<times> bool" where
  "decode_metric_field k v m =
     (if field_match k ''metadata'' then decode_struct decode_metadata_field v m
      else if field_match k ''usage'' then decode_struct decode_usage_field v m
      else (m, True))"

definition decode_metrics_field :: "string \<Rightarrow> json \<Rightarrow> node_metric list \<Rightarrow> node_metric list \<times> bool" where
  "decode_metrics_field k v ms =
     (if field_match k ''items'' then decode_slice (decode_struct decode_metric_field) node_metric0 v ms
      else (ms, True))"

definition nodeMetricsList :: "string \<Rightarrow> node_metric list option" where
  "nodeMetricsList = unmarshal_fresh (decode_struct decode_metrics_field) []"

definition fetchNodeMetrics :: "cluster \<Rightarrow> api_error + node_metric list" where
  "fetchNodeMetrics c =
     (case cl_raw_get c ''/apis/metrics.k8s.io/v1beta1/nodes'' of
        Inl e \<Rightarrow> Inl e
      | Inr body \<Rightarrow>
     (case nodeMetricsList body of
        None \<Rightarrow> Inl (plain_error (''parse node metrics: '' @ cl_json_error c ''nodeMetricsList'' body))
      | Some ms \<Rightarrow> Inr ms))"

subsection \<open>The kubelet\<close>

record fs_stats =
  fs_available :: int
  fs_capacity :: int
  fs_used :: int

record stats_node =
  sn_name :: string
  sn_fs :: "fs_stats option"
  sn_image_fs :: "fs_stats option"

definition fs_stats0 :: fs_stats where
  "fs_stats0 = \<lparr>fs_available = 0, fs_capacity = 0, fs_used = 0\<rparr>"

definition stats_node0 :: stats_node where
  "stats_node0 = \<lparr>sn_name = [], sn_fs = None, sn_image_fs = None\<rparr>"

definition decode_fs_field :: "string \<Rightarrow> json \<Rightarrow> fs_stats \<Rightarrow> fs_stats \<times> bool" where
  "decode_fs_field k v s =
     (if field_match k ''availableBytes'' then
        apfst (\<lambda>x. s\<lparr>fs_available := x\<rparr>) (keep_old decode_int64 v (fs_available s))
      else if field_match k ''capacityBytes'' then
        apfst (\<lambda>x. s\<lparr>fs_capacity := x\<rparr>) (keep_old decode_int64 v (fs_capacity s))
      else if field_match k ''usedBytes'' then
        apfst (\<lambda>x. s\<lparr>fs_used := x\<rparr>) (keep_old decode_int64 v (fs_used s))
      else (s, True))"

definition decode_fs :: "json \<Rightarrow> fs_stats option \<Rightarrow> fs_stats option \<times> bool" where
  "decode_fs = decode_pointer (decode_struct decode_fs_field) fs_stats0"

definition decode_runtime_field :: "string \<Rightarrow> json \<Rightarrow> stats_node \<Rightarrow> stats_node \<times> bool" where
  "decode_runtime_field k v n =
     (if field_match k ''imageFs'' then apfst (\<lambda>x. n\<lparr>sn_image_fs := x\<rparr>) (decode_fs v (sn_image_fs n))
      else (n, True))"

definition decode_node_field :: "string \<Rightarrow> json \<Rightarrow> stats_node \<Rightarrow> stats_node \<times> bool" where
  "decode_node_field k v n =
     (if field_match k ''nodeName'' then
        apfst (\<lambda>x. n\<lparr>sn_name := x\<rparr>) (keep_old decode_string v (sn_name n))
      else if field_match k ''fs'' then apfst (\<lambda>x. n\<lparr>sn_fs := x\<rparr>) (decode_fs v (sn_fs n))
      else if field_match k ''runtime'' then decode_struct decode_runtime_field v n
      else (n, True))"

definition decode_summary_field :: "string \<Rightarrow> json \<Rightarrow> stats_node \<Rightarrow> stats_node \<times> bool" where
  "decode_summary_field k v n =
     (if field_match k ''node'' then decode_struct decode_node_field v n else (n, True))"

definition kubeletStatsSummary :: "string \<Rightarrow> stats_node option" where
  "kubeletStatsSummary = unmarshal_fresh (decode_struct decode_summary_field) stats_node0"

definition stats_path :: "string \<Rightarrow> string" where
  "stats_path nodeName = ''/api/v1/nodes/'' @ nodeName @ ''/proxy/stats/summary''"

definition fetchNodeStats :: "cluster \<Rightarrow> string \<Rightarrow> string + stats_node" where
  "fetchNodeStats c nodeName =
     (case cl_raw_get c (stats_path nodeName) of
        Inl e \<Rightarrow> Inl (ae_text e)
      | Inr body \<Rightarrow>
     (case kubeletStatsSummary body of
        None \<Rightarrow> Inl (''parse kubelet stats: '' @ cl_json_error c ''kubeletStatsSummary'' body)
      | Some s \<Rightarrow> Inr s))"

subsection \<open>What the servers print is what the checks read\<close>

definition metrics_reply :: "node_metric list \<Rightarrow> json" where
  "metrics_reply ms =
     JObj [(''kind'', JStr ''NodeMetricsList''), (''apiVersion'', JStr ''metrics.k8s.io/v1beta1''),
       (''items'', JArr (map (\<lambda>m. JObj [(''metadata'', JObj [(''name'', JStr (nm_name m))]),
          (''usage'', JObj [(''cpu'', JStr (nm_cpu m)), (''memory'', JStr (nm_memory m))])]) ms))]"

definition fs_reply :: "fs_stats \<Rightarrow> json" where
  "fs_reply s =
     JObj [(''availableBytes'', JInt (fs_available s)), (''capacityBytes'', JInt (fs_capacity s)),
       (''usedBytes'', JInt (fs_used s))]"

definition stats_reply :: "stats_node \<Rightarrow> json" where
  "stats_reply n =
     JObj [(''node'', JObj ([(''nodeName'', JStr (sn_name n))] @
       (case sn_fs n of None \<Rightarrow> [] | Some s \<Rightarrow> [(''fs'', fs_reply s)]) @
       [(''runtime'', JObj (case sn_image_fs n of None \<Rightarrow> [] | Some s \<Rightarrow> [(''imageFs'', fs_reply s)]))])),
       (''pods'', JArr [])]"

definition utf8_metric :: "node_metric \<Rightarrow> bool" where
  "utf8_metric m \<longleftrightarrow> utf8_string (nm_name m) \<and> utf8_string (nm_cpu m) \<and> utf8_string (nm_memory m)"

definition int64_fs :: "fs_stats option \<Rightarrow> bool" where
  "int64_fs fs \<longleftrightarrow>
     (case fs of None \<Rightarrow> True | Some s \<Rightarrow> int64 (fs_available s) \<and> int64 (fs_capacity s) \<and> int64 (fs_used s))"

lemma utf8_stat_names [simp]:
  "utf8_string ''kind''" "utf8_string ''NodeMetricsList''" "utf8_string ''apiVersion''"
  "utf8_string ''metrics.k8s.io/v1beta1''" "utf8_string ''items''" "utf8_string ''metadata''"
  "utf8_string ''name''" "utf8_string ''usage''" "utf8_string ''cpu''" "utf8_string ''memory''"
  "utf8_string ''availableBytes''" "utf8_string ''capacityBytes''" "utf8_string ''usedBytes''"
  "utf8_string ''node''" "utf8_string ''nodeName''" "utf8_string ''fs''" "utf8_string ''runtime''"
  "utf8_string ''imageFs''" "utf8_string ''pods''"
  by (rule utf8_ascii; simp add: byte_Char)+

lemma unmarshal_bind:
  "unmarshal_fresh dec zero s =
     Option.bind (json_parse s) (\<lambda>j. case dec j zero of (x, ok) \<Rightarrow> if ok then Some x else None)"
  by (simp add: unmarshal_fresh_def split: option.split)

lemma metric_decodes:
  "decode_struct decode_metric_field (JObj [(''metadata'', JObj [(''name'', JStr a)]),
     (''usage'', JObj [(''cpu'', JStr b), (''memory'', JStr d)])]) m = (\<lparr>nm_name = a, nm_cpu = b, nm_memory = d\<rparr>, True)"
  by (simp add: decode_struct_def decode_metric_field_def decode_metadata_field_def decode_usage_field_def
      name_simps keep_old_def)

lemma metrics_reply_decodes:
  "decode_struct decode_metrics_field (metrics_reply ms) [] = (ms, True)"
proof -
  have "decode_slice (decode_struct decode_metric_field) node_metric0
      (JArr (map (\<lambda>m. JObj [(''metadata'', JObj [(''name'', JStr (nm_name m))]),
        (''usage'', JObj [(''cpu'', JStr (nm_cpu m)), (''memory'', JStr (nm_memory m))])]) ms)) [] = (ms, True)"
    by (intro decode_slice_list) (simp add: metric_decodes)
  then show ?thesis
    by (simp add: metrics_reply_def decode_struct_def decode_metrics_field_def name_simps)
qed

lemma foldr_max_const: "foldr max (map (\<lambda>_. n) xs) (0 :: nat) \<le> n"
  by (induction xs) auto

interpretation metrics: json_struct metrics_reply
  "\<lambda>j. case decode_struct decode_metrics_field j [] of (x, ok) \<Rightarrow> if ok then Some x else None"
  "list_all utf8_metric" "\<lambda>ms. ms"
proof
  show "depth (metrics_reply ms) \<le> 10000" for ms
    using foldr_max_const [of 2 ms] by (simp add: metrics_reply_def o_def numeral_2_eq_2)
qed (auto simp: metrics_reply_decodes, auto simp: metrics_reply_def list_all_iff utf8_metric_def)

lemma fs_decodes: "int64_fs (Some s) \<Longrightarrow> decode_fs (fs_reply s) old = (Some s, True)"
  by (simp add: decode_fs_def decode_pointer_def fs_reply_def decode_struct_def decode_fs_field_def int64_fs_def
      int64_def name_simps keep_old_def)

interpretation stats: json_struct stats_reply
  "\<lambda>j. case decode_struct decode_summary_field j stats_node0 of (x, ok) \<Rightarrow> if ok then Some x else None"
  "\<lambda>n. utf8_string (sn_name n) \<and> int64_fs (sn_fs n) \<and> int64_fs (sn_image_fs n)" "\<lambda>n. n"
proof (unfold_locales; (elim conjE)?)
  fix n :: stats_node
  show "integral (stats_reply n)" "depth (stats_reply n) \<le> 10000"
    by (simp_all add: stats_reply_def fs_reply_def split: option.split)
  assume g: "utf8_string (sn_name n)" "int64_fs (sn_fs n)" "int64_fs (sn_image_fs n)"
  then show "utf8_json (stats_reply n)"
    by (simp add: stats_reply_def fs_reply_def split: option.split)
  show "(case decode_struct decode_summary_field (stats_reply n) stats_node0 of
      (x, ok) \<Rightarrow> if ok then Some x else None) = Some n"
    using g
    by (cases "sn_fs n"; cases "sn_image_fs n"; simp add: stats_reply_def decode_struct_def decode_summary_field_def
        decode_node_field_def decode_runtime_field_def fs_decodes stats_node0_def name_simps keep_old_def)
qed

lemma metrics_read:
  "list_all utf8_metric ms \<Longrightarrow> nodeMetricsList (Marshal (metrics_reply ms)) = Some ms"
  unfolding nodeMetricsList_def unmarshal_bind by (rule metrics.read_back(1))

lemma stats_read:
  "utf8_string (sn_name n) \<Longrightarrow> int64_fs (sn_fs n) \<Longrightarrow> int64_fs (sn_image_fs n) \<Longrightarrow>
     kubeletStatsSummary (Marshal (stats_reply n)) = Some n"
  unfolding kubeletStatsSummary_def unmarshal_bind by (rule stats.read_back(1)) simp

text \<open>The empty object has no items, and measures nothing.\<close>

lemma empty_replies:
  "nodeMetricsList ''{}'' = Some []" "kubeletStatsSummary ''{}'' = Some stats_node0"
  by code_simp+

end
