(* ===== verification/NodeChecks.thy ===== *)
theory NodeChecks
  imports NodeStats
begin

section \<open>The node checks (checks/nodes_*.go, kubelet_healthz.go)\<close>

text \<open>
  Conditions, cordons, version skew, and the usage percentages of CPU, memory and disk. The
  percentages are float64; \<open>classifyPct_exact\<close> shows that their bands are the integer ones.
\<close>

subsection \<open>Bytes for people (humanBytes, etcd_checks.go)\<close>

definition humanBytes :: "int \<Rightarrow> string" where
  "humanBytes n =
     (let k = 1024; m = k * 1024; g = m * 1024 in
      if n \<ge> g then fmt_f1 (float_div (float_of_int n) (float_of_int g)) @ '' GiB''
      else if n \<ge> m then fmt_f1 (float_div (float_of_int n) (float_of_int m)) @ '' MiB''
      else if n \<ge> k then fmt_f1 (float_div (float_of_int n) (float_of_int k)) @ '' KiB''
      else itoa n @ '' B'')"

subsection \<open>nodes.ready, nodes.pressure, nodes.unschedulable\<close>

fun findCondition :: "condition list \<Rightarrow> string \<Rightarrow> condition option" where
  "findCondition [] want = None"
| "findCondition (c # cs) want = (if cd_type c = want then Some c else findCondition cs want)"

definition ready_flag :: "node \<Rightarrow> finding list" where
  "ready_flag n =
     (case findCondition (nd_conds n) ''Ready'' of
        None \<Rightarrow> [mk_finding ''nodes.ready'' StatusUnknown (resourceID ''node'' [] (nd_name n))
                   ''Ready condition missing'']
      | Some c \<Rightarrow>
          if cd_status c = ''True'' then []
          else if cd_status c = ''False'' \<or> cd_status c = ''Unknown'' then
            [detailed (mk_finding ''nodes.ready'' StatusCritical (resourceID ''node'' [] (nd_name n))
               (''Ready='' @ cd_status c @ '' ('' @ cd_reason c @ '')''))
               [(''reason'', cd_reason c), (''message'', cd_message c)]]
          else [])"

definition nodesReady_Run :: "cluster \<Rightarrow> finding list" where
  "nodesReady_Run c = scan_check ''nodes.ready'' ''list nodes'' ''all nodes Ready'' ready_flag (cl_nodes c)"

definition nodesReady :: "cluster check" where
  "nodesReady = mk_check ''nodes.ready'' ''Nodes whose Ready condition is False or Unknown''
     [CategoryNode] None nodesReady_Run"

definition pressureConditions :: "string list" where
  "pressureConditions = [''MemoryPressure'', ''DiskPressure'', ''PIDPressure'']"

definition pressure_flag_cond :: "node \<Rightarrow> string \<Rightarrow> finding list" where
  "pressure_flag_cond n want =
     (case findCondition (nd_conds n) want of
        None \<Rightarrow> []
      | Some c \<Rightarrow>
          if cd_status c \<noteq> ''True'' then []
          else [detailed (mk_finding ''nodes.pressure'' StatusWarning (resourceID ''node'' [] (nd_name n))
                  (cd_type c @ ''=True ('' @ cd_reason c @ '')''))
                  [(''condition'', cd_type c), (''reason'', cd_reason c)]])"

definition pressure_flag :: "node \<Rightarrow> finding list" where
  "pressure_flag n = concat (map (pressure_flag_cond n) pressureConditions)"

definition nodesPressure_Run :: "cluster \<Rightarrow> finding list" where
  "nodesPressure_Run c =
     scan_check ''nodes.pressure'' ''list nodes'' ''no nodes under pressure'' pressure_flag (cl_nodes c)"

definition nodesPressure :: "cluster check" where
  "nodesPressure = mk_check ''nodes.pressure'' ''Nodes reporting Memory, Disk, or PID pressure''
     [CategoryNode] None nodesPressure_Run"

definition unschedulable_flag :: "node \<Rightarrow> finding list" where
  "unschedulable_flag n =
     (if \<not> nd_unschedulable n then []
      else [mk_finding ''nodes.unschedulable'' StatusWarning (resourceID ''node'' [] (nd_name n))
              ''node is cordoned (Spec.Unschedulable=true)''])"

definition nodesUnschedulable_Run :: "cluster \<Rightarrow> finding list" where
  "nodesUnschedulable_Run c =
     scan_check ''nodes.unschedulable'' ''list nodes'' ''no cordoned nodes'' unschedulable_flag (cl_nodes c)"

definition nodesUnschedulable :: "cluster check" where
  "nodesUnschedulable = mk_check ''nodes.unschedulable'' ''Cordoned nodes (Spec.Unschedulable=true)''
     [CategoryNode] None nodesUnschedulable_Run"

subsection \<open>nodes.versionSkew\<close>

definition kubeletWarnSkew :: int where "kubeletWarnSkew = 2"
definition kubeletCritSkew :: int where "kubeletCritSkew = 3"

definition parseMinor :: "string \<Rightarrow> string + int" where
  "parseMinor s =
     (let s' = trim_right (trim_space s) ''+'' in
      if s' = [] then Inl ''empty minor'' else atoi s')"

definition parseSemverMinor :: "string \<Rightarrow> string + int" where
  "parseSemverMinor v =
     (let v' = trim_prefix v ''v''; parts = split_on (CHR ''.'') v' in
      if length parts < 2 then Inl (''not a semver: '' @ quote v') else atoi (parts ! 1))"

definition skew_flag :: "int \<Rightarrow> node \<Rightarrow> finding list" where
  "skew_flag apiMinor n =
     (let ver = nd_kubelet n in
      case parseSemverMinor ver of
        Inl e \<Rightarrow> [mk_finding ''nodes.versionSkew'' StatusUnknown (resourceID ''node'' [] (nd_name n))
                    (''cannot parse kubelet version '' @ quote ver @ '': '' @ e)]
      | Inr nodeMinor \<Rightarrow>
          let skew = wrap64 (apiMinor - nodeMinor) in
          if skew \<le> 0 then []
          else if skew > kubeletCritSkew \<or> skew \<ge> kubeletWarnSkew then
            [detailed (mk_finding ''nodes.versionSkew''
               (if skew > kubeletCritSkew then StatusCritical else StatusWarning)
               (resourceID ''node'' [] (nd_name n))
               (''kubelet '' @ ver @ '' lags apiserver v1.'' @ itoa apiMinor @ '' by '' @ itoa skew @ '' minor''))
               [(''kubelet'', ver), (''apiserver'', ''v1.'' @ itoa apiMinor), (''minorSkew'', itoa skew)]]
          else [])"

definition nodesVersionSkew_Run :: "cluster \<Rightarrow> finding list" where
  "nodesVersionSkew_Run c =
     (case cl_server_minor c of
        Inl e \<Rightarrow> unknownFromErr ''nodes.versionSkew'' ''discover api version'' e
      | Inr minor \<Rightarrow>
     (case parseMinor minor of
        Inl e \<Rightarrow> unknownFromErr ''nodes.versionSkew'' ''parse apiserver minor'' e
      | Inr apiMinor \<Rightarrow>
          scan_check ''nodes.versionSkew'' ''list nodes''
            (''all kubelets within skew policy of apiserver v1.'' @ itoa apiMinor)
            (skew_flag apiMinor) (cl_nodes c)))"

definition nodesVersionSkew :: "cluster check" where
  "nodesVersionSkew = mk_check ''nodes.versionSkew'' ''Kubelet version skew vs the API server''
     [CategoryNode] None nodesVersionSkew_Run"

subsection \<open>nodes.cpu and nodes.memory\<close>

definition classifyPct :: "rat \<Rightarrow> status" where
  "classifyPct pct =
     (if pct \<ge> 90 then StatusCritical else if pct \<ge> 75 then StatusWarning else StatusOK)"

record node_usage =
  nu_name :: string
  nu_cpu :: int
  nu_cpu_cap :: int
  nu_mem :: int
  nu_mem_cap :: int

text \<open>The map by node name: a later node of the same name replaces an earlier one.\<close>

fun cap_map :: "node list \<Rightarrow> (string \<rightharpoonup> node) \<Rightarrow> (string \<rightharpoonup> node)" where
  "cap_map [] m = m"
| "cap_map (n # ns) m = cap_map ns (m(nd_name n \<mapsto> n))"

definition usage_of :: "cluster \<Rightarrow> (string \<rightharpoonup> node) \<Rightarrow> node_metric \<Rightarrow> node_usage list" where
  "usage_of c caps m =
     (case caps (nm_name m) of
        None \<Rightarrow> []
      | Some n \<Rightarrow> [\<lparr>nu_name = nm_name m, nu_cpu = cl_milli c (nm_cpu m), nu_cpu_cap = nd_cap_cpu n,
                    nu_mem = cl_value c (nm_memory m), nu_mem_cap = nd_cap_mem n\<rparr>])"

definition collectNodeUsage :: "cluster \<Rightarrow> api_error + node_usage list" where
  "collectNodeUsage c =
     (case fetchNodeMetrics c of
        Inl e \<Rightarrow> Inl e
      | Inr metrics \<Rightarrow>
     (case cl_nodes c of
        Inl e \<Rightarrow> Inl e
      | Inr nodes \<Rightarrow> Inr (concat (map (usage_of c (cap_map nodes Map.empty)) metrics))))"

definition nodeUsageSkip :: "string \<Rightarrow> api_error \<Rightarrow> finding list" where
  "nodeUsageSkip ident e =
     (if ae_not_found e \<or> ae_unavailable e then
        [mk_finding ident StatusSkipped [] ''metrics.k8s.io API unavailable (metrics-server not installed?)'']
      else unknownFromErr ident ''node metrics'' (ae_text e))"

definition cpu_finding :: "node_usage \<Rightarrow> finding list" where
  "cpu_finding u =
     (if nu_cpu_cap u = 0 then []
      else let pct = percent (nu_cpu u) (nu_cpu_cap u) in
        [detailed (mk_finding ''nodes.cpu'' (classifyPct pct) (''node/'' @ nu_name u)
           (''CPU '' @ fmt_f1 pct @ ''% ('' @ itoa (nu_cpu u) @ ''m / '' @ itoa (nu_cpu_cap u) @ ''m)''))
           [(''usageMilli'', itoa (nu_cpu u)), (''capMilli'', itoa (nu_cpu_cap u)), (''pct'', fmt_f1 pct)]])"

definition mem_finding :: "node_usage \<Rightarrow> finding list" where
  "mem_finding u =
     (if nu_mem_cap u = 0 then []
      else let pct = percent (nu_mem u) (nu_mem_cap u) in
        [detailed (mk_finding ''nodes.memory'' (classifyPct pct) (''node/'' @ nu_name u)
           (''memory '' @ fmt_f1 pct @ ''% ('' @ humanBytes (nu_mem u) @ '' / '' @ humanBytes (nu_mem_cap u) @ '')''))
           [(''usageBytes'', itoa (nu_mem u)), (''capBytes'', itoa (nu_mem_cap u)), (''pct'', fmt_f1 pct)]])"

definition usage_check :: "string \<Rightarrow> (node_usage \<Rightarrow> finding list) \<Rightarrow> cluster \<Rightarrow> finding list" where
  "usage_check ident per_node c =
     (case collectNodeUsage c of
        Inl e \<Rightarrow> nodeUsageSkip ident e
      | Inr [] \<Rightarrow> [mk_finding ident StatusSkipped [] ''no node metrics returned'']
      | Inr usage \<Rightarrow> concat (map per_node usage))"

definition nodesCPU_Run :: "cluster \<Rightarrow> finding list" where
  "nodesCPU_Run = usage_check ''nodes.cpu'' cpu_finding"

definition nodesCPU :: "cluster check" where
  "nodesCPU = mk_check ''nodes.cpu'' ''per-node CPU usage vs capacity (via metrics-server)''
     [CategoryNode] None nodesCPU_Run"

definition nodesMemory_Run :: "cluster \<Rightarrow> finding list" where
  "nodesMemory_Run = usage_check ''nodes.memory'' mem_finding"

definition nodesMemory :: "cluster check" where
  "nodesMemory = mk_check ''nodes.memory'' ''per-node memory usage vs capacity (via metrics-server)''
     [CategoryNode] None nodesMemory_Run"

subsection \<open>nodes.disk\<close>

definition nodeReady :: "node \<Rightarrow> bool" where
  "nodeReady n =
     (case findCondition (nd_conds n) ''Ready'' of None \<Rightarrow> False | Some c \<Rightarrow> cd_status c = ''True'')"

definition classifyFS :: "string \<Rightarrow> string \<Rightarrow> fs_stats option \<Rightarrow> finding list" where
  "classifyFS nodeName label fs =
     (case fs of
        None \<Rightarrow> []
      | Some s \<Rightarrow>
          if fs_capacity s = 0 then []
          else let pct = percent (fs_used s) (fs_capacity s); status = classifyPct pct in
            if status = StatusOK then []
            else [detailed (mk_finding ''nodes.disk'' status (''node/'' @ nodeName @ ''/'' @ label)
                    (label @ '' '' @ fmt_f1 pct @ ''% used ('' @ humanBytes (fs_used s) @ '' / '' @
                     humanBytes (fs_capacity s) @ '')''))
                    [(''used'', itoa (fs_used s)), (''capacity'', itoa (fs_capacity s)), (''pct'', fmt_f1 pct)]])"

definition disk_node :: "cluster \<Rightarrow> node \<Rightarrow> finding list" where
  "disk_node c n =
     (if \<not> nodeReady n then []
      else case fetchNodeStats c (nd_name n) of
        Inl e \<Rightarrow> [mk_finding ''nodes.disk'' StatusUnknown (''node/'' @ nd_name n)
                    (''kubelet stats unavailable: '' @ e)]
      | Inr s \<Rightarrow>
          classifyFS (nd_name n) ''rootfs'' (sn_fs s) @ classifyFS (nd_name n) ''imagefs'' (sn_image_fs s))"

definition nodesDisk_Run :: "cluster \<Rightarrow> finding list" where
  "nodesDisk_Run c =
     (case cl_nodes c of
        Inl e \<Rightarrow> unknownFromErr ''nodes.disk'' ''list nodes'' (ae_text e)
      | Inr nodes \<Rightarrow>
          let out = concat (map (disk_node c) nodes) in
          if out = [] then [okFinding ''nodes.disk'' ''no node disk pressure'']
          else if list_all (\<lambda>f. f_status f = StatusOK) out then
            [okFinding ''nodes.disk'' (''all '' @ itoa (int (length out)) @ '' node fs measurements OK'')]
          else out)"

definition nodesDisk :: "cluster check" where
  "nodesDisk = mk_check ''nodes.disk''
     ''per-node root filesystem and image filesystem usage (via kubelet stats)'' [CategoryNode] None
     nodesDisk_Run"

subsection \<open>kubelet.healthz\<close>

definition kubelet_flag :: "(string \<Rightarrow> api_error + string) \<Rightarrow> node \<Rightarrow> finding list" where
  "kubelet_flag get n =
     (let res = resourceID ''node'' [] (nd_name n) in
      case get (nd_name n) of
        Inl e \<Rightarrow>
          if ae_forbidden e then
            [mk_finding ''kubelet.healthz'' StatusSkipped res ''node proxy forbidden (no RBAC for nodes/proxy)'']
          else [mk_finding ''kubelet.healthz'' StatusCritical res (''/healthz: '' @ ae_text e)]
      | Inr body \<Rightarrow>
          if body \<noteq> ''ok'' then
            [mk_finding ''kubelet.healthz'' StatusWarning res (''/healthz body: '' @ quote body)]
          else [])"

definition kubeletHealthz_Run :: "cluster \<Rightarrow> finding list" where
  "kubeletHealthz_Run c =
     (case cl_nodes c of
        Inl e \<Rightarrow> unknownFromErr ''kubelet.healthz'' ''list nodes'' (ae_text e)
      | Inr nodes \<Rightarrow>
     (case cl_kubelet_healthz c of
        None \<Rightarrow> [mk_finding ''kubelet.healthz'' StatusSkipped [] ''no REST client (fake clientset)'']
      | Some get \<Rightarrow>
          or_ok ''kubelet.healthz'' ''all kubelets /healthz=ok'' (concat (map (kubelet_flag get) nodes))))"

definition kubeletHealthz :: "cluster check" where
  "kubeletHealthz = mk_check ''kubelet.healthz''
     ''Each node's kubelet /healthz returns ok via the apiserver proxy'' [CategoryNode] None
     kubeletHealthz_Run"

subsection \<open>The contract of the loop bodies\<close>

interpretation nrd: item_scan "''nodes.ready''" ready_flag
  by unfold_locales (auto simp: ready_flag_def split: option.splits if_splits)

interpretation press: item_scan "''nodes.pressure''" pressure_flag
  by unfold_locales (auto simp: pressure_flag_def pressure_flag_cond_def split: option.splits if_splits)

interpretation cordon: item_scan "''nodes.unschedulable''" unschedulable_flag
  by unfold_locales (auto simp: unschedulable_flag_def split: if_splits)

interpretation skew: item_scan "''nodes.versionSkew''" "skew_flag apiMinor" for apiMinor
  by unfold_locales (auto simp: skew_flag_def Let_def split: sum.splits if_splits)

lemma classifyPct_range: "classifyPct pct \<in> {StatusOK, StatusWarning, StatusCritical}"
  by (simp add: classifyPct_def)

interpretation disk: item_scan "''nodes.disk''" "disk_node c" for c
proof
  fix f n
  have "f_check f = ''nodes.disk'' \<and> f_status f \<in> {StatusWarning, StatusCritical}"
    if "f \<in> set (classifyFS nm l fs)" for nm l fs
    using that by (auto simp: classifyFS_def classifyPct_def Let_def split: option.splits if_splits)
  then show "f \<in> set (disk_node c n) \<Longrightarrow> f_check f = ''nodes.disk'' \<and>
      f_status f \<in> {StatusWarning, StatusCritical, StatusUnknown, StatusSkipped}"
    by (fastforce simp: disk_node_def split: sum.splits if_splits prod.splits)
qed

interpretation klet: item_scan "''kubelet.healthz''" "kubelet_flag get" for get
  by unfold_locales (auto simp: kubelet_flag_def Let_def split: sum.splits if_splits)

lemma nodesDisk_scan:
  "nodesDisk_Run c = scan_check ''nodes.disk'' ''list nodes'' ''no node disk pressure'' (disk_node c) (cl_nodes c)"
proof (cases "cl_nodes c")
  case (Inr nodes)
  have "\<not> list_all (\<lambda>f. f_status f = StatusOK) out" if "StatusOK \<notin> statuses out" "out \<noteq> []" for out
    using that by (cases out) auto
  from this [OF disk.flag_not_ok] show ?thesis
    by (simp add: nodesDisk_Run_def scan_check_def or_ok_def Inr Let_def del: concat_eq_Nil_conv)
qed (simp add: nodesDisk_Run_def scan_check_def)

lemma kubelet_scan:
  "kubeletHealthz_Run c =
     (case cl_kubelet_healthz c of
        None \<Rightarrow> (case cl_nodes c of
                   Inl e \<Rightarrow> unknownFromErr ''kubelet.healthz'' ''list nodes'' (ae_text e)
                 | Inr _ \<Rightarrow> [mk_finding ''kubelet.healthz'' StatusSkipped [] ''no REST client (fake clientset)''])
      | Some get \<Rightarrow> scan_check ''kubelet.healthz'' ''list nodes'' ''all kubelets /healthz=ok''
                      (kubelet_flag get) (cl_nodes c))"
  by (simp add: kubeletHealthz_Run_def scan_check_def split: sum.split option.split)

lemma node_checks_contract [check_contract]:
  "keeps_contract nodesReady" "keeps_contract nodesPressure" "keeps_contract nodesUnschedulable"
  "keeps_contract nodesVersionSkew" "keeps_contract nodesDisk" "keeps_contract kubeletHealthz"
  by (auto simp: keeps_contract_def nodesReady_def nodesReady_Run_def nrd.scan_wf nodesPressure_def
      nodesPressure_Run_def press.scan_wf nodesUnschedulable_def nodesUnschedulable_Run_def
      cordon.scan_wf nodesVersionSkew_def nodesVersionSkew_Run_def skew.scan_wf wf_unknown
      nodesDisk_def nodesDisk_scan disk.scan_wf kubeletHealthz_def kubelet_scan klet.scan_wf
      split: sum.split option.split intro!: wf_single)

text \<open>The usage checks keep the contract up to the empty answer.\<close>

lemma usage_check_sound:
  assumes "\<And>u f. f \<in> set (per u) \<Longrightarrow> f_check f = ident \<and> f_status f \<in> {StatusOK, StatusWarning, StatusCritical}"
  shows "usage_check ident per c = [] \<or> wf_findings ident (usage_check ident per c)"
proof -
  have "wf_findings ident (nodeUsageSkip ident e)" for e
    by (auto simp: nodeUsageSkip_def wf_unknown intro: wf_single)
  moreover have "\<forall>f \<in> set (concat (map per us)). f_check f = ident \<and>
      f_status f \<in> {StatusOK, StatusWarning, StatusCritical, StatusUnknown, StatusSkipped}" for us
    using assms by fastforce
  note skip = calculation and sound = this
  show ?thesis
  proof (cases "collectNodeUsage c")
    case (Inl e)
    then show ?thesis using skip by (simp add: usage_check_def)
  next
    case (Inr us)
    show ?thesis
    proof (cases us)
      case Nil
      then show ?thesis using Inr by (simp add: usage_check_def wf_findings_def)
    next
      case (Cons v vs)
      then have eq: "usage_check ident per c = concat (map per us)" using Inr by (simp add: usage_check_def)
      show ?thesis using sound [of us] unfolding eq wf_findings_def by blast
    qed
  qed
qed

lemma usage_sound:
  "f \<in> set (cpu_finding u) \<Longrightarrow>
     f_check f = ''nodes.cpu'' \<and> f_status f \<in> {StatusOK, StatusWarning, StatusCritical}"
  "f \<in> set (mem_finding u) \<Longrightarrow>
     f_check f = ''nodes.memory'' \<and> f_status f \<in> {StatusOK, StatusWarning, StatusCritical}"
  by (auto simp: cpu_finding_def mem_finding_def Let_def classifyPct_def split: if_splits)

lemma usage_checks_sound:
  "chk \<in> {nodesCPU, nodesMemory} \<Longrightarrow> chk_run chk c = [] \<or> wf_findings (chk_id chk) (chk_run chk c)"
  using usage_check_sound [of cpu_finding "''nodes.cpu''" c, OF usage_sound(1)]
    usage_check_sound [of mem_finding "''nodes.memory''" c, OF usage_sound(2)]
  by (auto simp: nodesCPU_def nodesCPU_Run_def nodesMemory_def nodesMemory_Run_def)

subsection \<open>Properties\<close>

text \<open>
  C32. The bands of the usage percentages are the exact ones: although the percentage is computed
  in float64, for usages up to \<open>2^53\<close> and capacities up to \<open>2^44\<close> the status is CRIT exactly
  from 90 percent of the capacity on and WARN exactly from 75 percent on.
\<close>

theorem classify_exact:
  assumes "0 \<le> used" and "used \<le> 2 ^ 53" and "0 < capacity" and "capacity \<le> 2 ^ 44"
  shows "classifyPct (percent used capacity) =
     (if 9 * capacity \<le> 10 * used then StatusCritical
      else if 3 * capacity \<le> 4 * used then StatusWarning else StatusOK)"
proof -
  have "90 \<le> percent used capacity \<longleftrightarrow> 9 * capacity \<le> 10 * used"
    using percent_threshold [OF assms, of 90] by simp
  moreover have "75 \<le> percent used capacity \<longleftrightarrow> 3 * capacity \<le> 4 * used"
    using percent_threshold [OF assms, of 75] by simp
  ultimately show ?thesis by (simp add: classifyPct_def)
qed

theorem classify_exact_witness:
  "classifyPct (percent 899999999 1000000000) = StatusWarning \<and>
   classifyPct (percent 900000000 1000000000) = StatusCritical"
  using classify_exact [of 899999999 1000000000] classify_exact [of 900000000 1000000000] by simp

text \<open>
  Version skew: a node whose kubelet reports \<open>v1.N.rest\<close> is compared by \<open>N\<close>: CRIT when it
  lags the API server by more than 3 minors, WARN when by 2 or 3, silent otherwise, also when
  the kubelet is newer; and a printed minor is read back.
\<close>

lemma version_skew_bands:
  assumes "nd_kubelet n = ''v1.'' @ itoa N @ ''.'' @ patch" and "0 \<le> N" and "N < 2 ^ 62"
    and "0 \<le> apiMinor" and "apiMinor < 2 ^ 62"
  shows "statuses (skew_flag apiMinor n) =
     (if apiMinor - N > 3 then {StatusCritical} else if apiMinor - N \<ge> 2 then {StatusWarning} else {}) \<and>
     parseMinor (itoa apiMinor @ ''+'') = Inr apiMinor"
proof
  have dot: "CHR ''.'' \<notin> set (itoa N)"
    using digits_chars [of N "CHR ''.''"] assms(2) by (auto simp: itoa_def is_digit_def)
  have "split_on (CHR ''.'') (''1.'' @ itoa N @ ''.'' @ patch) =
      ''1'' # itoa N # split_on (CHR ''.'') patch"
    using split_on_line [OF dot, of patch] by simp
  then have "parseSemverMinor (nd_kubelet n) = Inr N"
    using assms(2,3) unfolding assms(1) by (simp add: parseSemverMinor_def trim_prefix_def Let_def atoi_itoa)
  moreover have "wrap64 (apiMinor - N) = apiMinor - N" using assms(2-5) by (intro wrap64_id) auto
  ultimately show "statuses (skew_flag apiMinor n) =
     (if apiMinor - N > 3 then {StatusCritical} else if apiMinor - N \<ge> 2 then {StatusWarning} else {})"
    by (simp add: skew_flag_def Let_def kubeletCritSkew_def kubeletWarnSkew_def)
next
  have ne: "itoa apiMinor \<noteq> []" and dg: "\<forall>c \<in> set (itoa apiMinor). is_digit c"
    using digits_spec [OF assms(4)] assms(4) by (auto simp: itoa_def list_all_iff)
  have "\<not> is_space (hd (itoa apiMinor))"
    using dg hd_in_set [OF ne] digit_not_space by blast
  then have "trim_space (itoa apiMinor @ ''+'') = itoa apiMinor @ ''+''"
    using ne by (intro trim_space_id) (auto simp: is_space_def)
  moreover have plus: "CHR ''+'' \<notin> set (itoa apiMinor)" using dg by (auto simp: is_digit_def)
  then have "trim_right (itoa apiMinor @ ''+'') ''+'' = itoa apiMinor"
    using plus ne by (cases "itoa apiMinor" rule: rev_cases) (auto simp: trim_right_def)
  ultimately show "parseMinor (itoa apiMinor @ ''+'') = Inr apiMinor"
    using ne assms(4,5) by (simp add: parseMinor_def Let_def atoi_itoa)
qed

definition demo_node :: "string \<Rightarrow> string \<Rightarrow> node" where
  "demo_node name kubelet = \<lparr>nd_name = name,
     nd_conds = [\<lparr>cd_type = ''Ready'', cd_status = ''True'', cd_reason = [], cd_message = []\<rparr>],
     nd_unschedulable = False, nd_kubelet = kubelet, nd_cap_cpu = 0, nd_cap_mem = 0\<rparr>"

lemma version_skew_bands_example:
  "statuses (skew_flag 31 (demo_node ''n1'' ''v1.28.9-eks-a1'')) = {StatusWarning}"
proof -
  have "nd_kubelet (demo_node ''n1'' ''v1.28.9-eks-a1'') = ''v1.'' @ itoa 28 @ ''.'' @ ''9-eks-a1''"
    by code_simp
  from version_skew_bands [OF this, of 31] show ?thesis by simp
qed

definition fs_healthy :: "fs_stats option \<Rightarrow> bool" where
  "fs_healthy fs \<longleftrightarrow> (\<forall>s. fs = Some s \<longrightarrow> fs_capacity s = 0 \<or>
     classifyPct (percent (fs_used s) (fs_capacity s)) = StatusOK)"

lemma classifyFS_Nil: "classifyFS n l fs = [] \<longleftrightarrow> fs_healthy fs"
  by (auto simp: classifyFS_def fs_healthy_def Let_def split: option.split)

text \<open>
  \<open>nodes.disk\<close> is OK exactly when every ready node answers and both of its file systems are
  under 75 percent (or unmeasured), and its OK finding is always the one of the empty list: the
  answer "all N node fs measurements OK" is dead code, as healthy measurements are not kept.
\<close>

lemma nodes_disk_exact:
  assumes "cl_nodes c = Inr ns"
  shows "(StatusOK \<in> statuses (nodesDisk_Run c) \<longleftrightarrow>
           (\<forall>n \<in> set ns. nodeReady n \<longrightarrow>
              (\<exists>s. fetchNodeStats c (nd_name n) = Inr s \<and>
                 fs_healthy (sn_fs s) \<and> fs_healthy (sn_image_fs s)))) \<and>
         (\<forall>f \<in> set (nodesDisk_Run c). f_status f = StatusOK \<longrightarrow> f_message f = ''no node disk pressure'')"
proof
  have "disk_node c n = [] \<longleftrightarrow> (nodeReady n \<longrightarrow>
      (\<exists>s. fetchNodeStats c (nd_name n) = Inr s \<and> fs_healthy (sn_fs s) \<and> fs_healthy (sn_image_fs s)))"
    for n
    by (auto simp: disk_node_def classifyFS_Nil split: sum.split prod.split)
  then show "StatusOK \<in> statuses (nodesDisk_Run c) \<longleftrightarrow>
      (\<forall>n \<in> set ns. nodeReady n \<longrightarrow>
         (\<exists>s. fetchNodeStats c (nd_name n) = Inr s \<and> fs_healthy (sn_fs s) \<and> fs_healthy (sn_image_fs s)))"
    unfolding nodesDisk_scan assms disk.scan_ok by blast
  have "f_status f \<noteq> StatusOK" if "f \<in> set (concat (map (disk_node c) ns))" for f
    using disk.flag_not_ok [of c ns] that by force
  then show "\<forall>f \<in> set (nodesDisk_Run c). f_status f = StatusOK \<longrightarrow> f_message f = ''no node disk pressure''"
    by (auto simp: nodesDisk_scan scan_check_def assms or_ok_def okFinding_def)
qed

definition demo_stats :: stats_node where
  "demo_stats = \<lparr>sn_name = ''n1'', sn_fs = Some \<lparr>fs_available = 90, fs_capacity = 100, fs_used = 10\<rparr>,
     sn_image_fs = None\<rparr>"

lemma demo_stats_read: "kubeletStatsSummary (Marshal (stats_reply demo_stats)) = Some demo_stats"
  by (rule stats_read) (simp_all add: demo_stats_def int64_fs_def int64_def utf8_ascii byte_Char)

lemma nodes_disk_exact_example:
  "StatusOK \<in> statuses (nodesDisk_Run (empty_cluster\<lparr>cl_nodes := Inr [demo_node ''n1'' []],
     cl_raw_get := (\<lambda>_. Inr (Marshal (stats_reply demo_stats)))\<rparr>))"
proof -
  have "classifyPct (percent 10 100) = StatusOK" by code_simp
  then show ?thesis
    using nodes_disk_exact [of "empty_cluster\<lparr>cl_nodes := Inr [demo_node ''n1'' []],
       cl_raw_get := (\<lambda>_. Inr (Marshal (stats_reply demo_stats)))\<rparr>" "[demo_node ''n1'' []]"]
    by (simp add: fetchNodeStats_def demo_stats_read) (simp add: fs_healthy_def demo_stats_def)
qed

text \<open>
  \<open>nodes.cpu\<close> and \<open>nodes.memory\<close> can vanish from a report: when metrics are returned but
  every node with metrics has capacity 0 (or an unparsed quantity), they report no finding at
  all, neither OK nor SKIP.
\<close>

lemma usage_checks_can_be_silent:
  assumes "collectNodeUsage c = Inr us" and "us \<noteq> []" and "\<forall>u \<in> set us. nu_cpu_cap u = 0 \<and> nu_mem_cap u = 0"
  shows "nodesCPU_Run c = [] \<and> nodesMemory_Run c = []"
proof -
  obtain v vs where "us = v # vs" using assms(2) by (cases us) auto
  then show ?thesis
    using assms(1,3)
    by (simp add: nodesCPU_Run_def nodesMemory_Run_def usage_check_def cpu_finding_def mem_finding_def)
qed

definition demo_metric :: node_metric where
  "demo_metric = \<lparr>nm_name = ''n1'', nm_cpu = ''250m'', nm_memory = ''1Gi''\<rparr>"

lemma demo_metrics_read: "nodeMetricsList (Marshal (metrics_reply [demo_metric])) = Some [demo_metric]"
  by (rule metrics_read) (simp add: demo_metric_def utf8_metric_def utf8_ascii byte_Char)

lemma usage_checks_can_be_silent_example:
  "nodesCPU_Run (empty_cluster\<lparr>cl_nodes := Inr [demo_node ''n1'' []],
     cl_raw_get := (\<lambda>_. Inr (Marshal (metrics_reply [demo_metric])))\<rparr>) = []"
  using usage_checks_can_be_silent [of "empty_cluster\<lparr>cl_nodes := Inr [demo_node ''n1'' []],
     cl_raw_get := (\<lambda>_. Inr (Marshal (metrics_reply [demo_metric])))\<rparr>"]
  by (simp add: collectNodeUsage_def fetchNodeMetrics_def demo_metrics_read)
    (simp add: empty_cluster_def usage_of_def demo_node_def demo_metric_def)

text \<open>
  A reply of the metrics server that is not the JSON of a metrics list is no missing API: the two
  checks are UNKNOWN, and quote the decoder.
\<close>

lemma bad_metrics_are_unknown:
  assumes "cl_raw_get c ''/apis/metrics.k8s.io/v1beta1/nodes'' = Inr body" and "nodeMetricsList body = None"
  shows "statuses (nodesCPU_Run c) = {StatusUnknown} \<and> statuses (nodesMemory_Run c) = {StatusUnknown}"
  using assms
  by (simp add: nodesCPU_Run_def nodesMemory_Run_def usage_check_def collectNodeUsage_def fetchNodeMetrics_def
      nodeUsageSkip_def plain_error_def unknownFromErr_def)

end
