(* ===== verification/WorkloadChecks.thy ===== *)
theory WorkloadChecks
  imports CheckBase
begin

section \<open>Workload and service checks\<close>

text \<open>
  Rollouts of Deployments, StatefulSets and DaemonSets, CoreDNS replicas, PodDisruptionBudgets,
  autoscaler targets and services (checks/*_rollout.go, coredns_replicas.go, pdbs.go,
  hpas_missingtarget.go, services_*.go, controlplane_endpoints.go).
\<close>

subsection \<open>Rollouts\<close>

definition desired_replicas :: "workload \<Rightarrow> int" where
  "desired_replicas w = (case wl_replicas w of None \<Rightarrow> 0 | Some n \<Rightarrow> n)"

definition rollout_flag :: "string \<Rightarrow> string \<Rightarrow> workload \<Rightarrow> finding list" where
  "rollout_flag ident kind w =
     (let desired = desired_replicas w; ready = wl_ready w in
      if ready \<ge> desired then []
      else [detailed (mk_finding ident
              (if ready = 0 \<and> desired > 0 then StatusCritical else StatusWarning)
              (resourceID kind (wl_ns w) (wl_name w)) (itoa ready @ ''/'' @ itoa desired @ '' ready''))
              [(''desired'', itoa desired), (''ready'', itoa ready)]])"

definition deploymentsRollout_Run :: "cluster \<Rightarrow> finding list" where
  "deploymentsRollout_Run c = scan_check ''deployments.rollout'' ''list deployments''
     ''all deployments at desired replicas'' (rollout_flag ''deployments.rollout'' ''deployment'')
     (cl_deployments c (list_ns c) [])"

definition deploymentsRollout :: "cluster check" where
  "deploymentsRollout = mk_check ''deployments.rollout'' ''Deployments not at desired replica count''
     [CategoryWorkload] None deploymentsRollout_Run"

definition statefulsetsRollout_Run :: "cluster \<Rightarrow> finding list" where
  "statefulsetsRollout_Run c = scan_check ''statefulsets.rollout'' ''list statefulsets''
     ''all statefulsets at desired replicas'' (rollout_flag ''statefulsets.rollout'' ''statefulset'')
     (cl_statefulsets c (list_ns c))"

definition statefulsetsRollout :: "cluster check" where
  "statefulsetsRollout = mk_check ''statefulsets.rollout'' ''StatefulSets where readyReplicas < replicas''
     [CategoryWorkload] None statefulsetsRollout_Run"

definition daemonset_flag :: "daemonset \<Rightarrow> finding list" where
  "daemonset_flag d =
     (if ds_ready d \<ge> ds_desired d then []
      else [detailed (mk_finding ''daemonsets.rollout'' StatusWarning
              (resourceID ''daemonset'' (ds_ns d) (ds_name d))
              (itoa (ds_ready d) @ ''/'' @ itoa (ds_desired d) @ '' ready''))
              [(''desired'', itoa (ds_desired d)), (''ready'', itoa (ds_ready d))]])"

definition daemonsetsRollout_Run :: "cluster \<Rightarrow> finding list" where
  "daemonsetsRollout_Run c = scan_check ''daemonsets.rollout'' ''list daemonsets''
     ''all daemonsets fully rolled out'' daemonset_flag (cl_daemonsets c (list_ns c))"

definition daemonsetsRollout :: "cluster check" where
  "daemonsetsRollout = mk_check ''daemonsets.rollout''
     ''DaemonSets where numberReady < desiredNumberScheduled'' [CategoryWorkload] None
     daemonsetsRollout_Run"

definition coredns_finding :: "workload \<Rightarrow> finding" where
  "coredns_finding w =
     (let desired = desired_replicas w; ready = wl_ready w;
          res = resourceID ''deployment'' (wl_ns w) (wl_name w) in
      if ready = 0 \<and> desired > 0 then
        mk_finding ''coredns.replicas'' StatusCritical res (''0/'' @ itoa desired @ '' ready'')
      else if ready < desired then
        mk_finding ''coredns.replicas'' StatusWarning res (itoa ready @ ''/'' @ itoa desired @ '' ready'')
      else mk_finding ''coredns.replicas'' StatusOK res
             (''CoreDNS '' @ itoa ready @ ''/'' @ itoa desired @ '' ready''))"

definition corednsReplicas_Run :: "cluster \<Rightarrow> finding list" where
  "corednsReplicas_Run c =
     (case cl_deployments c ''kube-system'' ''k8s-app=kube-dns'' of
        Inl e \<Rightarrow> unknownFromErr ''coredns.replicas'' ''list coredns'' (ae_text e)
      | Inr [] \<Rightarrow> [mk_finding ''coredns.replicas'' StatusSkipped []
                    ''no Deployment with label k8s-app=kube-dns in kube-system'']
      | Inr ds \<Rightarrow> map coredns_finding ds)"

definition corednsReplicas :: "cluster check" where
  "corednsReplicas = mk_check ''coredns.replicas'' ''CoreDNS deployment availability in kube-system''
     [CategoryControlPlane] None corednsReplicas_Run"

subsection \<open>PodDisruptionBudgets\<close>

definition pdbsProtectedNamespaces :: "string list" where
  "pdbsProtectedNamespaces = [''kube-system'', ''cattle-system'', ''longhorn-system'']"

fun covered_loop :: "selector option list \<Rightarrow> (string \<times> string) list \<Rightarrow> bool" where
  "covered_loop [] ls = False"
| "covered_loop (None # ss) ls = covered_loop ss ls"
| "covered_loop (Some s # ss) ls =
     (if sel_empty s then covered_loop ss ls
      else if sel_matches s ls then True else covered_loop ss ls)"

definition covered :: "selector option list \<Rightarrow> (string \<times> string) list \<Rightarrow> bool" where
  "covered sels labelsMap = (if labelsMap = [] then False else covered_loop sels labelsMap)"

definition coverage_flag :: "selector option list \<Rightarrow> string \<Rightarrow> workload \<Rightarrow> finding list" where
  "coverage_flag sels kind w =
     (case wl_replicas w of
        None \<Rightarrow> []
      | Some n \<Rightarrow>
          if n < 2 then []
          else if \<not> covered sels (wl_labels w) then
            [mk_finding ''pdbs.coverage'' StatusWarning (resourceID kind (wl_ns w) (wl_name w))
               (itoa n @ '' replicas, no PDB selecting it'')]
          else [])"

definition coverage_ns :: "cluster \<Rightarrow> string \<Rightarrow> finding list" where
  "coverage_ns c ns =
     (case cl_pdbs c ns of
        Inl e \<Rightarrow> []
      | Inr pdbs \<Rightarrow>
          let sels = map pdb_selector pdbs in
          (case cl_deployments c ns [] of
             Inl e \<Rightarrow> [] | Inr ds \<Rightarrow> concat (map (coverage_flag sels ''deployment'') ds)) @
          (case cl_statefulsets c ns of
             Inl e \<Rightarrow> [] | Inr ss \<Rightarrow> concat (map (coverage_flag sels ''statefulset'') ss)))"

definition pdbsCoverage_Run :: "cluster \<Rightarrow> finding list" where
  "pdbsCoverage_Run c = or_ok ''pdbs.coverage'' ''all multi-replica system workloads covered by a PDB''
     (concat (map (coverage_ns c) (cl_range c pdbsProtectedNamespaces)))"

definition pdbsCoverage :: "cluster check" where
  "pdbsCoverage = mk_check ''pdbs.coverage''
     ''system Deployments/StatefulSets with replicas>=2 are covered by a PDB'' [CategoryWorkload] None
     pdbsCoverage_Run"

definition misconfigured_flag :: "pdb \<Rightarrow> finding list" where
  "misconfigured_flag p =
     (case pdb_min_available p of
        None \<Rightarrow> []
      | Some (StrVal s) \<Rightarrow> []
      | Some (IntVal minAv) \<Rightarrow>
          if pdb_expected p > 0 \<and> minAv \<ge> pdb_expected p then
            [mk_finding ''pdbs.misconfigured'' StatusCritical
               (resourceID ''poddisruptionbudget'' (pdb_ns p) (pdb_name p))
               (''minAvailable='' @ itoa minAv @ '' but only '' @ itoa (pdb_expected p) @
                '' expected pods (drains will block)'')]
          else [])"

definition pdbsMisconfigured_Run :: "cluster \<Rightarrow> finding list" where
  "pdbsMisconfigured_Run c = scan_check ''pdbs.misconfigured'' ''list pdbs''
     ''no PDBs with blocking minAvailable'' misconfigured_flag (cl_pdbs c (list_ns c))"

definition pdbsMisconfigured :: "cluster check" where
  "pdbsMisconfigured = mk_check ''pdbs.misconfigured''
     ''PDBs whose minAvailable equals or exceeds matching pod count (drains will block)''
     [CategoryWorkload] None pdbsMisconfigured_Run"

subsection \<open>Autoscaler targets\<close>

text \<open>\<open>(exists, knownKind)\<close>\<close>

definition workloadExists :: "cluster \<Rightarrow> string \<Rightarrow> string \<Rightarrow> string \<Rightarrow> bool \<times> bool" where
  "workloadExists c ns kind name =
     (if kind \<in> {''Deployment'', ''StatefulSet'', ''ReplicaSet'', ''ReplicationController''} then
        (case cl_get c kind ns name of
           None \<Rightarrow> (True, True)
         | Some e \<Rightarrow> (\<not> ae_not_found e, True))
      else (False, False))"

definition hpa_flag :: "cluster \<Rightarrow> hpa \<Rightarrow> finding list" where
  "hpa_flag c h =
     (let (exists, knownKind) = workloadExists c (hpa_ns h) (hpa_kind h) (hpa_target h) in
      if knownKind \<and> \<not> exists then
        [mk_finding ''hpas.missingTarget'' StatusCritical
           (resourceID ''horizontalpodautoscaler'' (hpa_ns h) (hpa_name h))
           (''scaleTargetRef '' @ hpa_kind h @ ''/'' @ hpa_target h @ '' does not exist'')]
      else [])"

definition hpasMissingTarget_Run :: "cluster \<Rightarrow> finding list" where
  "hpasMissingTarget_Run c = scan_check ''hpas.missingTarget'' ''list hpas'' ''all HPA targets resolve''
     (hpa_flag c) (cl_hpas c (list_ns c))"

definition hpasMissingTarget :: "cluster check" where
  "hpasMissingTarget = mk_check ''hpas.missingTarget''
     ''HorizontalPodAutoscaler scaleTargetRef points at a missing workload'' [CategoryWorkload] None
     hpasMissingTarget_Run"

subsection \<open>Services\<close>

definition nobackends_flag :: "cluster \<Rightarrow> service \<Rightarrow> finding list" where
  "nobackends_flag c s =
     (if svc_selector s = [] \<or> svc_type s = ''ExternalName'' then []
      else let sel = cl_selector_string c (svc_selector s) in
        case cl_pods c (svc_ns s) sel of
          Inl e \<Rightarrow> []
        | Inr [] \<Rightarrow> [mk_finding ''services.noBackends'' StatusWarning
                      (resourceID ''service'' (svc_ns s) (svc_name s))
                      (''selector '' @ sel @ '' matches no pods'')]
        | Inr ps \<Rightarrow> [])"

definition servicesNoBackends_Run :: "cluster \<Rightarrow> finding list" where
  "servicesNoBackends_Run c = scan_check ''services.noBackends'' ''list services''
     ''all selecting services have at least one matching pod'' (nobackends_flag c)
     (cl_services c (list_ns c))"

definition servicesNoBackends :: "cluster check" where
  "servicesNoBackends = mk_check ''services.noBackends'' ''ClusterIP services whose selector matches zero pods''
     [CategoryNetwork] None servicesNoBackends_Run"

definition any_ready :: "bool option list list \<Rightarrow> bool" where
  "any_ready slices = list_ex (list_ex (\<lambda>r. r = Some True)) slices"

definition serviceHasReadyEndpoint :: "cluster \<Rightarrow> service \<Rightarrow> api_error + bool" where
  "serviceHasReadyEndpoint c s =
     (case cl_endpoint_slices c (svc_ns s) (''kubernetes.io/service-name='' @ svc_name s) of
        Inl e \<Rightarrow> Inl e
      | Inr slices \<Rightarrow> Inr (any_ready slices))"

definition noendpoints_flag :: "cluster \<Rightarrow> service \<Rightarrow> finding list" where
  "noendpoints_flag c s =
     (if svc_selector s = [] \<or> svc_type s = ''ExternalName'' then []
      else let res = resourceID ''service'' (svc_ns s) (svc_name s) in
        case serviceHasReadyEndpoint c s of
          Inl e \<Rightarrow> [mk_finding ''services.noEndpoints'' StatusUnknown res
                     (''list endpointslices: '' @ ae_text e)]
        | Inr True \<Rightarrow> []
        | Inr False \<Rightarrow> [mk_finding ''services.noEndpoints'' StatusWarning res ''no ready endpoints''])"

definition servicesNoEndpoints_Run :: "cluster \<Rightarrow> finding list" where
  "servicesNoEndpoints_Run c = scan_check ''services.noEndpoints'' ''list services''
     ''all selector services have ready endpoints'' (noendpoints_flag c) (cl_services c (list_ns c))"

definition servicesNoEndpoints :: "cluster check" where
  "servicesNoEndpoints = mk_check ''services.noEndpoints'' ''Services with selectors but no ready endpoints''
     [CategoryNetwork] None servicesNoEndpoints_Run"

definition count_ready :: "bool option list list \<Rightarrow> nat" where
  "count_ready slices = length (filter (\<lambda>r. r = Some True) (concat slices))"

definition controlPlaneEndpoints_Run :: "cluster \<Rightarrow> finding list" where
  "controlPlaneEndpoints_Run c =
     (let crit = (\<lambda>msg. [mk_finding ''controlplane.endpoints'' StatusCritical
                           ''service/kubernetes in ns/default'' msg]) in
      case cl_endpoint_slices c ''default'' ''kubernetes.io/service-name=kubernetes'' of
        Inl e \<Rightarrow> if ae_not_found e then crit ''no EndpointSlice for default/kubernetes''
                 else unknownFromErr ''controlplane.endpoints'' ''list endpointslices'' (ae_text e)
      | Inr [] \<Rightarrow> crit ''no EndpointSlice for default/kubernetes''
      | Inr slices \<Rightarrow>
          if count_ready slices = 0 then crit ''EndpointSlices have zero ready endpoints''
          else [okFinding ''controlplane.endpoints''
                  (''default/kubernetes has '' @ itoa (int (count_ready slices)) @ '' ready endpoint(s)'')])"

definition controlPlaneEndpoints :: "cluster check" where
  "controlPlaneEndpoints = mk_check ''controlplane.endpoints''
     ''default/kubernetes Service has ready endpoints'' [CategoryControlPlane] None
     controlPlaneEndpoints_Run"

subsection \<open>The contract of the loop bodies\<close>

interpretation roll: item_scan ident "rollout_flag ident kind" for ident kind
  by unfold_locales (auto simp: rollout_flag_def Let_def split: if_splits)

interpretation dset: item_scan "''daemonsets.rollout''" daemonset_flag
  by unfold_locales (auto simp: daemonset_flag_def split: if_splits)

interpretation miscfg: item_scan "''pdbs.misconfigured''" misconfigured_flag
  by unfold_locales (auto simp: misconfigured_flag_def split: option.splits int_or_string.splits if_splits)

interpretation hpas: item_scan "''hpas.missingTarget''" "hpa_flag c" for c
  by unfold_locales (auto simp: hpa_flag_def split: prod.splits if_splits)

interpretation nobk: item_scan "''services.noBackends''" "nobackends_flag c" for c
  by unfold_locales (auto simp: nobackends_flag_def Let_def split: sum.splits list.splits if_splits)

interpretation noep: item_scan "''services.noEndpoints''" "noendpoints_flag c" for c
  by unfold_locales (auto simp: noendpoints_flag_def Let_def split: sum.splits bool.splits if_splits)

interpretation cover: item_scan "''pdbs.coverage''" "coverage_ns c" for c
  by unfold_locales
    (auto simp: coverage_ns_def coverage_flag_def Let_def split: sum.splits option.splits if_splits)

lemma pdbsCoverage_scan:
  "pdbsCoverage_Run c = scan_check ''pdbs.coverage'' op ''all multi-replica system workloads covered by a PDB''
     (coverage_ns c) (Inr (cl_range c pdbsProtectedNamespaces))"
  by (simp add: pdbsCoverage_Run_def scan_check_def)

lemma coredns_sound [simp]:
  "f_check (coredns_finding w) = ''coredns.replicas''"
  "f_status (coredns_finding w) =
     (if wl_ready w = 0 \<and> desired_replicas w > 0 then StatusCritical
      else if wl_ready w < desired_replicas w then StatusWarning else StatusOK)"
  by (simp_all add: coredns_finding_def Let_def)

lemma coredns_wf: "wf_findings ''coredns.replicas'' (corednsReplicas_Run c)"
  by (auto simp: corednsReplicas_Run_def wf_unknown wf_findings_def [of _ "_ # _"]
      split: sum.split list.split)

lemma endpoints_wf: "wf_findings ''controlplane.endpoints'' (controlPlaneEndpoints_Run c)"
  by (auto simp: controlPlaneEndpoints_Run_def Let_def wf_unknown
      split: sum.split list.split intro!: wf_single)

lemma workload_checks_contract [check_contract]:
  "keeps_contract deploymentsRollout" "keeps_contract statefulsetsRollout"
  "keeps_contract daemonsetsRollout" "keeps_contract corednsReplicas" "keeps_contract pdbsCoverage"
  "keeps_contract pdbsMisconfigured" "keeps_contract hpasMissingTarget"
  "keeps_contract servicesNoBackends" "keeps_contract servicesNoEndpoints"
  "keeps_contract controlPlaneEndpoints"
  by (simp_all add: keeps_contract_def deploymentsRollout_def deploymentsRollout_Run_def roll.scan_wf
      statefulsetsRollout_def statefulsetsRollout_Run_def daemonsetsRollout_def
      daemonsetsRollout_Run_def dset.scan_wf corednsReplicas_def coredns_wf pdbsCoverage_def
      pdbsCoverage_scan [where op = "[]"] cover.scan_wf pdbsMisconfigured_def
      pdbsMisconfigured_Run_def miscfg.scan_wf hpasMissingTarget_def hpasMissingTarget_Run_def
      hpas.scan_wf servicesNoBackends_def servicesNoBackends_Run_def nobk.scan_wf
      servicesNoEndpoints_def servicesNoEndpoints_Run_def noep.scan_wf controlPlaneEndpoints_def
      endpoints_wf)

subsection \<open>Properties\<close>

text \<open>
  The rollout checks judge every workload: \<open>deployments.rollout\<close> is OK exactly when every
  listed Deployment has its desired replicas ready, CRIT exactly when one that wants replicas
  has none ready, and WARN exactly when one has some but too few.
\<close>

lemma rollout_reports:
  assumes "cl_deployments c (list_ns c) [] = Inr ds" and "\<forall>d \<in> set ds. 0 \<le> wl_ready d"
  shows "(StatusOK \<in> statuses (deploymentsRollout_Run c) \<longleftrightarrow>
            (\<forall>d \<in> set ds. desired_replicas d \<le> wl_ready d)) \<and>
         (StatusCritical \<in> statuses (deploymentsRollout_Run c) \<longleftrightarrow>
            (\<exists>d \<in> set ds. wl_ready d = 0 \<and> desired_replicas d > 0)) \<and>
         (StatusWarning \<in> statuses (deploymentsRollout_Run c) \<longleftrightarrow>
            (\<exists>d \<in> set ds. 0 < wl_ready d \<and> wl_ready d < desired_replicas d))"
proof -
  have ok: "rollout_flag i k d = [] \<longleftrightarrow> desired_replicas d \<le> wl_ready d" for i k d
    by (simp add: rollout_flag_def Let_def)
  have crit: "StatusCritical \<in> statuses (rollout_flag i k d) \<longleftrightarrow> wl_ready d = 0 \<and> desired_replicas d > 0"
    if "d \<in> set ds" for i k d
    using that assms(2) by (auto simp: rollout_flag_def Let_def)
  have warn: "StatusWarning \<in> statuses (rollout_flag i k d) \<longleftrightarrow>
      0 < wl_ready d \<and> wl_ready d < desired_replicas d" if "d \<in> set ds" for i k d
    using that assms(2) by (force simp: rollout_flag_def Let_def)
  show ?thesis
    unfolding deploymentsRollout_Run_def assms(1) roll.scan_ok
      roll.scan_status [OF status_distinct(9)] roll.scan_status [OF status_distinct(5)] ok
    using crit warn by blast
qed

lemma rollout_reports_example:
  "statuses (deploymentsRollout_Run (empty_cluster\<lparr>cl_deployments := (\<lambda>_ _. Inr
     [\<lparr>wl_ns = ''a'', wl_name = ''w'', wl_replicas = Some 3, wl_ready = 0, wl_labels = []\<rparr>])\<rparr>))
   \<inter> {StatusOK, StatusCritical} = {StatusCritical}"
  using rollout_reports [of "empty_cluster\<lparr>cl_deployments := (\<lambda>_ _. Inr
     [\<lparr>wl_ns = ''a'', wl_name = ''w'', wl_replicas = Some 3, wl_ready = 0, wl_labels = []\<rparr>])\<rparr>"]
  by (auto simp: desired_replicas_def)

end
