(* ===== verification/StorageChecks.thy ===== *)
theory StorageChecks
  imports CheckBase
begin

section \<open>Storage, ingress and namespace checks\<close>

text \<open>
  Volumes and claims, storage classes, ingresses, events and namespaces (checks/pvc_pending.go,
  pv_pvc_health.go, storageclass_default.go, ingresses.go, events_warnings.go,
  namespaces_terminating.go).
\<close>

subsection \<open>Claims, volumes and attachments\<close>

definition pvcPendingThreshold :: duration where "pvcPendingThreshold = 5 * Minute"

definition pvc_pending_flag :: "instant \<Rightarrow> pvc \<Rightarrow> finding list" where
  "pvc_pending_flag now p =
     (if pvc_phase p = ''Bound'' then []
      else let age = time_sub now (pvc_created p) in
        if age < pvcPendingThreshold then []
        else [detailed (mk_finding ''pvc.pending'' StatusWarning (resourceID ''pvc'' (pvc_ns p) (pvc_name p))
                (''phase='' @ pvc_phase p @ '' for '' @ duration_string (duration_round age Second)))
                [(''phase'', pvc_phase p)]])"

definition pvcPending_Run :: "cluster \<Rightarrow> finding list" where
  "pvcPending_Run c = scan_check ''pvc.pending'' ''list pvcs'' ''all PVCs Bound or recent''
     (pvc_pending_flag (cl_now c)) (cl_pvcs c (list_ns c))"

definition pvcPending :: "cluster check" where
  "pvcPending = mk_check ''pvc.pending'' ''PVCs not Bound past the threshold'' [CategoryStorage] None
     pvcPending_Run"

definition lost_flag :: "string set \<Rightarrow> pvc \<Rightarrow> finding list" where
  "lost_flag pvSet p =
     (if pvc_volume p = [] then []
      else if pvc_volume p \<in> pvSet then []
      else [mk_finding ''pvc.lostBoundPV'' StatusCritical
              (resourceID ''persistentvolumeclaim'' (pvc_ns p) (pvc_name p))
              (''bound to volumeName='' @ pvc_volume p @ '' but PV does not exist'')])"

definition pvcLostBoundPV_Run :: "cluster \<Rightarrow> finding list" where
  "pvcLostBoundPV_Run c =
     (case cl_pvcs c (list_ns c) of
        Inl e \<Rightarrow> unknownFromErr ''pvc.lostBoundPV'' ''list pvcs'' (ae_text e)
      | Inr pvcs \<Rightarrow>
     (case cl_pvs c of
        Inl e \<Rightarrow> unknownFromErr ''pvc.lostBoundPV'' ''list pvs'' (ae_text e)
      | Inr pvs \<Rightarrow>
          or_ok ''pvc.lostBoundPV'' ''all bound PVCs reference an existing PV''
            (concat (map (lost_flag (pv_name ` set pvs)) pvcs))))"

definition pvcLostBoundPV :: "cluster check" where
  "pvcLostBoundPV = mk_check ''pvc.lostBoundPV''
     ''PVCs that reference a PersistentVolume that no longer exists'' [CategoryStorage] None
     pvcLostBoundPV_Run"

definition pvReleasedStaleAfter :: duration where "pvReleasedStaleAfter = 24 * Hour"

definition released_flag :: "instant \<Rightarrow> pv \<Rightarrow> finding list" where
  "released_flag now v =
     (if pv_phase v \<noteq> ''Released'' then []
      else let age = duration_round (time_sub now (pv_created v)) Minute in
        if age < pvReleasedStaleAfter then []
        else [mk_finding ''pv.releasedNotReclaimed'' StatusWarning (''persistentvolume/'' @ pv_name v)
                (''Released for '' @ duration_string age @ '' (reclaim policy='' @ pv_policy v @ '')'')])"

definition pvReleasedNotReclaimed_Run :: "cluster \<Rightarrow> finding list" where
  "pvReleasedNotReclaimed_Run c = scan_check ''pv.releasedNotReclaimed'' ''list pvs''
     ''no stale Released PVs'' (released_flag (cl_now c)) (cl_pvs c)"

definition pvReleasedNotReclaimed :: "cluster check" where
  "pvReleasedNotReclaimed = mk_check ''pv.releasedNotReclaimed''
     ''PVs in Released phase past their reclaim window'' [CategoryStorage] None
     pvReleasedNotReclaimed_Run"

definition vaErrorMessage :: "volume_attachment \<Rightarrow> string" where
  "vaErrorMessage va =
     (case va_attach_error va of
        Some m \<Rightarrow> ''AttachError: '' @ m
      | None \<Rightarrow>
     (case va_detach_error va of Some m \<Rightarrow> ''DetachError: '' @ m | None \<Rightarrow> []))"

definition attachment_flag :: "volume_attachment \<Rightarrow> finding list" where
  "attachment_flag va =
     (if vaErrorMessage va \<noteq> [] then
        [mk_finding ''volumeattachments.failed'' StatusCritical (''volumeattachment/'' @ va_name va)
           (vaErrorMessage va)]
      else [])"

definition volumeAttachmentsFailed_Run :: "cluster \<Rightarrow> finding list" where
  "volumeAttachmentsFailed_Run c = scan_check ''volumeattachments.failed'' ''list volumeattachments''
     ''no failing VolumeAttachments'' attachment_flag (cl_attachments c)"

definition volumeAttachmentsFailed :: "cluster check" where
  "volumeAttachmentsFailed = mk_check ''volumeattachments.failed''
     ''VolumeAttachment objects with attach or detach errors'' [CategoryStorage] None
     volumeAttachmentsFailed_Run"

definition storageclassDefault_Run :: "cluster \<Rightarrow> finding list" where
  "storageclassDefault_Run c =
     (case cl_storage_classes c of
        Inl e \<Rightarrow> unknownFromErr ''storageclass.default'' ''list storageclasses'' (ae_text e)
      | Inr scs \<Rightarrow>
          let defaults = map sc_name (filter (\<lambda>s. map_of (sc_annotations s)
                 ''storageclass.kubernetes.io/is-default-class'' = Some ''true'') scs) in
          (case defaults of
             [] \<Rightarrow> [mk_finding ''storageclass.default'' StatusWarning []
                     ''no StorageClass marked as default (PVCs without storageClassName will fail to bind)'']
           | [d] \<Rightarrow> [okFinding ''storageclass.default'' (''default StorageClass: '' @ d)]
           | ds \<Rightarrow> [mk_finding ''storageclass.default'' StatusCritical []
                     (itoa (int (length ds)) @ '' StorageClasses marked default: '' @ join '', '' ds @
                      '' (kubernetes will reject ambiguous PVCs)'')]))"

definition storageclassDefault :: "cluster check" where
  "storageclassDefault = mk_check ''storageclass.default'' ''exactly one StorageClass annotated as default''
     [CategoryStorage] None storageclassDefault_Run"

subsection \<open>Events and namespaces\<close>

definition eventsWindow :: duration where "eventsWindow = 30 * Minute"

definition lastEventTime :: "kevent \<Rightarrow> instant" where
  "lastEventTime e =
     (if ev_last e \<noteq> zero_time then ev_last e
      else if ev_time e \<noteq> zero_time then ev_time e else ev_created e)"

definition event_flag :: "instant \<Rightarrow> kevent \<Rightarrow> finding list" where
  "event_flag now e =
     (let cutoff = now - eventsWindow; ts = lastEventTime e in
      if ev_type e \<noteq> ''Warning'' then []
      else if ts = zero_time \<or> ts < cutoff then []
      else [detailed (mk_finding ''events.warnings'' StatusWarning
              (resourceID (ev_kind e) (ev_ns e) (ev_name e)) (ev_reason e @ '': '' @ ev_message e))
              [(''reason'', ev_reason e), (''count'', itoa (ev_count e))]])"

definition eventsWarnings_Run :: "cluster \<Rightarrow> finding list" where
  "eventsWarnings_Run c = scan_check ''events.warnings'' ''list events''
     (''no warning events in last '' @ duration_string eventsWindow) (event_flag (cl_now c))
     (cl_events c (list_ns c))"

definition eventsWarnings :: "cluster check" where
  "eventsWarnings = mk_check ''events.warnings'' ''Warning-level events in the last window''
     [CategoryEvents] None eventsWarnings_Run"

definition nsTerminatingWarnAfter :: duration where "nsTerminatingWarnAfter = 5 * Minute"
definition nsTerminatingCritAfter :: duration where "nsTerminatingCritAfter = 1 * Hour"

definition terminating_flag :: "instant \<Rightarrow> kns \<Rightarrow> finding list" where
  "terminating_flag now n =
     (if ns_phase n \<noteq> ''Terminating'' then []
      else let since = (case ns_deleted n of Some t \<Rightarrow> t | None \<Rightarrow> ns_created n);
               age = duration_round (time_sub now since) Second
        in if age \<ge> nsTerminatingCritAfter then
             [mk_finding ''namespaces.stuckTerminating'' StatusCritical (''namespace/'' @ ns_name n)
                (''Terminating for '' @ duration_string age @ '' (finalizer wedged?)'')]
           else if age \<ge> nsTerminatingWarnAfter then
             [mk_finding ''namespaces.stuckTerminating'' StatusWarning (''namespace/'' @ ns_name n)
                (''Terminating for '' @ duration_string age)]
           else [])"

definition namespacesTerminating_Run :: "cluster \<Rightarrow> finding list" where
  "namespacesTerminating_Run c = scan_check ''namespaces.stuckTerminating'' ''list namespaces''
     ''no namespaces stuck in Terminating'' (terminating_flag (cl_now c)) (cl_namespaces c)"

definition namespacesTerminating :: "cluster check" where
  "namespacesTerminating = mk_check ''namespaces.stuckTerminating''
     ''namespaces stuck in Terminating phase past their grace window'' [CategoryControlPlane] None
     namespacesTerminating_Run"

subsection \<open>Ingresses\<close>

record backend_ref =
  br_name :: string
  br_port_name :: string
  br_port_number :: int

definition fromIngressService :: "backend_service \<Rightarrow> backend_ref" where
  "fromIngressService s = \<lparr>br_name = bs_name s, br_port_name = bs_port_name s,
     br_port_number = bs_port_number s\<rparr>"

definition collectIngressBackends :: "ingress \<Rightarrow> backend_ref list" where
  "collectIngressBackends ing =
     (case ing_default ing of Some (Some s) \<Rightarrow> [fromIngressService s] | _ \<Rightarrow> []) @
     concat (map (\<lambda>rule. case rule of
         None \<Rightarrow> []
       | Some paths \<Rightarrow> concat (map (\<lambda>p. case p of None \<Rightarrow> [] | Some s \<Rightarrow> [fromIngressService s]) paths))
       (ing_rules ing))"

text \<open>
  The lookups of services are memoised by namespace and name; \<open>None\<close> is the entry of a service
  that could not be read. The state of the loop is the memo and the findings so far.
\<close>

type_synonym svc_memo = "string \<rightharpoonup> (string \<times> int) list option"

definition lookup_service ::
  "cluster \<Rightarrow> string \<Rightarrow> string \<Rightarrow> svc_memo \<Rightarrow> (string \<times> int) list option \<times> svc_memo" where
  "lookup_service c ns name memo =
     (let key = ns @ ''/'' @ name in
      case memo key of
        Some svc \<Rightarrow> (svc, memo)
      | None \<Rightarrow>
          let svc = (case cl_service_ports c ns name of Inl e \<Rightarrow> None | Inr ports \<Rightarrow> Some ports)
          in (svc, memo(key \<mapsto> svc)))"

definition backend_findings :: "ingress \<Rightarrow> backend_ref \<Rightarrow> (string \<times> int) list option \<Rightarrow> finding list" where
  "backend_findings ing ref svc =
     (let bad = (\<lambda>msg. mk_finding ''ingresses.danglingService'' StatusCritical
                  (resourceID ''ingress'' (ing_ns ing) (ing_name ing)) msg) in
      case svc of
        None \<Rightarrow> [bad (''backend service/'' @ br_name ref @ '' not found'')]
      | Some ports \<Rightarrow>
          (if br_port_name ref \<noteq> [] \<and> br_port_name ref \<notin> fst ` set ports then
             [bad (''service/'' @ br_name ref @ '' has no port named '' @ quote (br_port_name ref))] else []) @
          (if br_port_number ref > 0 \<and> br_port_number ref \<notin> snd ` set ports then
             [bad (''service/'' @ br_name ref @ '' has no port '' @ itoa (br_port_number ref))] else []))"

fun backends_loop ::
  "cluster \<Rightarrow> ingress \<Rightarrow> backend_ref list \<Rightarrow> svc_memo \<Rightarrow> finding list \<Rightarrow> svc_memo \<times> finding list" where
  "backends_loop c ing [] memo out = (memo, out)"
| "backends_loop c ing (r # rs) memo out =
     (let (svc, memo') = lookup_service c (ing_ns ing) (br_name r) memo
      in backends_loop c ing rs memo' (out @ backend_findings ing r svc))"

fun ingresses_loop ::
  "cluster \<Rightarrow> ingress list \<Rightarrow> svc_memo \<Rightarrow> finding list \<Rightarrow> svc_memo \<times> finding list" where
  "ingresses_loop c [] memo out = (memo, out)"
| "ingresses_loop c (i # ings) memo out =
     (let (memo', out') = backends_loop c i (collectIngressBackends i) memo out
      in ingresses_loop c ings memo' out')"

definition ingressesDanglingService_Run :: "cluster \<Rightarrow> finding list" where
  "ingressesDanglingService_Run c =
     (case cl_ingresses c (list_ns c) of
        Inl e \<Rightarrow> unknownFromErr ''ingresses.danglingService'' ''list ingresses'' (ae_text e)
      | Inr ings \<Rightarrow> or_ok ''ingresses.danglingService'' ''all ingress backends resolve''
                   (snd (ingresses_loop c ings Map.empty [])))"

definition ingressesDanglingService :: "cluster check" where
  "ingressesDanglingService = mk_check ''ingresses.danglingService''
     ''Ingress backends reference Services that don't exist or lack the named port'' [CategoryNetwork] None
     ingressesDanglingService_Run"

definition class_flag :: "string set \<Rightarrow> ingress \<Rightarrow> finding list" where
  "class_flag classSet ing =
     (case ing_class ing of
        None \<Rightarrow> []
      | Some cls \<Rightarrow>
          if cls = [] then []
          else if cls \<notin> classSet then
            [mk_finding ''ingresses.missingClass'' StatusCritical
               (resourceID ''ingress'' (ing_ns ing) (ing_name ing))
               (''ingressClassName='' @ quote cls @ '' does not exist'')]
          else [])"

definition ingressesMissingClass_Run :: "cluster \<Rightarrow> finding list" where
  "ingressesMissingClass_Run c =
     (case cl_ingresses c (list_ns c) of
        Inl e \<Rightarrow> unknownFromErr ''ingresses.missingClass'' ''list ingresses'' (ae_text e)
      | Inr ings \<Rightarrow>
     (case cl_ingress_classes c of
        Inl e \<Rightarrow> unknownFromErr ''ingresses.missingClass'' ''list ingressclasses'' (ae_text e)
      | Inr classes \<Rightarrow>
          or_ok ''ingresses.missingClass'' ''all ingressClassName values resolve''
            (concat (map (class_flag (set classes)) ings))))"

definition ingressesMissingClass :: "cluster check" where
  "ingressesMissingClass = mk_check ''ingresses.missingClass''
     ''Ingress ingressClassName references an IngressClass that doesn't exist'' [CategoryNetwork] None
     ingressesMissingClass_Run"

subsection \<open>The memo of the ingress check is transparent\<close>

definition fresh_service :: "cluster \<Rightarrow> string \<Rightarrow> string \<Rightarrow> (string \<times> int) list option" where
  "fresh_service c ns name = (case cl_service_ports c ns name of Inl e \<Rightarrow> None | Inr ports \<Rightarrow> Some ports)"

definition ingress_flag :: "cluster \<Rightarrow> ingress \<Rightarrow> finding list" where
  "ingress_flag c i = concat (map (\<lambda>r. backend_findings i r (fresh_service c (ing_ns i) (br_name r)))
     (collectIngressBackends i))"

text \<open>
  A memo is sound for the namespaces without a slash: each of its entries is what a lookup
  would give.
\<close>

definition memo_sound :: "cluster \<Rightarrow> svc_memo \<Rightarrow> bool" where
  "memo_sound c memo \<longleftrightarrow> (\<forall>ns name svc. CHR ''/'' \<notin> set ns \<longrightarrow> memo (ns @ ''/'' @ name) = Some svc \<longrightarrow>
     svc = fresh_service c ns name)"

lemma lookup_service_sound:
  assumes "memo_sound c memo" and "CHR ''/'' \<notin> set ns" and "lookup_service c ns name memo = (svc, memo')"
  shows "svc = fresh_service c ns name \<and> memo_sound c memo'"
proof (cases "memo (ns @ ''/'' @ name)")
  case (Some s)
  then show ?thesis using assms by (auto simp: lookup_service_def memo_sound_def)
next
  case None
  then have "svc = fresh_service c ns name" "memo' = memo(ns @ ''/'' @ name \<mapsto> svc)"
    using assms(3) by (auto simp: lookup_service_def fresh_service_def Let_def)
  moreover have "n = ns \<and> m = name" if "n @ ''/'' @ m = ns @ ''/'' @ name" "CHR ''/'' \<notin> set n" for n m
    using that append_sep_eq [of "CHR ''/''" n ns m name] assms(2) by simp
  ultimately show ?thesis using assms(1) by (fastforce simp: memo_sound_def)
qed

lemma backends_loop_eq:
  assumes "memo_sound c memo" and "CHR ''/'' \<notin> set (ing_ns i)"
  shows "snd (backends_loop c i rs memo out) =
           out @ concat (map (\<lambda>r. backend_findings i r (fresh_service c (ing_ns i) (br_name r))) rs) \<and>
         memo_sound c (fst (backends_loop c i rs memo out))"
  using assms(1)
proof (induction rs arbitrary: memo out)
  case (Cons r rs)
  obtain svc memo' where l: "lookup_service c (ing_ns i) (br_name r) memo = (svc, memo')"
    by (cases "lookup_service c (ing_ns i) (br_name r) memo")
  then have "svc = fresh_service c (ing_ns i) (br_name r)" "memo_sound c memo'"
    using lookup_service_sound [OF Cons.prems assms(2)] by auto
  then show ?case using Cons.IH l by simp
qed simp

lemma ingresses_loop_eq:
  assumes "memo_sound c memo" and "\<forall>i \<in> set ings. CHR ''/'' \<notin> set (ing_ns i)"
  shows "snd (ingresses_loop c ings memo out) = out @ concat (map (ingress_flag c) ings)"
  using assms
proof (induction ings arbitrary: memo out)
  case (Cons i ings)
  then show ?case
    using backends_loop_eq [of c memo i "collectIngressBackends i" out]
    by (cases "backends_loop c i (collectIngressBackends i) memo out") (simp add: ingress_flag_def)
qed simp

subsection \<open>The contract of the loop bodies\<close>

interpretation pvcp: item_scan "''pvc.pending''" "pvc_pending_flag now" for now
  by unfold_locales (auto simp: pvc_pending_flag_def Let_def split: if_splits)

interpretation lost: item_scan "''pvc.lostBoundPV''" "lost_flag S" for S
  by unfold_locales (auto simp: lost_flag_def split: if_splits)

interpretation rel: item_scan "''pv.releasedNotReclaimed''" "released_flag now" for now
  by unfold_locales (auto simp: released_flag_def Let_def split: if_splits)

interpretation att: item_scan "''volumeattachments.failed''" attachment_flag
  by unfold_locales (auto simp: attachment_flag_def split: if_splits)

interpretation evt: item_scan "''events.warnings''" "event_flag now" for now
  by unfold_locales (auto simp: event_flag_def Let_def split: if_splits)

interpretation nsterm: item_scan "''namespaces.stuckTerminating''" "terminating_flag now" for now
  by unfold_locales (auto simp: terminating_flag_def Let_def split: if_splits)

interpretation cls: item_scan "''ingresses.missingClass''" "class_flag S" for S
  by unfold_locales (auto simp: class_flag_def split: option.splits if_splits)

interpretation ingr: item_scan "''ingresses.danglingService''" "ingress_flag c" for c
  by unfold_locales
    (auto simp: ingress_flag_def backend_findings_def Let_def split: option.splits if_splits)

lemma backends_loop_sound:
  "\<forall>f \<in> set out. f_check f = ''ingresses.danglingService'' \<and> f_status f = StatusCritical \<Longrightarrow>
   \<forall>f \<in> set (snd (backends_loop c i rs memo out)).
     f_check f = ''ingresses.danglingService'' \<and> f_status f = StatusCritical"
proof (induction rs arbitrary: memo out)
  case (Cons r rs)
  obtain svc memo' where l: "lookup_service c (ing_ns i) (br_name r) memo = (svc, memo')"
    by (cases "lookup_service c (ing_ns i) (br_name r) memo")
  have "\<forall>f \<in> set (backend_findings i r svc). f_check f = ''ingresses.danglingService'' \<and>
      f_status f = StatusCritical"
    by (auto simp: backend_findings_def Let_def split: option.splits)
  then have "\<forall>f \<in> set (out @ backend_findings i r svc). f_check f = ''ingresses.danglingService'' \<and>
      f_status f = StatusCritical" using Cons.prems by auto
  from Cons.IH [OF this, of memo'] show ?case using l by simp
qed simp

lemma ingresses_loop_sound:
  "\<forall>f \<in> set out. f_check f = ''ingresses.danglingService'' \<and> f_status f = StatusCritical \<Longrightarrow>
   \<forall>f \<in> set (snd (ingresses_loop c ings memo out)).
     f_check f = ''ingresses.danglingService'' \<and> f_status f = StatusCritical"
proof (induction ings arbitrary: memo out)
  case (Cons i ings)
  obtain memo' out' where l: "backends_loop c i (collectIngressBackends i) memo out = (memo', out')"
    by (cases "backends_loop c i (collectIngressBackends i) memo out")
  have "\<forall>f \<in> set out'. f_check f = ''ingresses.danglingService'' \<and> f_status f = StatusCritical"
    using backends_loop_sound [OF Cons.prems, of c i "collectIngressBackends i" memo] l by simp
  from Cons.IH [OF this, of memo'] show ?case using l by simp
qed simp

lemma lost_scan:
  "pvcLostBoundPV_Run c =
     (case cl_pvs c of
        Inl e \<Rightarrow> (case cl_pvcs c (list_ns c) of
           Inl e' \<Rightarrow> unknownFromErr ''pvc.lostBoundPV'' ''list pvcs'' (ae_text e')
         | Inr _ \<Rightarrow> unknownFromErr ''pvc.lostBoundPV'' ''list pvs'' (ae_text e))
      | Inr pvs \<Rightarrow> scan_check ''pvc.lostBoundPV'' ''list pvcs'' ''all bound PVCs reference an existing PV''
          (lost_flag (pv_name ` set pvs)) (cl_pvcs c (list_ns c)))"
  by (simp add: pvcLostBoundPV_Run_def scan_check_def split: sum.split)

lemma class_scan:
  "ingressesMissingClass_Run c =
     (case cl_ingress_classes c of
        Inl e \<Rightarrow> (case cl_ingresses c (list_ns c) of
           Inl e' \<Rightarrow> unknownFromErr ''ingresses.missingClass'' ''list ingresses'' (ae_text e')
         | Inr _ \<Rightarrow> unknownFromErr ''ingresses.missingClass'' ''list ingressclasses'' (ae_text e))
      | Inr cs \<Rightarrow> scan_check ''ingresses.missingClass'' ''list ingresses''
          ''all ingressClassName values resolve'' (class_flag (set cs)) (cl_ingresses c (list_ns c)))"
  by (simp add: ingressesMissingClass_Run_def scan_check_def split: sum.split)

lemma dangling_wf: "wf_findings ''ingresses.danglingService'' (ingressesDanglingService_Run c)"
  using ingresses_loop_sound [of "[]" c _ Map.empty]
  by (auto simp: ingressesDanglingService_Run_def wf_unknown split: sum.split intro!: wf_or_ok)

lemma storageclass_wf: "wf_findings ''storageclass.default'' (storageclassDefault_Run c)"
  by (auto simp: storageclassDefault_Run_def Let_def wf_unknown split: sum.split list.split intro!: wf_single)

lemma storage_checks_contract [check_contract]:
  "keeps_contract pvcPending" "keeps_contract pvcLostBoundPV" "keeps_contract pvReleasedNotReclaimed"
  "keeps_contract volumeAttachmentsFailed" "keeps_contract storageclassDefault"
  "keeps_contract eventsWarnings" "keeps_contract namespacesTerminating"
  "keeps_contract ingressesDanglingService" "keeps_contract ingressesMissingClass"
  by (auto simp: keeps_contract_def pvcPending_def pvcPending_Run_def pvcp.scan_wf pvcLostBoundPV_def
      lost_scan lost.scan_wf wf_unknown pvReleasedNotReclaimed_def pvReleasedNotReclaimed_Run_def
      rel.scan_wf volumeAttachmentsFailed_def volumeAttachmentsFailed_Run_def att.scan_wf
      storageclassDefault_def storageclass_wf eventsWarnings_def eventsWarnings_Run_def evt.scan_wf
      namespacesTerminating_def namespacesTerminating_Run_def nsterm.scan_wf
      ingressesDanglingService_def dangling_wf ingressesMissingClass_def class_scan cls.scan_wf
      split: sum.split)

subsection \<open>Properties\<close>

text \<open>
  C34. Caching the services does not change the verdict: \<open>ingresses.danglingService\<close>, which reads
  each service once, reports what looking every backend up afresh would report.
\<close>

theorem ingress_memo_transparent:
  assumes "\<forall>ings. cl_ingresses c (list_ns c) = Inr ings \<longrightarrow> (\<forall>i \<in> set ings. CHR ''/'' \<notin> set (ing_ns i))"
  shows "ingressesDanglingService_Run c =
     scan_check ''ingresses.danglingService'' ''list ingresses'' ''all ingress backends resolve''
       (ingress_flag c) (cl_ingresses c (list_ns c))"
proof (cases "cl_ingresses c (list_ns c)")
  case (Inr ings)
  have "memo_sound c Map.empty" by (simp add: memo_sound_def)
  then show ?thesis
    using ingresses_loop_eq [of c Map.empty ings "[]"] assms Inr
    by (simp add: ingressesDanglingService_Run_def scan_check_def)
qed (simp add: ingressesDanglingService_Run_def scan_check_def)

definition demo_ingress :: ingress where
  "demo_ingress = \<lparr>ing_ns = ''shop'', ing_name = ''web'', ing_class = None,
     ing_default = Some (Some \<lparr>bs_name = ''api'', bs_port_name = [], bs_port_number = 80\<rparr>),
     ing_rules = [None, Some [Some \<lparr>bs_name = ''api'', bs_port_name = ''http'', bs_port_number = 0\<rparr>]]\<rparr>"

theorem ingress_memo_transparent_witness:
  "length (ingressesDanglingService_Run (empty_cluster\<lparr>cl_ingresses := (\<lambda>_. Inr [demo_ingress]),
     cl_service_ports := (\<lambda>_ _. Inr [(''grpc'', 80)])\<rparr>)) = 1"
proof -
  let ?c = "empty_cluster\<lparr>cl_ingresses := (\<lambda>_. Inr [demo_ingress]),
     cl_service_ports := (\<lambda>_ _. Inr [(''grpc'', 80)])\<rparr>"
  have "ingressesDanglingService_Run ?c =
     scan_check ''ingresses.danglingService'' ''list ingresses'' ''all ingress backends resolve''
       (ingress_flag ?c) (cl_ingresses ?c (list_ns ?c))"
    by (rule ingress_memo_transparent) (simp add: demo_ingress_def)
  then show ?thesis
    by (simp add: scan_check_def or_ok_def ingress_flag_def collectIngressBackends_def
        demo_ingress_def fromIngressService_def backend_findings_def fresh_service_def)
qed

end
