(* ===== verification/ControlPlaneChecks.thy ===== *)
theory ControlPlaneChecks
  imports NodeChecks
begin

section \<open>Control-plane and operator checks\<close>

text \<open>
  The leases of the controller manager and the scheduler, the API server's health and
  certificate, RBAC and admission webhooks (checks/controlplane_lease.go, controllermgr_healthz.go,
  scheduler_healthz.go, apiserver_*.go, rbac_wildcards.go, webhooks_timeout.go).
\<close>

subsection \<open>Leader-election leases (controlplane_lease.go)\<close>

definition leaseStaleFactor :: int where "leaseStaleFactor = 2"

record lease_health =
  lh_holder :: string
  lh_renewed :: instant
  lh_max_age :: duration
  lh_stale :: bool

datatype lease_error = LeaseNotFound | LeaseErr string

definition controlPlaneLeaseHealth ::
  "cluster \<Rightarrow> string \<Rightarrow> string \<Rightarrow> instant \<Rightarrow> lease_error + lease_health" where
  "controlPlaneLeaseHealth c ns name now =
     (case cl_lease c ns name of
        Inl e \<Rightarrow> if ae_not_found e then Inl LeaseNotFound
                 else Inl (LeaseErr (''get lease '' @ ns @ ''/'' @ name @ '': '' @ ae_text e))
      | Inr l \<Rightarrow>
          let holder = (case ls_holder l of None \<Rightarrow> [] | Some h \<Rightarrow> h);
              dur = (case ls_duration l of None \<Rightarrow> 15 | Some d \<Rightarrow> if d > 0 then d else 15);
              maxAge = dur * leaseStaleFactor * Second;
              renewed = (case ls_renew l of Some t \<Rightarrow> t
                         | None \<Rightarrow> (case ls_acquire l of Some t \<Rightarrow> t | None \<Rightarrow> zero_time));
              h = \<lparr>lh_holder = holder, lh_renewed = renewed, lh_max_age = maxAge, lh_stale = False\<rparr>
          in if holder = [] then Inr (h\<lparr>lh_stale := True\<rparr>)
             else if renewed = zero_time \<or> time_sub now renewed > maxAge then Inr (h\<lparr>lh_stale := True\<rparr>)
             else Inr h)"

definition lease_check :: "string \<Rightarrow> string \<Rightarrow> cluster \<Rightarrow> finding list" where
  "lease_check ident name c =
     (let now = cl_now c in
      case controlPlaneLeaseHealth c ''kube-system'' name now of
        Inl LeaseNotFound \<Rightarrow> [mk_finding ident StatusSkipped []
           (name @ '' lease not found in kube-system (managed cluster?)'')]
      | Inl (LeaseErr e) \<Rightarrow> unknownFromErr ident ''lease'' e
      | Inr h \<Rightarrow>
          let ago = duration_string (duration_round (time_sub now (lh_renewed h)) Second) in
          if lh_holder h = [] then
            [mk_finding ident StatusCritical [] (name @ '' lease has no holder (no leader elected)'')]
          else if lh_stale h then
            [mk_finding ident StatusCritical [] (name @ '' lease stale: holder='' @ lh_holder h @
               '' renewed '' @ ago @ '' ago (max '' @ duration_string (lh_max_age h) @ '')'')]
          else [okFinding ident (name @ '' lease fresh (holder='' @ lh_holder h @ '', renewed '' @ ago @ '' ago)'')])"

definition controllerMgrHealthz_Run :: "cluster \<Rightarrow> finding list" where
  "controllerMgrHealthz_Run = lease_check ''controllerMgr.healthz'' ''kube-controller-manager''"

definition controllerMgrHealthz :: "cluster check" where
  "controllerMgrHealthz = mk_check ''controllerMgr.healthz''
     ''kube-controller-manager leader-election lease is fresh'' [CategoryControlPlane] None
     controllerMgrHealthz_Run"

definition schedulerHealthz_Run :: "cluster \<Rightarrow> finding list" where
  "schedulerHealthz_Run = lease_check ''scheduler.healthz'' ''kube-scheduler''"

definition schedulerHealthz :: "cluster check" where
  "schedulerHealthz = mk_check ''scheduler.healthz'' ''kube-scheduler leader-election lease is fresh''
     [CategoryControlPlane] None schedulerHealthz_Run"

subsection \<open>The API server\<close>

definition apiserverHealthz_Run :: "cluster \<Rightarrow> finding list" where
  "apiserverHealthz_Run c =
     (case cl_readyz c of
        None \<Rightarrow> [mk_finding ''apiserver.healthz'' StatusSkipped [] ''no REST client available (fake clientset)'']
      | Some (Inl e) \<Rightarrow> [detailed (mk_finding ''apiserver.healthz'' StatusCritical [] (''/readyz: '' @ ae_text e))
                           [(''endpoint'', ''/readyz'')]]
      | Some (Inr body) \<Rightarrow>
          if body \<noteq> ''ok'' then [mk_finding ''apiserver.healthz'' StatusWarning [] (''/readyz body: '' @ quote body)]
          else [okFinding ''apiserver.healthz'' ''API server /readyz=ok''])"

definition apiserverHealthz :: "cluster check" where
  "apiserverHealthz = mk_check ''apiserver.healthz'' ''API server /readyz returns ok''
     [CategoryControlPlane] None apiserverHealthz_Run"

definition certWarnWindow :: duration where "certWarnWindow = 30 * 24 * Hour"
definition certCritWindow :: duration where "certCritWindow = 7 * 24 * Hour"

text \<open>\<open>net.SplitHostPort\<close>, which \<open>hostPortHasPort\<close> uses as a test.\<close>

definition SplitHostPort :: "string \<Rightarrow> string + string \<times> string" where
  "SplitHostPort s =
     (let i = length s - 1 - length (takeWhile (\<lambda>c. c \<noteq> CHR '':'') (rev s));
          last_checks = (\<lambda>host j k.
            if CHR ''['' \<in> set (drop j s) then Inl ''unexpected '[' in address''
            else if CHR '']'' \<in> set (drop k s) then Inl ''unexpected ']' in address''
            else Inr (host, drop (i + 1) s))
      in if CHR '':'' \<notin> set s then Inl ''missing port in address''
         else if hd s = CHR ''['' then
           (if CHR '']'' \<notin> set s then Inl ''missing ']' in address''
            else let e = length (takeWhile (\<lambda>c. c \<noteq> CHR '']'') s) in
              if e + 1 = length s then Inl ''missing port in address''
              else if e + 1 = i then last_checks (take (e - 1) (drop 1 s)) 1 (e + 1)
              else if s ! (e + 1) = CHR '':'' then Inl ''too many colons in address''
              else Inl ''missing port in address'')
         else if CHR '':'' \<in> set (take i s) then Inl ''too many colons in address''
         else last_checks (take i s) 0 0)"

definition hostPortHasPort :: "string \<Rightarrow> bool" where
  "hostPortHasPort s = (case SplitHostPort s of Inl e \<Rightarrow> False | Inr hp \<Rightarrow> True)"

definition dialAddr :: "cluster \<Rightarrow> string \<Rightarrow> string + string" where
  "dialAddr c rawHost =
     (case cl_url_host c rawHost of
        Inl e \<Rightarrow> Inl (''parse host '' @ quote rawHost @ '': '' @ e)
      | Inr host \<Rightarrow>
          if host = [] then Inl (''apiserver host has no authority: '' @ quote rawHost)
          else if hostPortHasPort host then Inr host
          else Inr (host @ '':443''))"

text \<open>
  \<open>errors.As\<close> with a target of type \<open>*x509.CertificateInvalidError\<close>: the first pointer in the chain,
  read as whether its reason is \<open>Expired\<close>.
\<close>

fun as_invalid_pointer :: "err_cause list \<Rightarrow> bool option" where
  "as_invalid_pointer [] = None"
| "as_invalid_pointer (InvalidCertPointer expired # es) = Some expired"
| "as_invalid_pointer (e # es) = as_invalid_pointer es"

fun as_verification :: "err_cause list \<Rightarrow> err_cause list option" where
  "as_verification [] = None"
| "as_verification (VerificationError # es) = Some es"
| "as_verification (e # es) = as_verification es"

definition isCertExpiredErr :: "err_cause list \<Rightarrow> bool" where
  "isCertExpiredErr chain =
     (if as_invalid_pointer chain = Some True then True
      else case as_verification chain of
          None \<Rightarrow> False
        | Some inner \<Rightarrow> as_invalid_pointer inner = Some True)"

definition dialAndReadLeaf :: "cluster \<Rightarrow> string \<Rightarrow> string \<times> err_cause list + string \<times> instant" where
  "dialAndReadLeaf c addr =
     (case cl_dial c addr of
        Inl e \<Rightarrow> Inl e
      | Inr None \<Rightarrow> Inl (''not a TLS connection'', [OtherCause])
      | Inr (Some []) \<Rightarrow> Inl (''no peer certificates'', [OtherCause])
      | Inr (Some (leaf # rest)) \<Rightarrow> Inr leaf)"

definition certFinding :: "cluster \<Rightarrow> string \<Rightarrow> string \<Rightarrow> instant \<Rightarrow> finding" where
  "certFinding c host cn notAfter =
     (let until = time_sub notAfter (cl_now c);
          detail = [(''subject'', cn), (''notAfter'', rfc3339 0 notAfter),
                    (''daysLeft'', fmt_f1 (float_div (duration_in Hour until) 24))];
          f = (\<lambda>status msg. detailed (mk_finding ''apiserver.certExpiry'' status host msg) detail)
      in if until \<le> 0 then f StatusCritical ''API server TLS cert is expired''
         else if until < certCritWindow then
           f StatusCritical (''expires in '' @ duration_string (duration_round until Hour))
         else if until < certWarnWindow then
           f StatusWarning (''expires in '' @ duration_string (duration_round until Hour))
         else f StatusOK (''expires in '' @ duration_string (duration_round until (24 * Hour))))"

definition apiserverCertExpiry_Run :: "cluster \<Rightarrow> finding list" where
  "apiserverCertExpiry_Run c =
     (case cl_host c of
        None \<Rightarrow> [mk_finding ''apiserver.certExpiry'' StatusSkipped [] ''no rest.Config (fake clientset)'']
      | Some raw \<Rightarrow>
     (case dialAddr c raw of
        Inl e \<Rightarrow> [mk_finding ''apiserver.certExpiry'' StatusUnknown [] e]
      | Inr host \<Rightarrow>
     (case cl_tls_error c of
        Some (op, e) \<Rightarrow> unknownFromErr ''apiserver.certExpiry'' op e
      | None \<Rightarrow>
     (case dialAndReadLeaf c host of
        Inl (e, chain) \<Rightarrow>
          (if isCertExpiredErr chain then [mk_finding ''apiserver.certExpiry'' StatusCritical host
             ''API server TLS cert is already expired (handshake refused)'']
           else [mk_finding ''apiserver.certExpiry'' StatusUnknown [] (''TLS dial '' @ host @ '': '' @ e)])
      | Inr (cn, notAfter) \<Rightarrow> [certFinding c host cn notAfter]))))"

definition apiserverCertExpiry :: "cluster check" where
  "apiserverCertExpiry = mk_check ''apiserver.certExpiry'' ''API server TLS leaf cert expiry''
     [CategoryControlPlane] None apiserverCertExpiry_Run"

subsection \<open>RBAC (rbac_wildcards.go)\<close>

definition containsWildcard :: "string list \<Rightarrow> bool" where
  "containsWildcard xs = list_ex (\<lambda>x. x = ''*'') xs"

fun firstWildcardRule :: "policy_rule list \<Rightarrow> policy_rule option" where
  "firstWildcardRule [] = None"
| "firstWildcardRule (r # rs) =
     (if containsWildcard (pr_verbs r) \<and> containsWildcard (pr_resources r) then Some r
      else firstWildcardRule rs)"

definition rbacBuiltinPrefixes :: "string list" where
  "rbacBuiltinPrefixes = [''system:'', ''cluster-admin'']"

definition isBuiltinRBAC :: "string \<Rightarrow> bool" where
  "isBuiltinRBAC name = list_ex (\<lambda>p. has_prefix name p) rbacBuiltinPrefixes"

definition wildcard_flag :: "(role \<Rightarrow> string) \<Rightarrow> role \<Rightarrow> finding list" where
  "wildcard_flag res r =
     (if isBuiltinRBAC (rl_name r) then []
      else case firstWildcardRule (rl_rules r) of
        None \<Rightarrow> []
      | Some rule \<Rightarrow> [mk_finding ''rbac.wildcardVerbs'' StatusWarning (res r)
          (''wildcard rule: verbs='' @ fmt_strings (pr_verbs rule) @ '' resources='' @
           fmt_strings (pr_resources rule) @ '' apiGroups='' @ fmt_strings (pr_groups rule))])"

definition rbacWildcards_Run :: "cluster \<Rightarrow> finding list" where
  "rbacWildcards_Run c =
     or_ok ''rbac.wildcardVerbs'' ''no user RBAC with wildcard verbs+resources''
       ((case cl_cluster_roles c of
           Inl e \<Rightarrow> []
         | Inr crs \<Rightarrow> concat (map (wildcard_flag (\<lambda>r. ''clusterrole/'' @ rl_name r)) crs)) @
        (case cl_roles c (list_ns c) of
           Inl e \<Rightarrow> []
         | Inr rs \<Rightarrow> concat (map (wildcard_flag (\<lambda>r. resourceID ''role'' (rl_ns r) (rl_name r))) rs)))"

definition rbacWildcards :: "cluster check" where
  "rbacWildcards = mk_check ''rbac.wildcardVerbs''
     ''non-system Roles/ClusterRoles granting wildcard verbs+resources (broad blast radius)''
     [CategoryControlPlane] None rbacWildcards_Run"

subsection \<open>Admission webhooks (webhooks_timeout.go)\<close>

definition webhookMaxTimeoutSec :: int where "webhookMaxTimeoutSec = 10"

definition webhookFinding :: "string \<Rightarrow> string \<Rightarrow> int option \<Rightarrow> finding list" where
  "webhookFinding cfgName hookName timeout =
     (let res = ''webhook/'' @ cfgName @ ''/'' @ hookName in
      case timeout of
        None \<Rightarrow> [mk_finding ''webhooks.timeout'' StatusWarning res
          (''failurePolicy=Fail with no timeoutSeconds set (defaults to 30s, > '' @
           itoa webhookMaxTimeoutSec @ ''s budget)'')]
      | Some t \<Rightarrow>
          if t > webhookMaxTimeoutSec then
            [mk_finding ''webhooks.timeout'' StatusWarning res
               (''failurePolicy=Fail with timeoutSeconds='' @ itoa t @ '' (> '' @ itoa webhookMaxTimeoutSec @ ''s)'')]
          else [])"

definition classifyWebhook :: "string \<Rightarrow> webhook \<Rightarrow> finding list" where
  "classifyWebhook cfgName w =
     (if wh_failure_policy w \<noteq> Some ''Fail'' then []
      else webhookFinding cfgName (wh_name w) (wh_timeout w))"

definition config_flag :: "webhook_config \<Rightarrow> finding list" where
  "config_flag cfg = concat (map (classifyWebhook (wc_name cfg)) (wc_webhooks cfg))"

definition webhooks_of :: "api_error + webhook_config list \<Rightarrow> finding list" where
  "webhooks_of r =
     (case r of
        Inl e \<Rightarrow> []
      | Inr cfgs \<Rightarrow> concat (map config_flag cfgs))"

definition webhooksTimeout_Run :: "cluster \<Rightarrow> finding list" where
  "webhooksTimeout_Run c = or_ok ''webhooks.timeout'' ''no risky admission webhook timeouts''
     (webhooks_of (cl_validating c) @ webhooks_of (cl_mutating c))"

definition webhooksTimeout :: "cluster check" where
  "webhooksTimeout = mk_check ''webhooks.timeout''
     ''admission webhooks with failurePolicy=Fail and excessive or unset timeouts''
     [CategoryControlPlane] None webhooksTimeout_Run"

subsection \<open>The contract\<close>

interpretation rbac: item_scan "''rbac.wildcardVerbs''" "wildcard_flag res" for res
  by unfold_locales (auto simp: wildcard_flag_def split: option.splits if_splits)

interpretation hook: item_scan "''webhooks.timeout''" config_flag
  by unfold_locales
    (auto simp: config_flag_def classifyWebhook_def webhookFinding_def Let_def split: option.splits if_splits)

text \<open>Both checks ignore the error of a list call: a failed call counts as an empty list.\<close>

definition listed :: "api_error + 'x list \<Rightarrow> 'x list" where
  "listed r = (case r of Inl e \<Rightarrow> [] | Inr xs \<Rightarrow> xs)"

lemma rbac_listed:
  "rbacWildcards_Run c = or_ok ''rbac.wildcardVerbs'' ''no user RBAC with wildcard verbs+resources''
     (concat (map (wildcard_flag (\<lambda>r. ''clusterrole/'' @ rl_name r)) (listed (cl_cluster_roles c))) @
      concat (map (wildcard_flag (\<lambda>r. resourceID ''role'' (rl_ns r) (rl_name r))) (listed (cl_roles c (list_ns c)))))"
  by (simp add: rbacWildcards_Run_def listed_def split: sum.split)

lemma webhooks_listed:
  "webhooksTimeout_Run c = scan_check ''webhooks.timeout'' [] ''no risky admission webhook timeouts'' config_flag
     (Inr (listed (cl_validating c) @ listed (cl_mutating c)))"
  by (simp add: webhooksTimeout_Run_def webhooks_of_def listed_def scan_check_def split: sum.split)

lemma lease_wf: "wf_findings ident (lease_check ident name c)"
  by (auto simp: lease_check_def Let_def wf_unknown wf_single split: sum.split lease_error.split)

lemma cert_sound:
  "f_check (certFinding c h n t) = ''apiserver.certExpiry'' \<and>
   f_status (certFinding c h n t) \<in> {StatusOK, StatusWarning, StatusCritical}"
  by (simp add: certFinding_def Let_def)

lemma cert_wf: "wf_findings ''apiserver.certExpiry'' (apiserverCertExpiry_Run c)"
proof -
  have "wf_findings ''apiserver.certExpiry'' [certFinding c h n t]" for h n t
    using cert_sound [of c h n t] by (intro wf_single) auto
  then show ?thesis
    by (auto simp: apiserverCertExpiry_Run_def wf_unknown wf_single
        split: sum.split option.split prod.split)
qed

lemma rbac_wf: "wf_findings ''rbac.wildcardVerbs'' (rbacWildcards_Run c)"
  unfolding rbac_listed by (intro wf_or_ok) (auto dest!: rbac.flag_sound)

lemma control_plane_contract [check_contract]:
  "keeps_contract controllerMgrHealthz" "keeps_contract schedulerHealthz" "keeps_contract apiserverHealthz"
  "keeps_contract apiserverCertExpiry" "keeps_contract rbacWildcards" "keeps_contract webhooksTimeout"
  by (auto simp: keeps_contract_def controllerMgrHealthz_def controllerMgrHealthz_Run_def
      schedulerHealthz_def schedulerHealthz_Run_def lease_wf apiserverHealthz_def apiserverHealthz_Run_def
      wf_single apiserverCertExpiry_def cert_wf rbacWildcards_def rbac_wf webhooksTimeout_def
      webhooks_listed hook.scan_wf split: option.split sum.split)

lemma firstWildcardRule_None:
  "firstWildcardRule rs = None \<longleftrightarrow> (\<forall>r \<in> set rs. \<not> (''*'' \<in> set (pr_verbs r) \<and> ''*'' \<in> set (pr_resources r)))"
  by (induction rs) (auto simp: containsWildcard_def list_ex_iff)

definition broad :: "role \<Rightarrow> bool" where
  "broad r \<longleftrightarrow> (\<exists>rule \<in> set (rl_rules r). ''*'' \<in> set (pr_verbs rule) \<and> ''*'' \<in> set (pr_resources rule))"

lemma wildcard_flag_empty: "wildcard_flag res r = [] \<longleftrightarrow> isBuiltinRBAC (rl_name r) \<or> \<not> broad r"
  using firstWildcardRule_None [of "rl_rules r"] by (auto simp: wildcard_flag_def broad_def split: option.splits)

lemma classifyWebhook_empty:
  "classifyWebhook cfg w = [] \<longleftrightarrow>
     (wh_failure_policy w = Some ''Fail'' \<longrightarrow> (\<exists>t. wh_timeout w = Some t \<and> t \<le> 10))"
  by (simp add: classifyWebhook_def webhookFinding_def Let_def webhookMaxTimeoutSec_def split: option.split)

lemma config_flag_empty:
  "config_flag cfg = [] \<longleftrightarrow> (\<forall>w \<in> set (wc_webhooks cfg). wh_failure_policy w = Some ''Fail'' \<longrightarrow>
     (\<exists>t. wh_timeout w = Some t \<and> t \<le> 10))"
  by (simp add: config_flag_def classifyWebhook_empty)

lemma time_sub_le: "min_duration \<le> d \<Longrightarrow> d < max_duration \<Longrightarrow> time_sub t u > d \<longleftrightarrow> t - u > d"
  "min_duration < d \<Longrightarrow> d \<le> max_duration \<Longrightarrow> time_sub t u < d \<longleftrightarrow> t - u < d"
  by (auto simp: time_sub_def)

subsection \<open>Properties\<close>

text \<open>
  Leader election: with a lease at hand, \<open>kube-controller-manager\<close> and \<open>kube-scheduler\<close> are
  critical exactly when nobody holds the lease, when it was never renewed or acquired, or when
  the last renewal is more than twice the lease duration (15 s unless positive) ago; else OK. A
  missing lease is a SKIP.
\<close>

lemma lease_verdict:
  assumes "cl_lease c ''kube-system'' name = Inr l" and "\<forall>d. ls_duration l = Some d \<longrightarrow> d < 2 ^ 31"
    and "dur = (case ls_duration l of Some d \<Rightarrow> if d > 0 then d else 15 | None \<Rightarrow> 15)"
    and "seen = (case ls_renew l of Some t \<Rightarrow> t
                 | None \<Rightarrow> (case ls_acquire l of Some t \<Rightarrow> t | None \<Rightarrow> zero_time))"
  shows "statuses (lease_check ident name c) =
     {if ls_holder l \<in> {None, Some []} \<or> seen = zero_time \<or> cl_now c - seen > 2 * dur * Second
      then StatusCritical else StatusOK}"
proof -
  have "0 < dur" "dur < 2 ^ 31" using assms(2,3) by (auto split: option.splits)
  then have "time_sub (cl_now c) seen > dur * leaseStaleFactor * Second \<longleftrightarrow>
      cl_now c - seen > 2 * dur * Second"
    by (subst time_sub_le) (simp_all add: min_duration_def max_duration_def leaseStaleFactor_def Second_def)
  moreover have "(case ls_duration l of None \<Rightarrow> 15 | Some d \<Rightarrow> if d > 0 then d else 15) = dur"
    using assms(3) by (auto split: option.splits)
  ultimately show ?thesis
    using assms(1) unfolding lease_check_def controlPlaneLeaseHealth_def Let_def assms(4)
    by (auto split: option.split)
qed

lemma lease_verdict_example:
  "statuses (lease_check ''controllerMgr.healthz'' ''kube-controller-manager''
     (empty_cluster\<lparr>cl_now := 40 * Second, cl_lease := (\<lambda>_ _. Inr \<lparr>ls_holder = Some ''cp-1'',
        ls_duration = None, ls_renew = Some (9 * Second), ls_acquire = None\<rparr>)\<rparr>)) = {StatusCritical}"
  using lease_verdict [of "empty_cluster\<lparr>cl_now := 40 * Second, cl_lease := (\<lambda>_ _. Inr
        \<lparr>ls_holder = Some ''cp-1'', ls_duration = None, ls_renew = Some (9 * Second), ls_acquire = None\<rparr>)\<rparr>"
      "''kube-controller-manager''" "\<lparr>ls_holder = Some ''cp-1'', ls_duration = None,
        ls_renew = Some (9 * Second), ls_acquire = None\<rparr>" 15 "9 * Second" "''controllerMgr.healthz''"]
  by (simp add: Second_def)

text \<open>
  C31. What \<open>rbac.wildcardVerbs\<close> and \<open>webhooks.timeout\<close> call fine: no listed role outside the
  exempt names has a rule with \<open>*\<close> among its verbs and its resources; every listed webhook that
  fails closed has a timeout of at most 10 s. A list that could not be read counts as empty,
  and every name that merely starts with \<open>cluster-admin\<close> is exempt.
\<close>

theorem rbac_and_webhooks_verdict:
  "(StatusOK \<in> statuses (rbacWildcards_Run c) \<longleftrightarrow>
      (\<forall>r \<in> set (listed (cl_cluster_roles c)) \<union> set (listed (cl_roles c (list_ns c))).
         has_prefix (rl_name r) ''system:'' \<or> has_prefix (rl_name r) ''cluster-admin'' \<or> \<not> broad r)) \<and>
   (StatusOK \<in> statuses (webhooksTimeout_Run c) \<longleftrightarrow>
      (\<forall>cfg \<in> set (listed (cl_validating c)) \<union> set (listed (cl_mutating c)).
       \<forall>w \<in> set (wc_webhooks cfg). wh_failure_policy w = Some ''Fail'' \<longrightarrow>
         (\<exists>t. wh_timeout w = Some t \<and> t \<le> 10)))"
proof -
  have "StatusOK \<notin> statuses (concat (map (wildcard_flag res) xs) @ concat (map (wildcard_flag res') ys))"
    for res res' xs ys
    using rbac.flag_not_ok [of res xs] rbac.flag_not_ok [of res' ys] by auto
  then have r: "StatusOK \<in> statuses (rbacWildcards_Run c) \<longleftrightarrow>
      (\<forall>r \<in> set (listed (cl_cluster_roles c)) \<union> set (listed (cl_roles c (list_ns c))).
         isBuiltinRBAC (rl_name r) \<or> \<not> broad r)"
    unfolding rbac_listed by (subst ok_in_or_ok) (auto simp: wildcard_flag_empty)
  show ?thesis
    unfolding r webhooks_listed hook.scan_ok
    by (simp add: config_flag_empty isBuiltinRBAC_def rbacBuiltinPrefixes_def ball_Un)
qed

definition wild_role :: "string \<Rightarrow> role" where
  "wild_role name = \<lparr>rl_ns = ''dev'', rl_name = name, rl_rules =
     [\<lparr>pr_verbs = [''*''], pr_resources = [''*''], pr_groups = [''*'']\<rparr>]\<rparr>"

theorem rbac_and_webhooks_verdict_witness:
  "StatusOK \<in> statuses (rbacWildcards_Run
     (empty_cluster\<lparr>cl_roles := (\<lambda>_. Inr [wild_role ''cluster-admin-for-everyone'']),
        cl_cluster_roles := Inl \<lparr>ae_text = ''403'', ae_not_found = False, ae_unavailable = False,
          ae_forbidden = True, ae_no_match = False\<rparr>\<rparr>)) \<and>
   StatusOK \<notin> statuses (rbacWildcards_Run (empty_cluster\<lparr>cl_roles := (\<lambda>_. Inr [wild_role ''ops''])\<rparr>))"
  using rbac_and_webhooks_verdict [of "empty_cluster\<lparr>cl_roles := (\<lambda>_. Inr [wild_role ''cluster-admin-for-everyone'']),
        cl_cluster_roles := Inl \<lparr>ae_text = ''403'', ae_not_found = False, ae_unavailable = False,
          ae_forbidden = True, ae_no_match = False\<rparr>\<rparr>"]
    rbac_and_webhooks_verdict [of "empty_cluster\<lparr>cl_roles := (\<lambda>_. Inr [wild_role ''ops''])\<rparr>"]
  by (simp add: listed_def wild_role_def broad_def has_prefix_def)

text \<open>
  The certificate of the API server, once the TLS dial returned it: critical when it expires
  in less than 7 days (or has expired), a warning below 30 days, else OK.
\<close>

lemma cert_expiry_bands:
  assumes "cl_host c = Some raw" and "dialAddr c raw = Inr host" and "cl_tls_error c = None"
    and "dialAndReadLeaf c host = Inr (cn, notAfter)"
  shows "statuses (apiserverCertExpiry_Run c) =
     {if notAfter - cl_now c < 7 * 24 * Hour then StatusCritical
      else if notAfter - cl_now c < 30 * 24 * Hour then StatusWarning else StatusOK}"
proof -
  have "(time_sub t u < 7 * 24 * Hour) = (t - u < 7 * 24 * Hour)"
    "(time_sub t u < 30 * 24 * Hour) = (t - u < 30 * 24 * Hour)" for t u
    by (subst time_sub_le(2); simp add: Hour_def min_duration_def max_duration_def)+
  moreover have "time_sub t u \<le> 0 \<Longrightarrow> time_sub t u < 7 * 24 * Hour" for t u by (simp add: Hour_def)
  ultimately have "f_status (certFinding c host cn t) =
      (if t - cl_now c < 7 * 24 * Hour then StatusCritical
       else if t - cl_now c < 30 * 24 * Hour then StatusWarning else StatusOK)" for cn t
    by (auto simp: certFinding_def Let_def certWarnWindow_def certCritWindow_def)
  then show ?thesis
    using assms by (simp add: apiserverCertExpiry_Run_def)
qed

definition tls_cluster :: "string \<times> err_cause list + (string \<times> instant) list option \<Rightarrow> cluster" where
  "tls_cluster r = empty_cluster\<lparr>cl_host := Some ''api'', cl_dial := (\<lambda>_. r)\<rparr>"

lemma plain_host_port:
  assumes "set h \<inter> set '':[]'' = {}" and "h \<noteq> []"
  shows "\<not> hostPortHasPort h" and "SplitHostPort (h @ '':443'') = Inr (h, ''443'')"
proof -
  show "\<not> hostPortHasPort h" using assms by (auto simp: hostPortHasPort_def SplitHostPort_def Let_def)
  have "hd (h @ '':443'') \<noteq> CHR ''[''" using assms by (cases h) auto
  moreover have "CHR '':'' \<notin> set h" "CHR ''['' \<notin> set h" "CHR '']'' \<notin> set h" using assms by auto
  ultimately show "SplitHostPort (h @ '':443'') = Inr (h, ''443'')"
    by (simp add: SplitHostPort_def Let_def)
qed

lemma cert_expiry_bands_example:
  "statuses (apiserverCertExpiry_Run (tls_cluster (Inr (Some [(''kube'', 8 * 24 * Hour)])))) = {StatusWarning}"
proof -
  have "dialAddr (tls_cluster (Inr (Some [(''kube'', 8 * 24 * Hour)]))) ''api'' = Inr ''api:443''"
    using plain_host_port(1) [of "''api''"] by (simp add: dialAddr_def tls_cluster_def empty_cluster_def)
  from cert_expiry_bands [OF _ this, of "''kube''" "8 * 24 * Hour"] show ?thesis
    by (simp add: tls_cluster_def dialAndReadLeaf_def Hour_def empty_cluster_def)
qed

text \<open>
  C30. An API server whose certificate has expired is reported UNKNOWN, not CRIT: the handshake is
  refused with an \<open>x509.CertificateInvalidError\<close>, which \<open>crypto/x509\<close> returns by value, while
  \<open>isCertExpiredErr\<close> looks for a pointer to one. Whatever else is in the chain, without such a
  pointer the answer for an expired certificate is that of any failed dial.
\<close>

theorem expired_cert_is_unknown:
  assumes "cl_host c = Some raw" and "dialAddr c raw = Inr host" and "cl_tls_error c = None"
    and "cl_dial c host = Inl (e, chain)" and "InvalidCertValue True \<in> set chain"
    and "\<And>expired. InvalidCertPointer expired \<notin> set chain"
  shows "apiserverCertExpiry_Run c =
    [mk_finding ''apiserver.certExpiry'' StatusUnknown [] (''TLS dial '' @ host @ '': '' @ e)]"
proof -
  have none: "as_invalid_pointer ch = None" if "\<And>x. InvalidCertPointer x \<notin> set ch" for ch
    using that by (induction ch rule: as_invalid_pointer.induct) auto
  have "as_verification ch = Some inner \<Longrightarrow> set inner \<subseteq> set ch" for ch inner
    by (induction ch rule: as_verification.induct) auto
  then have "as_verification chain = Some inner \<Longrightarrow> as_invalid_pointer inner = None" for inner
    using none [of inner] assms(6) by blast
  then have "\<not> isCertExpiredErr chain"
    using none [OF assms(6)] by (simp add: isCertExpiredErr_def split: option.split)
  then show ?thesis using assms by (simp add: apiserverCertExpiry_Run_def dialAndReadLeaf_def)
qed

theorem expired_cert_is_unknown_witness:
  "statuses (apiserverCertExpiry_Run (tls_cluster (Inl (''x509: certificate has expired'',
     [OtherCause, VerificationError, InvalidCertValue True])))) = {StatusUnknown}"
proof -
  let ?c = "tls_cluster (Inl (''x509: certificate has expired'', [OtherCause, VerificationError, InvalidCertValue True]))"
  have "dialAddr ?c ''api'' = Inr ''api:443''"
    using plain_host_port(1) [of "''api''"] by (simp add: dialAddr_def tls_cluster_def empty_cluster_def)
  from expired_cert_is_unknown [OF _ this, of "''x509: certificate has expired''"
      "[OtherCause, VerificationError, InvalidCertValue True]"] show ?thesis
    by (simp add: tls_cluster_def empty_cluster_def)
qed

end
