(* ===== verification/OperatorChecks.thy ===== *)
theory OperatorChecks
  imports CheckBase
begin

section \<open>Aggregated APIs, operators and RKE2 (checks/apiservices_available.go, argocd_apps.go, ...)\<close>

text \<open>
  The checks that read custom resources through the dynamic client. A condition is a JSON
  object, read as a map from keys to values.
\<close>

subsection \<open>Unstructured objects (unstructured_helpers.go)\<close>

type_synonym json_object = "(string \<times> json) list"

fun json_objects :: "json list \<Rightarrow> json_object list" where
  "json_objects [] = []"
| "json_objects (JObj m # xs) = m # json_objects xs"
| "json_objects (x # xs) = json_objects xs"

definition unstructuredConditions :: "unstructured \<Rightarrow> string list \<Rightarrow> string + json_object list option" where
  "unstructuredConditions obj path =
     (case un_slice obj path of
        Inl e \<Rightarrow> Inl e
      | Inr None \<Rightarrow> Inr None
      | Inr (Some raw) \<Rightarrow> Inr (Some (json_objects raw)))"

text \<open>\<open>cond[key].(string)\<close> with the zero value on failure.\<close>

definition string_field :: "json_object \<Rightarrow> string \<Rightarrow> string" where
  "string_field m k = (case map_of m k of Some (JStr s) \<Rightarrow> s | _ \<Rightarrow> [])"

text \<open>
  \<open>%v\<close> of a decoded JSON value; an absent key is nil. A map is printed in the order
  of its keys, and a number that is not an integer by its text.
\<close>

fun fmt_json :: "json \<Rightarrow> string" where
  "fmt_json JNull = ''<nil>''"
| "fmt_json (JBool b) = (if b then ''true'' else ''false'')"
| "fmt_json (JInt i) = itoa i"
| "fmt_json (JNum t) = t"
| "fmt_json (JStr s) = s"
| "fmt_json (JArr xs) = ''['' @ join '' '' (map fmt_json xs) @ '']''"
| "fmt_json (JObj kvs) = ''map['' @ join '' ''
     (map (\<lambda>(k, t). k @ '':'' @ t) (sort_key fst (map (\<lambda>(k, v). (k, fmt_json v)) kvs))) @ '']''"

definition fmt_field :: "json_object \<Rightarrow> string \<Rightarrow> string" where
  "fmt_field m k = (case map_of m k of None \<Rightarrow> ''<nil>'' | Some v \<Rightarrow> fmt_json v)"

subsection \<open>apiservices.available\<close>

definition apiservice_cond :: "unstructured \<Rightarrow> json_object \<Rightarrow> finding list" where
  "apiservice_cond item cond =
     (if map_of cond ''type'' \<noteq> Some (JStr ''Available'') then []
      else if map_of cond ''status'' = Some (JStr ''True'') then []
      else [mk_finding ''apiservices.available'' StatusCritical (''apiservice/'' @ un_name item)
              (''Available='' @ fmt_field cond ''status'' @ '' reason='' @ string_field cond ''reason'' @ '': '' @
               string_field cond ''message'')])"

definition apiservice_flag :: "unstructured \<Rightarrow> finding list" where
  "apiservice_flag item =
     (case unstructuredConditions item [''status'', ''conditions''] of
        Inl e \<Rightarrow> []
      | Inr None \<Rightarrow> []
      | Inr (Some conds) \<Rightarrow> concat (map (apiservice_cond item) conds))"

definition apiservicesAvailable_Run :: "cluster \<Rightarrow> finding list" where
  "apiservicesAvailable_Run c =
     (case cl_dynamic c ''apiregistration.k8s.io'' ''v1'' ''apiservices'' of
        Inl e \<Rightarrow> unknownFromErr ''apiservices.available'' ''list apiservices'' (ae_text e)
      | Inr items \<Rightarrow>
          or_ok ''apiservices.available'' (''all '' @ itoa (int (length items)) @ '' APIServices Available'')
            (concat (map apiservice_flag items)))"

definition apiservicesAvailable :: "cluster check" where
  "apiservicesAvailable = mk_check ''apiservices.available'' ''aggregated APIServices report Available=True''
     [CategoryControlPlane] None apiservicesAvailable_Run"

subsection \<open>The common frame of the operator checks\<close>

text \<open>
  List the custom resource; SKIP if its kind is not served; OK if there is none; else the
  findings of the items or one OK.
\<close>

definition operator_list ::
  "string \<Rightarrow> string \<Rightarrow> string \<Rightarrow> api_error + unstructured list \<Rightarrow> finding list + unstructured list" where
  "operator_list ident absent op r =
     (case r of
        Inl e \<Rightarrow>
          if isCRDMissing (Some e) then Inl [mk_finding ident StatusSkipped [] absent]
          else Inl (unknownFromErr ident op (ae_text e))
      | Inr items \<Rightarrow> Inr items)"

definition operator_check ::
  "string \<Rightarrow> string \<Rightarrow> string \<Rightarrow> (unstructured \<Rightarrow> finding list) \<Rightarrow>
   finding list + unstructured list \<Rightarrow> finding list" where
  "operator_check ident none_msg what flag r =
     (case r of
        Inl skip \<Rightarrow> skip
      | Inr items \<Rightarrow>
          if items = [] then [okFinding ident none_msg]
          else or_ok ident (''all '' @ itoa (int (length items)) @ '' '' @ what) (concat (map flag items)))"

subsection \<open>argocd.apps.outOfSync and argocd.apps.unhealthy\<close>

definition listArgoApps :: "cluster \<Rightarrow> string \<Rightarrow> finding list + unstructured list" where
  "listArgoApps c ident = operator_list ident ''ArgoCD not installed (Application CRD absent)''
     ''list argocd apps'' (cl_dynamic c ''argoproj.io'' ''v1alpha1'' ''applications'')"

definition outOfSync_flag :: "unstructured \<Rightarrow> finding list" where
  "outOfSync_flag item =
     (let status = un_string item [''status'', ''sync'', ''status''] in
      if status = [] \<or> status = ''Synced'' then []
      else [mk_finding ''argocd.apps.outOfSync'' StatusWarning
              (resourceID ''application'' (un_ns item) (un_name item)) (''sync status='' @ status)])"

definition argocdAppsOutOfSync_Run :: "cluster \<Rightarrow> finding list" where
  "argocdAppsOutOfSync_Run c =
     operator_check ''argocd.apps.outOfSync'' ''no Applications defined'' ''ArgoCD Applications Synced''
       outOfSync_flag (listArgoApps c ''argocd.apps.outOfSync'')"

definition argocdAppsOutOfSync :: "cluster check" where
  "argocdAppsOutOfSync = mk_check ''argocd.apps.outOfSync'' ''ArgoCD Applications with sync status != Synced''
     [CategoryWorkload] None argocdAppsOutOfSync_Run"

definition unhealthy_flag :: "unstructured \<Rightarrow> finding list" where
  "unhealthy_flag item =
     (let status = un_string item [''status'', ''health'', ''status''] in
      if status = [] \<or> status = ''Healthy'' then []
      else [mk_finding ''argocd.apps.unhealthy''
              (if status = ''Degraded'' \<or> status = ''Missing'' then StatusCritical else StatusWarning)
              (resourceID ''application'' (un_ns item) (un_name item)) (''health status='' @ status)])"

definition argocdAppsUnhealthy_Run :: "cluster \<Rightarrow> finding list" where
  "argocdAppsUnhealthy_Run c =
     operator_check ''argocd.apps.unhealthy'' ''no Applications defined'' ''ArgoCD Applications Healthy''
       unhealthy_flag (listArgoApps c ''argocd.apps.unhealthy'')"

definition argocdAppsUnhealthy :: "cluster check" where
  "argocdAppsUnhealthy = mk_check ''argocd.apps.unhealthy'' ''ArgoCD Applications with health status != Healthy''
     [CategoryWorkload] None argocdAppsUnhealthy_Run"

subsection \<open>certmanager.certificates.notReady\<close>

text \<open>The loop over the conditions: ready, reason and message of the Ready conditions.\<close>

fun ready_loop :: "json_object list \<Rightarrow> bool \<times> string \<times> string \<Rightarrow> bool \<times> string \<times> string" where
  "ready_loop [] acc = acc"
| "ready_loop (cond # conds) (ready, reason, msg) =
     (if map_of cond ''type'' \<noteq> Some (JStr ''Ready'') then ready_loop conds (ready, reason, msg)
      else ready_loop conds
        (if map_of cond ''status'' = Some (JStr ''True'') then True else ready,
         string_field cond ''reason'', string_field cond ''message''))"

definition certificate_flag :: "unstructured \<Rightarrow> finding list" where
  "certificate_flag item =
     (let bad = (\<lambda>status msg. [mk_finding ''certmanager.certificates.notReady'' status
                  (resourceID ''certificate'' (un_ns item) (un_name item)) msg]) in
      case unstructuredConditions item [''status'', ''conditions''] of
        Inl e \<Rightarrow> bad StatusWarning ''no status.conditions yet''
      | Inr None \<Rightarrow> bad StatusWarning ''no status.conditions yet''
      | Inr (Some conds) \<Rightarrow>
          (let (ready, reason, msg) = ready_loop conds (False, [], []) in
           if \<not> ready then bad StatusCritical (''Ready=False reason='' @ reason @ '': '' @ msg) else []))"

definition certmanagerCertificatesNotReady_Run :: "cluster \<Rightarrow> finding list" where
  "certmanagerCertificatesNotReady_Run c =
     operator_check ''certmanager.certificates.notReady'' ''no Certificates defined'' ''Certificates Ready''
       certificate_flag
       (operator_list ''certmanager.certificates.notReady'' ''cert-manager not installed (Certificates CRD absent)''
          ''list certificates'' (cl_dynamic c ''cert-manager.io'' ''v1'' ''certificates''))"

definition certmanagerCertificatesNotReady :: "cluster check" where
  "certmanagerCertificatesNotReady = mk_check ''certmanager.certificates.notReady''
     ''cert-manager Certificate CRs report Ready=True'' [CategoryControlPlane] None
     certmanagerCertificatesNotReady_Run"

subsection \<open>longhorn.volumes.degraded\<close>

definition longhorn_flag :: "unstructured \<Rightarrow> finding list" where
  "longhorn_flag item =
     (let robustness = un_string item [''status'', ''robustness''];
          state = un_string item [''status'', ''state''];
          bad = (\<lambda>status msg. [mk_finding ''longhorn.volumes.degraded'' status
                  (resourceID ''volume'' (un_ns item) (un_name item)) msg])
      in if robustness = ''healthy'' \<or> robustness = [] then []
         else if robustness = ''degraded'' then bad StatusWarning (''robustness=degraded state='' @ state)
         else if robustness = ''faulted'' \<or> robustness = ''unknown'' then
           bad StatusCritical (''robustness='' @ robustness @ '' state='' @ state)
         else [])"

definition longhornVolumesDegraded_Run :: "cluster \<Rightarrow> finding list" where
  "longhornVolumesDegraded_Run c =
     operator_check ''longhorn.volumes.degraded'' ''no Longhorn Volumes defined'' ''Longhorn Volumes healthy''
       longhorn_flag
       (operator_list ''longhorn.volumes.degraded'' ''Longhorn not installed (Volume CRD absent)''
          ''list longhorn volumes'' (cl_dynamic c ''longhorn.io'' ''v1beta2'' ''volumes''))"

definition longhornVolumesDegraded :: "cluster check" where
  "longhornVolumesDegraded = mk_check ''longhorn.volumes.degraded''
     ''Longhorn Volume CRs report robustness=healthy'' [CategoryStorage] None longhornVolumesDegraded_Run"

subsection \<open>RKE2 (rke2_helminstall_jobs.go, rke2_snapshots_recent.go)\<close>

definition rke2HelmInstallStaleAfter :: duration where "rke2HelmInstallStaleAfter = 30 * Minute"

definition classifyHelmInstallJob :: "instant \<Rightarrow> job \<Rightarrow> finding" where
  "classifyHelmInstallJob now j =
     (let res = resourceID ''job'' (job_ns j) (job_name j);
          f = (\<lambda>status msg. mk_finding ''rke2.helmInstallJobs'' status res msg);
          age = time_sub now (job_created j);
          age_text = duration_string (duration_round age Second)
      in if job_failed j > 0 \<and> job_succeeded j = 0 then
           f StatusCritical (itoa (job_failed j) @ '' failed pod(s), 0 succeeded'')
         else if job_succeeded j > 0 then f StatusOK ''helm-install completed''
         else if age > rke2HelmInstallStaleAfter then
           f StatusCritical (''not completed after '' @ age_text @ '' (active='' @ itoa (job_active j) @ '')'')
         else f StatusWarning (''in progress (age='' @ age_text @ '', active='' @ itoa (job_active j) @ '')''))"

definition rke2HelmInstallJobs_Run :: "cluster \<Rightarrow> finding list" where
  "rke2HelmInstallJobs_Run c =
     (case cl_jobs c ''kube-system'' ''helmcharts.helm.cattle.io/chart'' of
        Inl e \<Rightarrow> unknownFromErr ''rke2.helmInstallJobs'' ''list helm-install jobs'' (ae_text e)
      | Inr jobs \<Rightarrow>
          if jobs = [] then [mk_finding ''rke2.helmInstallJobs'' StatusSkipped []
            ''no helm-install Jobs labelled helmcharts.helm.cattle.io/chart in kube-system'']
          else map (classifyHelmInstallJob (cl_now c)) jobs)"

definition rke2HelmInstallJobs :: "cluster check" where
  "rke2HelmInstallJobs = mk_check ''rke2.helmInstallJobs'' ''RKE2 helm-install Jobs in kube-system have completed''
     [CategoryControlPlane] (Some [DistroRKE2]) rke2HelmInstallJobs_Run"

definition snapshotWarnAfter :: duration where "snapshotWarnAfter = 24 * Hour"
definition snapshotCritAfter :: duration where "snapshotCritAfter = 7 * 24 * Hour"

fun newest_loop :: "unstructured list \<Rightarrow> instant \<Rightarrow> instant" where
  "newest_loop [] newest = newest"
| "newest_loop (item # items) newest =
     newest_loop items (if un_created item > newest then un_created item else newest)"

definition rke2SnapshotsRecent_Run :: "cluster \<Rightarrow> finding list" where
  "rke2SnapshotsRecent_Run c =
     (case cl_dynamic c ''k3s.cattle.io'' ''v1'' ''etcdsnapshotfiles'' of
        Inl e \<Rightarrow> [mk_finding ''rke2.snapshots.recent'' StatusSkipped []
                    (''etcdsnapshotfiles CR not available: '' @ ae_text e)]
      | Inr items \<Rightarrow>
          if items = [] then [mk_finding ''rke2.snapshots.recent'' StatusCritical []
            ''no ETCDSnapshotFile resources found (snapshots not running?)'']
          else
            let newest = newest_loop items zero_time;
                age = duration_round (time_sub (cl_now c) newest) Minute;
                text = duration_string age
            in if age \<ge> snapshotCritAfter then
                 [mk_finding ''rke2.snapshots.recent'' StatusCritical [] (''newest snapshot is '' @ text @ '' old'')]
               else if age \<ge> snapshotWarnAfter then
                 [mk_finding ''rke2.snapshots.recent'' StatusWarning []
                    (''newest snapshot is '' @ text @ '' old (>24h)'')]
               else [okFinding ''rke2.snapshots.recent''
                 (itoa (int (length items)) @ '' snapshots; newest '' @ text @ '' old'')])"

definition rke2SnapshotsRecent :: "cluster check" where
  "rke2SnapshotsRecent = mk_check ''rke2.snapshots.recent'' ''RKE2 etcd snapshot taken within the last 24h''
     [CategoryControlPlane] (Some [DistroRKE2]) rke2SnapshotsRecent_Run"

subsection \<open>The contract\<close>

interpretation apis: item_scan "''apiservices.available''" apiservice_flag
  by unfold_locales
    (auto simp: apiservice_flag_def apiservice_cond_def split: sum.splits option.splits if_splits)

interpretation argos: item_scan "''argocd.apps.outOfSync''" outOfSync_flag
  by unfold_locales (auto simp: outOfSync_flag_def Let_def split: if_splits)

interpretation argou: item_scan "''argocd.apps.unhealthy''" unhealthy_flag
  by unfold_locales (auto simp: unhealthy_flag_def Let_def split: if_splits)

interpretation certm: item_scan "''certmanager.certificates.notReady''" certificate_flag
  by unfold_locales
    (auto simp: certificate_flag_def Let_def split: sum.splits option.splits if_splits prod.splits)

interpretation longh: item_scan "''longhorn.volumes.degraded''" longhorn_flag
  by unfold_locales (auto simp: longhorn_flag_def Let_def split: if_splits)

lemma apiservices_scan:
  "apiservicesAvailable_Run c =
     (case cl_dynamic c ''apiregistration.k8s.io'' ''v1'' ''apiservices'' of
        Inl e \<Rightarrow> unknownFromErr ''apiservices.available'' ''list apiservices'' (ae_text e)
      | Inr items \<Rightarrow> scan_check ''apiservices.available'' ''list apiservices''
          (''all '' @ itoa (int (length items)) @ '' APIServices Available'') apiservice_flag (Inr items))"
  by (simp add: apiservicesAvailable_Run_def scan_check_def split: sum.split)

text \<open>An operator check, by what the list call returned.\<close>

lemma operator_check_cases:
  "operator_check ident none_msg what flag (operator_list ident absent op r) =
     (case r of
        Inl e \<Rightarrow> (if ae_not_found e \<or> ae_no_match e then [mk_finding ident StatusSkipped [] absent]
                  else unknownFromErr ident op (ae_text e))
      | Inr items \<Rightarrow> scan_check ident op
          (if items = [] then none_msg else ''all '' @ itoa (int (length items)) @ '' '' @ what) flag (Inr items))"
  by (simp add: operator_check_def operator_list_def isCRDMissing_def scan_check_def split: sum.split)

lemmas operator_runs = argocdAppsOutOfSync_Run_def argocdAppsUnhealthy_Run_def listArgoApps_def
  certmanagerCertificatesNotReady_Run_def longhornVolumesDegraded_Run_def operator_check_cases

lemma classifyHelm_sound:
  "f_check (classifyHelmInstallJob now j) = ''rke2.helmInstallJobs'' \<and>
   f_status (classifyHelmInstallJob now j) \<in> {StatusOK, StatusWarning, StatusCritical}"
  by (simp add: classifyHelmInstallJob_def Let_def)

lemma operator_checks_contract [check_contract]:
  "keeps_contract apiservicesAvailable" "keeps_contract argocdAppsOutOfSync"
  "keeps_contract argocdAppsUnhealthy" "keeps_contract certmanagerCertificatesNotReady"
  "keeps_contract longhornVolumesDegraded" "keeps_contract rke2SnapshotsRecent"
  by (auto simp: keeps_contract_def apiservicesAvailable_def apiservices_scan apis.scan_wf wf_unknown wf_single
      argocdAppsOutOfSync_def argos.scan_wf argocdAppsUnhealthy_def argou.scan_wf
      certmanagerCertificatesNotReady_def certm.scan_wf longhornVolumesDegraded_def longh.scan_wf
      rke2SnapshotsRecent_def rke2SnapshotsRecent_Run_def operator_runs Let_def split: sum.split)

lemma helm_contract [check_contract]: "keeps_contract rke2HelmInstallJobs"
proof -
  have "wf_findings ''rke2.helmInstallJobs'' (map (classifyHelmInstallJob now) js)" if "js \<noteq> []" for now js
    using that classifyHelm_sound by (fastforce simp: wf_findings_def)
  then show ?thesis
    by (auto simp: keeps_contract_def rke2HelmInstallJobs_def rke2HelmInstallJobs_Run_def wf_unknown
        wf_single split: sum.split)
qed

subsection \<open>Properties\<close>

text \<open>
  Operators that are not installed are skipped, not reported as unknown: on any error of the
  list call each of the four operator checks gives SKIP exactly when the kind is not served, and
  UNKNOWN otherwise.
\<close>

lemma operator_absent_is_skip:
  assumes "\<forall>g v r. cl_dynamic c g v r = Inl e"
  shows "\<forall>run \<in> {argocdAppsOutOfSync_Run, argocdAppsUnhealthy_Run, certmanagerCertificatesNotReady_Run,
           longhornVolumesDegraded_Run}.
         statuses (run c) = {if ae_not_found e \<or> ae_no_match e then StatusSkipped else StatusUnknown}"
  using assms by (simp add: operator_runs)

lemma operator_absent_is_skip_example:
  "statuses (longhornVolumesDegraded_Run (empty_cluster\<lparr>cl_dynamic := (\<lambda>_ _ _. Inl
     \<lparr>ae_text = ''404'', ae_not_found = True, ae_unavailable = False, ae_forbidden = False,
      ae_no_match = False\<rparr>)\<rparr>)) = {StatusSkipped}"
  using operator_absent_is_skip [of "empty_cluster\<lparr>cl_dynamic := (\<lambda>_ _ _. Inl
     \<lparr>ae_text = ''404'', ae_not_found = True, ae_unavailable = False, ae_forbidden = False,
      ae_no_match = False\<rparr>)\<rparr>"]
  by simp

lemma newest_loop_Max: "newest_loop items z = Max (insert z (un_created ` set items))"
proof (induction items arbitrary: z)
  case (Cons i items)
  then show ?case
    by (cases "items = []") (auto simp: max_def insert_commute [of z] Max_insert)
qed simp

lemma round_minute_ge:
  assumes "0 \<le> d" and "d < 2 ^ 62" and "0 \<le> k"
  shows "duration_round d Minute \<ge> k * Minute \<longleftrightarrow> d \<ge> k * Minute - 30 * Second"
proof -
  define q r where "q = d div Minute" and "r = d mod Minute"
  then have m: "d = Minute * q + r" "0 \<le> r" "r < Minute"
    by (simp_all add: Minute_def)
  have d: "duration_round d Minute =
      (if 2 * r < Minute then d - r
       else if d + Minute - r \<le> max_duration then d + Minute - r else max_duration)"
    using assms(1) by (simp add: duration_round_def Let_def Minute_def r_def)
  have "d + Minute - r \<le> max_duration"
    using assms(2) m(2) by (simp add: Minute_def max_duration_def)
  then have "duration_round d Minute = (if 2 * r < Minute then Minute * q else Minute * (q + 1))"
    unfolding d using m(1) by (simp add: algebra_simps)
  moreover have "k \<le> q \<or> k = q + 1 \<or> q + 2 \<le> k" by linarith
  ultimately show ?thesis using m by (auto simp: Minute_def Second_def)
qed

text \<open>
  C33. The age bands of \<open>rke2.snapshots.recent\<close>: what counts is the newest snapshot (or Go's
  zero time, if that is later), and because the age is rounded to minutes before it is compared,
  the warning starts 30 seconds before 24 hours and the critical band 30 seconds before 7 days.
\<close>

theorem snapshot_age_bands:
  assumes "cl_dynamic c ''k3s.cattle.io'' ''v1'' ''etcdsnapshotfiles'' = Inr items" and "items \<noteq> []"
    and "age = cl_now c - Max (insert zero_time (un_created ` set items))" and "0 \<le> age" and "age < 2 ^ 62"
  shows "statuses (rke2SnapshotsRecent_Run c) =
     {if age \<ge> 7 * 24 * Hour - 30 * Second then StatusCritical
      else if age \<ge> 24 * Hour - 30 * Second then StatusWarning else StatusOK}"
proof -
  have "cl_now c - newest_loop items zero_time = age" using assms(3) by (simp add: newest_loop_Max)
  then have "time_sub (cl_now c) (newest_loop items zero_time) = age"
    using assms(4,5) by (simp add: time_sub_def max_duration_def min_duration_def)
  moreover have "snapshotCritAfter = 10080 * Minute" "snapshotWarnAfter = 1440 * Minute"
    by (simp_all add: snapshotCritAfter_def snapshotWarnAfter_def Hour_def Minute_def)
  moreover have "7 * 24 * Hour = 10080 * Minute" "24 * Hour = 1440 * Minute"
    by (simp_all add: Hour_def Minute_def)
  ultimately show ?thesis
    using assms(1,2) round_minute_ge [OF assms(4,5), of 10080] round_minute_ge [OF assms(4,5), of 1440]
    by (simp add: rke2SnapshotsRecent_Run_def Let_def)
qed

definition demo_snapshot :: "instant \<Rightarrow> unstructured" where
  "demo_snapshot t = \<lparr>un_ns = [], un_name = ''snap'', un_created = t, un_string = (\<lambda>_. []),
     un_slice = (\<lambda>_. Inr None)\<rparr>"

theorem snapshot_age_bands_witness:
  "statuses (rke2SnapshotsRecent_Run (empty_cluster\<lparr>cl_now := 24 * Hour - 20 * Second,
     cl_dynamic := (\<lambda>_ _ _. Inr [demo_snapshot (- Hour), demo_snapshot 0])\<rparr>)) = {StatusWarning}"
proof -
  let ?c = "empty_cluster\<lparr>cl_now := 24 * Hour - 20 * Second,
     cl_dynamic := (\<lambda>_ _ _. Inr [demo_snapshot (- Hour), demo_snapshot 0])\<rparr>"
  have "statuses (rke2SnapshotsRecent_Run ?c) =
     {if 24 * Hour - 20 * Second \<ge> 7 * 24 * Hour - 30 * Second then StatusCritical
      else if 24 * Hour - 20 * Second \<ge> 24 * Hour - 30 * Second then StatusWarning else StatusOK}"
    by (rule snapshot_age_bands [where items = "[demo_snapshot (- Hour), demo_snapshot 0]"])
      (simp_all add: demo_snapshot_def Hour_def Second_def zero_time_def)
  then show ?thesis by (simp add: Hour_def Second_def)
qed

end
