(* ===== verification/EtcdChecks.thy ===== *)
theory EtcdChecks
  imports NodeChecks
begin

section \<open>The etcd checks (checks/etcd_checks.go)\<close>

text \<open>
  Four checks over one status of etcd. \<open>collectEtcdFor\<close> passes the flags of the command line on
  and gives \<open>Etcd.Collect\<close> all three Kubernetes modes, over the clients \<open>cl_etcd\<close>. Each check
  collects for itself.
\<close>

subsection \<open>The checks\<close>

definition etcd_options_for :: "etcd_flags \<Rightarrow> etcd_options" where
  "etcd_options_for f = \<lparr>eo_mode = ef_mode f, eo_endpoints = ef_endpoints f, eo_ca = ef_ca f,
     eo_cert = ef_cert f, eo_key = ef_key f, eo_quota = ef_quota f, eo_dial_timeout = 0,
     eo_job_image = ef_job_image f, eo_job_namespace = []\<rparr>"

definition etcd_reachers :: "etcd_clients \<Rightarrow> reachers" where
  "etcd_reachers ec = \<lparr>re_direct = ec_direct ec,
     re_job = Some (\<lambda>opts. fst (InClusterJob (ec_job ec) opts)),
     re_api = Some (ViaAPIServer (ec_api ec)),
     re_pod = Some (PodExec (ec_pod ec))\<rparr>"

text \<open>
  The checks look at the error first and then at the status; \<open>collect_configured\<close> shows that
  there is one: neither \<open>the\<close> is ever applied to \<open>None\<close>.
\<close>

definition error_first :: "etcd_result \<Rightarrow> etcd_error + etcd_status" where
  "error_first r = (case snd r of Some e \<Rightarrow> Inl e | None \<Rightarrow> Inr (the (fst r)))"

definition collectEtcdFor :: "cluster \<Rightarrow> etcd_error + etcd_status" where
  "collectEtcdFor c =
     error_first (the (Collect (etcd_reachers (cl_etcd c)) (etcd_options_for (ke_etcd (cl_env c)))))"

definition etcd_error_findings :: "string \<Rightarrow> etcd_error \<Rightarrow> finding list" where
  "etcd_error_findings ident e =
     (case e of
        Unavailable s \<Rightarrow> [mk_finding ident StatusSkipped [] s]
      | OtherErr s \<Rightarrow> unknownFromErr ident ''collect etcd'' s)"

definition formatAlarms :: "alarm list \<Rightarrow> string" where
  "formatAlarms alarms =
     (case alarms of
        [] \<Rightarrow> []
      | a # as \<Rightarrow> foldl (\<lambda>out b. out @ '','' @ al_type b) (al_type a) as)"

definition etcdHealth_Run :: "cluster \<Rightarrow> finding list" where
  "etcdHealth_Run c =
     (case collectEtcdFor c of
        Inl e \<Rightarrow> etcd_error_findings ''etcd.health'' e
      | Inr st \<Rightarrow>
          let f = (\<lambda>status msg. [detailed (mk_finding ''etcd.health'' status [] msg) [(''mode'', es_mode st)]]) in
          if \<not> es_reachable st then f StatusCritical ''etcd not reachable''
          else if \<not> es_has_leader st then f StatusCritical ''etcd has no leader''
          else if es_alarms st \<noteq> [] then
            f StatusCritical (''etcd has '' @ itoa (int (length (es_alarms st))) @ '' active alarm(s): '' @
              formatAlarms (es_alarms st))
          else f StatusOK (''etcd reachable, has leader, no alarms (mode='' @ es_mode st @ '')''))"

definition etcdHealth :: "cluster check" where
  "etcdHealth = mk_check ''etcd.health'' ''etcd reachable, has leader, and no active alarms''
     [CategoryControlPlane] None etcdHealth_Run"

text \<open>
  A percentage whose divisor may be zero: \<open>float64\<close> division gives an infinity then (the
  dividend is not zero where the code divides).
\<close>

datatype pct = PosInf | NegInf | Pct rat

definition quota_pct :: "int \<Rightarrow> int \<Rightarrow> pct" where
  "quota_pct sz quota =
     (if quota = 0 then if sz > 0 then PosInf else NegInf else Pct (percent sz quota))"

fun pct_at_least :: "rat \<Rightarrow> pct \<Rightarrow> bool" where
  "pct_at_least t PosInf = True"
| "pct_at_least t NegInf = False"
| "pct_at_least t (Pct x) = (x \<ge> t)"

fun pct_text :: "pct \<Rightarrow> string" where
  "pct_text PosInf = ''+Inf''"
| "pct_text NegInf = ''-Inf''"
| "pct_text (Pct x) = fmt_f1 x"

definition etcdSize_Run :: "cluster \<Rightarrow> finding list" where
  "etcdSize_Run c =
     (case collectEtcdFor c of
        Inl e \<Rightarrow> etcd_error_findings ''etcd.size'' e
      | Inr st \<Rightarrow>
          if es_size st = 0 then
            [mk_finding ''etcd.size'' StatusSkipped [] (''etcd size unavailable in mode='' @ es_mode st)]
          else
            let pct = quota_pct (es_size st) (es_quota st);
                detail = [(''mode'', es_mode st), (''sizeBytes'', itoa (es_size st)),
                          (''quotaBytes'', itoa (es_quota st)), (''pctOfQuota'', pct_text pct)];
                msg = ''etcd db '' @ pct_text pct @ ''% of quota ('' @ humanBytes (es_size st) @ '' / '' @
                      humanBytes (es_quota st) @ '')'';
                f = (\<lambda>status. [detailed (mk_finding ''etcd.size'' status [] msg) detail])
            in if pct_at_least 90 pct then f StatusCritical
               else if pct_at_least 75 pct then f StatusWarning
               else f StatusOK)"

definition etcdSize :: "cluster check" where
  "etcdSize = mk_check ''etcd.size'' ''etcd backend DB size vs configured quota''
     [CategoryControlPlane] None etcdSize_Run"

definition defragWarnPct :: rat where "defragWarnPct = 25"
definition defragCritPct :: rat where "defragCritPct = 50"

definition etcdDefrag_Run :: "cluster \<Rightarrow> finding list" where
  "etcdDefrag_Run c =
     (case collectEtcdFor c of
        Inl e \<Rightarrow> etcd_error_findings ''etcd.defrag'' e
      | Inr st \<Rightarrow>
          if es_size st = 0 \<or> es_in_use st = 0 then
            [mk_finding ''etcd.defrag'' StatusSkipped [] (''etcd size data unavailable in mode='' @ es_mode st)]
          else
            let frag = percent (wrap64 (es_size st - es_in_use st)) (es_size st);
                detail = [(''mode'', es_mode st), (''sizeBytes'', itoa (es_size st)),
                          (''sizeInUseBytes'', itoa (es_in_use st)), (''fragPct'', fmt_f1 frag)];
                f = (\<lambda>status msg. [detailed (mk_finding ''etcd.defrag'' status [] msg) detail])
            in if frag \<ge> defragCritPct then
                 f StatusCritical (''etcd '' @ fmt_f1 frag @ ''% fragmented (consider `etcdctl defrag`)'')
               else if frag \<ge> defragWarnPct then
                 f StatusWarning (''etcd '' @ fmt_f1 frag @ ''% fragmented'')
               else f StatusOK (''etcd fragmentation '' @ fmt_f1 frag @ ''%''))"

definition etcdDefrag :: "cluster check" where
  "etcdDefrag = mk_check ''etcd.defrag'' ''etcd fragmentation ratio (db-size vs in-use)''
     [CategoryControlPlane] None etcdDefrag_Run"

fun count_members :: "member_status list \<Rightarrow> int \<Rightarrow> string list \<Rightarrow> int \<times> string list" where
  "count_members [] reachable unreachable = (reachable, unreachable)"
| "count_members (m # ms) reachable unreachable =
     (if ms_reachable m then count_members ms (reachable + 1) unreachable
      else count_members ms reachable (unreachable @ [ms_endpoint m]))"

definition etcdMembers_Run :: "cluster \<Rightarrow> finding list" where
  "etcdMembers_Run c =
     (case collectEtcdFor c of
        Inl e \<Rightarrow> etcd_error_findings ''etcd.members'' e
      | Inr st \<Rightarrow>
          if es_members st = [] then
            [mk_finding ''etcd.members'' StatusSkipped [] (''etcd member data unavailable in mode='' @ es_mode st)]
          else
            let (reachable, unreachable) = count_members (es_members st) 0 [];
                total = int (length (es_members st));
                detail = [(''mode'', es_mode st), (''members'', itoa total), (''reachable'', itoa reachable)];
                f = (\<lambda>status msg. [detailed (mk_finding ''etcd.members'' status [] msg) detail])
            in if reachable = 0 then f StatusCritical (''0/'' @ itoa total @ '' etcd members reachable'')
               else if reachable < total then
                 f StatusWarning (itoa reachable @ ''/'' @ itoa total @ '' members reachable; unreachable: '' @
                   fmt_strings unreachable)
               else if total < 3 then
                 f StatusWarning (itoa total @ '' etcd member(s) '' @ [CHR 0xE2, CHR 0x80, CHR 0x94] @
                   '' HA needs 3 or more'')
               else f StatusOK (itoa total @ '' etcd members, all reachable''))"

definition etcdMembers :: "cluster check" where
  "etcdMembers = mk_check ''etcd.members'' ''etcd member count and per-member reachability''
     [CategoryControlPlane] None etcdMembers_Run"

subsection \<open>The contract\<close>

lemma etcd_error_wf [check_contract]: "wf_findings ident (etcd_error_findings ident e)"
  by (cases e) (simp_all add: etcd_error_findings_def wf_unknown wf_single)

lemma statuses_etcd_error:
  "statuses (etcd_error_findings ident (Unavailable s)) = {StatusSkipped}"
  "statuses (etcd_error_findings ident (OtherErr s)) = {StatusUnknown}"
  by (simp_all add: etcd_error_findings_def)

lemma etcd_checks_contract [check_contract]:
  "keeps_contract etcdHealth" "keeps_contract etcdSize" "keeps_contract etcdDefrag"
  "keeps_contract etcdMembers"
  by (auto simp: keeps_contract_def etcdHealth_def etcdHealth_Run_def etcdSize_def etcdSize_Run_def
      etcdDefrag_def etcdDefrag_Run_def etcdMembers_def etcdMembers_Run_def Let_def etcd_error_wf
      wf_single split: sum.split prod.split)

lemma count_members_eq:
  "count_members ms r u =
     (r + int (length (filter ms_reachable ms)), u @ map ms_endpoint (filter (\<lambda>m. \<not> ms_reachable m) ms))"
  by (induction ms arbitrary: r u) simp_all

lemma reachable_all:
  "length (filter P xs) < length xs \<longleftrightarrow> (\<exists>x \<in> set xs. \<not> P x)"
  by (induction xs) (auto simp: less_Suc_eq_le intro: length_filter_le)

lemma etcdSize_status:
  assumes "collectEtcdFor c = Inr st" and "0 < es_size st" and "es_size st \<le> 2 ^ 53"
    and "0 < es_quota st" and "es_quota st \<le> 2 ^ 44"
  shows "statuses (etcdSize_Run c) =
     {if 90 * es_quota st \<le> 100 * es_size st then StatusCritical
      else if 75 * es_quota st \<le> 100 * es_size st then StatusWarning else StatusOK}"
proof -
  have "(90 \<le> percent (es_size st) (es_quota st)) = (90 * es_quota st \<le> 100 * es_size st)"
    "(75 \<le> percent (es_size st) (es_quota st)) = (75 * es_quota st \<le> 100 * es_size st)"
    using percent_threshold [of "es_size st" "es_quota st" 90] percent_threshold [of "es_size st" "es_quota st" 75]
      assms by simp_all
  then show ?thesis using assms(1,2,4) by (simp add: etcdSize_Run_def Let_def quota_pct_def)
qed

lemma etcdDefrag_status:
  assumes "collectEtcdFor c = Inr st" and "0 < es_in_use st" and "es_in_use st \<le> es_size st"
    and "es_size st \<le> 2 ^ 44"
  shows "statuses (etcdDefrag_Run c) =
     {if 50 * es_size st \<le> 100 * (es_size st - es_in_use st) then StatusCritical
      else if 25 * es_size st \<le> 100 * (es_size st - es_in_use st) then StatusWarning else StatusOK}"
proof -
  let ?a = "es_size st - es_in_use st"
  have "wrap64 ?a = ?a" using assms by (intro wrap64_id) simp_all
  moreover have "(50 \<le> percent ?a (es_size st)) = (50 * es_size st \<le> 100 * ?a)"
    "(25 \<le> percent ?a (es_size st)) = (25 * es_size st \<le> 100 * ?a)"
    using percent_threshold [of ?a "es_size st" 50] percent_threshold [of ?a "es_size st" 25]
      assms by simp_all
  ultimately show ?thesis
    using assms(1-3) by (simp add: etcdDefrag_Run_def Let_def defragWarnPct_def defragCritPct_def)
qed

subsection \<open>No mode returns neither a status nor an error\<close>

definition has_answer :: "etcd_result \<Rightarrow> bool" where
  "has_answer r \<longleftrightarrow> fst r \<noteq> None \<or> snd r \<noteq> None"

lemma mode_answers:
  "has_answer (collectDirect w opts)" "has_answer (PodExec p opts)"
  "has_answer (ViaAPIServer a opts)" "has_answer (fst (InClusterJob j opts))"
  by (auto simp: has_answer_def collectDirect_def PodExec_def ViaAPIServer_def InClusterJob_def read_probe_def
      Let_def split: option.split sum.split list.split prod.split)

lemma attempt_answers: "has_answer r \<Longrightarrow> has_answer n \<Longrightarrow> has_answer (attempt r n)"
  by (auto simp: attempt_usable)

lemma auto_answers: "has_answer (collectAuto (etcd_reachers ec) opts)"
  by (simp add: collectAuto_def etcd_reachers_def Let_def attempt_answers mode_answers)

definition with_defaults :: "etcd_options \<Rightarrow> etcd_options" where
  "with_defaults opts = opts\<lparr>eo_quota := if eo_quota opts = 0 then 8 * 1024 * 1024 * 1024 else eo_quota opts,
     eo_dial_timeout := if eo_dial_timeout opts = 0 then 10 * Second else eo_dial_timeout opts\<rparr>"

lemma Collect_modes:
  "Collect (etcd_reachers ec) opts = Some
     (if eo_mode opts = EtcdDirect then collectDirect (ec_direct ec) (with_defaults opts)
      else if eo_mode opts = EtcdInClusterJob then fst (InClusterJob (ec_job ec) (with_defaults opts))
      else if eo_mode opts = EtcdViaAPIServer then ViaAPIServer (ec_api ec) (with_defaults opts)
      else if eo_mode opts = EtcdPodExec then PodExec (ec_pod ec) (with_defaults opts)
      else if eo_mode opts = EtcdAuto \<or> eo_mode opts = [] then collectAuto (etcd_reachers ec) (with_defaults opts)
      else (None, Some (OtherErr (''etcd: unknown mode '' @ eo_mode opts))))"
proof -
  have d: "(if eo_dial_timeout o1 = 0 then o1\<lparr>eo_dial_timeout := 10 * Second\<rparr> else o1) = with_defaults opts"
    if "o1 = (if eo_quota opts = 0 then opts\<lparr>eo_quota := 8 * 1024 * 1024 * 1024\<rparr> else opts)" for o1
    unfolding that with_defaults_def by (cases opts) simp
  have m: "eo_mode (with_defaults opts) = eo_mode opts" by (simp add: with_defaults_def)
  show ?thesis
    unfolding Collect_def Let_def d [OF refl] call_reacher_def m by (simp add: etcd_reachers_def)
qed

lemma collect_for:
  "collectEtcdFor c = error_first
     (the (Collect (etcd_reachers (cl_etcd c)) (etcd_options_for (ke_etcd (cl_env c)))))"
  "eo_mode (etcd_options_for f) = ef_mode f"
  by (simp_all add: collectEtcdFor_def etcd_options_for_def)

lemma collect_configured:
  obtains r where "Collect (etcd_reachers ec) opts = Some r" and "has_answer r"
proof -
  have "has_answer (None, Some e)" for e by (simp add: has_answer_def)
  then show ?thesis using that unfolding Collect_modes by (simp add: mode_answers auto_answers)
qed

lemma attempt_fails: "snd r \<noteq> None \<Longrightarrow> snd n \<noteq> None \<Longrightarrow> snd (attempt r n) \<noteq> None"
  by (auto simp: attempt_usable)

text \<open>Without the API server only direct mode is left, chosen or as the first rung of auto mode.\<close>

lemma dead_modes:
  assumes "dead_cluster c"
  shows "snd (PodExec (ec_pod (cl_etcd c)) opts) \<noteq> None" "snd (ViaAPIServer (ec_api (cl_etcd c)) opts) \<noteq> None"
    "snd (fst (InClusterJob (ec_job (cl_etcd c)) opts)) \<noteq> None"
  using dead_etcd_calls [OF assms]
  by (auto simp: PodExec_def ViaAPIServer_def InClusterJob_def Let_def isl_def split: option.split)

lemma dead_auto:
  assumes "dead_cluster c" and "snd (collectAuto (etcd_reachers (cl_etcd c)) opts) = None"
  shows "collectAuto (etcd_reachers (cl_etcd c)) opts = collectDirect (ec_direct (cl_etcd c)) opts"
proof -
  have rest: "snd (attempt (PodExec (ec_pod (cl_etcd c)) opts)
      (attempt (fst (InClusterJob (ec_job (cl_etcd c)) opts)) (ViaAPIServer (ec_api (cl_etcd c)) opts))) \<noteq> None"
    by (intro attempt_fails dead_modes [OF assms(1)])
  have "attempt r n = r" if "snd n \<noteq> None" "snd (attempt r n) = None" for r n
    using that by (cases r; cases "snd r") (auto simp: attempt_def split: etcd_error.splits)
  from this [OF rest] rest assms(2) show ?thesis
    by (simp add: collectAuto_def etcd_reachers_def Let_def split: if_splits)
qed

lemma collect_dead:
  assumes "dead_cluster c" and "collectEtcdFor c = Inr st"
  shows "ef_mode (ke_etcd (cl_env c)) \<in> {EtcdDirect, EtcdAuto, []} \<and>
    collectDirect (ec_direct (cl_etcd c)) (with_defaults (etcd_options_for (ke_etcd (cl_env c)))) = (Some st, None)"
proof -
  let ?f = "ke_etcd (cl_env c)" and ?opts = "with_defaults (etcd_options_for (ke_etcd (cl_env c)))"
  define r where "r = the (Collect (etcd_reachers (cl_etcd c)) (etcd_options_for ?f))"
  have ok: "snd r = None" "the (fst r) = st"
    using assms(2) by (simp_all add: collect_for(1) r_def error_first_def split: option.splits)
  have direct: "ef_mode ?f \<in> {EtcdDirect, EtcdAuto, []} \<and>
      snd (collectDirect (ec_direct (cl_etcd c)) ?opts) = None \<and> r = collectDirect (ec_direct (cl_etcd c)) ?opts"
    using ok(1) dead_modes [OF assms(1), of ?opts] dead_auto [OF assms(1), of ?opts]
    unfolding r_def Collect_modes collect_for(2) option.sel
    by (auto simp: etcd_modes split: if_splits simp del: not_None_eq)
  obtain st' where "fst r = Some st'"
    using mode_answers(1) [of "ec_direct (cl_etcd c)" ?opts] direct ok(1) by (auto simp: has_answer_def)
  then have "fst r = Some st" using ok(2) by simp
  with direct ok(1) show ?thesis by (simp add: prod_eq_iff)
qed

subsection \<open>Properties\<close>

text \<open>
  C23. The verdict bands of the four checks on a collected status, sizes up to 16 TiB: health is
  critical unless etcd is reachable with a leader and no alarm; size is critical from 90% of the
  quota and a warning from 75%; fragmentation from 50% and 25%; members are critical when none
  answers, fine only when all of at least three do, a warning between. The bounds belong to the
  worse band: exactly 25% of fragmentation is a warning already and exactly 50% is critical, where
  the comment of the code and the documentation put them above these values.
\<close>

theorem etcd_check_bands:
  assumes "collectEtcdFor c = Inr st"
    and "0 < es_in_use st" and "es_in_use st \<le> es_size st" and "es_size st \<le> 2 ^ 44"
    and "0 < es_quota st" and "es_quota st \<le> 2 ^ 44" and "es_members st \<noteq> []"
  shows "statuses (etcdHealth_Run c) =
           {if es_reachable st \<and> es_has_leader st \<and> es_alarms st = [] then StatusOK else StatusCritical} \<and>
         statuses (etcdSize_Run c) =
           {if 90 * es_quota st \<le> 100 * es_size st then StatusCritical
            else if 75 * es_quota st \<le> 100 * es_size st then StatusWarning else StatusOK} \<and>
         statuses (etcdDefrag_Run c) =
           {if 50 * es_size st \<le> 100 * (es_size st - es_in_use st) then StatusCritical
            else if 25 * es_size st \<le> 100 * (es_size st - es_in_use st) then StatusWarning else StatusOK} \<and>
         statuses (etcdMembers_Run c) =
           {if \<forall>m \<in> set (es_members st). \<not> ms_reachable m then StatusCritical
            else if (\<exists>m \<in> set (es_members st). \<not> ms_reachable m) \<or> length (es_members st) < 3 then StatusWarning
            else StatusOK}"
proof (intro conjI)
  show "statuses (etcdHealth_Run c) =
      {if es_reachable st \<and> es_has_leader st \<and> es_alarms st = [] then StatusOK else StatusCritical}"
    using assms(1) by (simp add: etcdHealth_Run_def Let_def)
  show "statuses (etcdMembers_Run c) =
      {if \<forall>m \<in> set (es_members st). \<not> ms_reachable m then StatusCritical
       else if (\<exists>m \<in> set (es_members st). \<not> ms_reachable m) \<or> length (es_members st) < 3 then StatusWarning
       else StatusOK}"
    using assms(1,7) reachable_all [of ms_reachable "es_members st"]
    by (auto simp: etcdMembers_Run_def Let_def count_members_eq filter_empty_conv)
qed (rule etcdSize_status etcdDefrag_status; use assms in simp)+

definition direct_flags :: "string list \<Rightarrow> int \<Rightarrow> etcd_flags" where
  "direct_flags eps quota = \<lparr>ef_mode = EtcdDirect, ef_endpoints = eps, ef_ca = [], ef_cert = [],
     ef_key = [], ef_job_image = [], ef_quota = quota\<rparr>"

definition direct_cluster :: "direct_world \<Rightarrow> string list \<Rightarrow> int \<Rightarrow> cluster" where
  "direct_cluster w eps q = empty_cluster\<lparr>cl_env := (cl_env empty_cluster)\<lparr>ke_etcd := direct_flags eps q\<rparr>,
     cl_etcd := (cl_etcd empty_cluster)\<lparr>ec_direct := w\<rparr>\<rparr>"

lemma direct_cluster_parts [simp]: "ke_etcd (cl_env (direct_cluster w eps q)) = direct_flags eps q"
    "ec_direct (cl_etcd (direct_cluster w eps q)) = w"
  by (simp_all add: direct_cluster_def)

definition demo_status :: etcd_status where
  "demo_status = (new_status EtcdDirect 5 5000)\<lparr>es_reachable := True, es_has_leader := True,
     es_size := 4000, es_in_use := 1000,
     es_members := [(new_member ''a'')\<lparr>ms_reachable := True, ms_size := 4000, ms_in_use := 1000, ms_leader := 7\<rparr>,
       (new_member ''b'')\<lparr>ms_errors := [''timeout'']\<rparr>]\<rparr>"

lemma collect_demo: "collectEtcdFor (direct_cluster demo_direct [''a'', ''b''] 5000) = Inr demo_status"
  by (simp add: collectEtcdFor_def error_first_def etcd_options_for_def direct_flags_def Collect_def Let_def
      etcd_reachers_def collectDirect_def buildTLS_def)
    (simp add: demo_direct_def demo_status_def add_reachable_def add_member_def new_status_def new_member_def
      wrap64_def)

theorem etcd_check_bands_witness:
  "statuses (etcdHealth_Run (direct_cluster demo_direct [''a'', ''b''] 5000)) = {StatusOK} \<and>
   statuses (etcdSize_Run (direct_cluster demo_direct [''a'', ''b''] 5000)) = {StatusWarning} \<and>
   statuses (etcdDefrag_Run (direct_cluster demo_direct [''a'', ''b''] 5000)) = {StatusCritical} \<and>
   statuses (etcdMembers_Run (direct_cluster demo_direct [''a'', ''b''] 5000)) = {StatusWarning}"
  using etcd_check_bands [OF collect_demo]
  by (simp add: demo_status_def new_status_def new_member_def)

definition effective_quota :: "int \<Rightarrow> int" where
  "effective_quota q = (if q = 0 then 8 * 1024 * 1024 * 1024 else q)"

lemma effective_defaults:
  "eo_quota (with_defaults (etcd_options_for f)) = effective_quota (ef_quota f)"
  "eo_endpoints (with_defaults (etcd_options_for f)) = ef_endpoints f"
  "buildTLS w (with_defaults opts) = buildTLS w opts"
  by (simp_all add: with_defaults_def etcd_options_for_def effective_quota_def buildTLS_def)

lemma collect_direct_mode:
  assumes "ef_mode (ke_etcd (cl_env c)) = EtcdDirect"
  shows "collectEtcdFor c =
    error_first (collectDirect (ec_direct (cl_etcd c)) (with_defaults (etcd_options_for (ke_etcd (cl_env c)))))"
  unfolding collect_for(1) Collect_modes collect_for(2) assms by simp

lemma direct_member_up: "ms_reachable (direct_member w ep) \<longleftrightarrow> (\<exists>s. dw_status w ep = Inr s)"
  by (simp add: direct_member_def new_member_def split: sum.split)

text \<open>The errors of direct mode: only settings of TLS that cannot be used are not \<open>ErrUnavailable\<close>.\<close>

lemma collectDirect_error:
  assumes "snd (collectDirect w opts) = Some e"
  shows "(\<exists>s. e = Unavailable s) \<longleftrightarrow> eo_endpoints opts = [] \<or> buildTLS w opts = None"
  using assms
  by (auto simp: collectDirect_def unavailable_def Let_def split: if_splits option.splits)

text \<open>
  C25. In direct mode an etcd of which no member answers is not an alarm: whether the client cannot
  be made, the member list cannot be read or every member fails, all four checks report SKIP, and
  UNKNOWN only when the TLS settings cannot be used. The CRIT branch \<open>etcd not reachable\<close> is never
  taken in this mode.
\<close>

theorem etcd_outage_is_skipped:
  assumes "ke_etcd (cl_env c) = f" and "ef_mode f = EtcdDirect" and "ec_direct (cl_etcd c) = w"
    and "\<forall>ep \<in> set (ef_endpoints f). \<exists>e. dw_status w ep = Inl e"
  shows "\<forall>run \<in> {etcdHealth_Run, etcdSize_Run, etcdDefrag_Run, etcdMembers_Run}.
           statuses (run c) =
             {if ef_endpoints f \<noteq> [] \<and> buildTLS w (etcd_options_for f) \<noteq> None then StatusUnknown
              else StatusSkipped}"
proof -
  define opts where "opts = with_defaults (etcd_options_for f)"
  have col: "collectEtcdFor c = error_first (collectDirect w opts)"
    using collect_direct_mode [of c] assms(1-3) by (simp add: opts_def)
  obtain e where e: "snd (collectDirect w opts) = Some e"
  proof (cases "collectDirect w opts")
    case (Pair st err)
    have down: "\<not> ms_reachable m" if "m \<in> set (map (direct_member w) (ef_endpoints f))" for m
      using that assms(4) by (auto simp: direct_member_up)
    have "err \<noteq> None"
    proof (cases st)
      case None
      then show ?thesis using Pair mode_answers(1) [of w opts] by (simp add: has_answer_def)
    next
      case (Some st')
      then show ?thesis
        using collectDirect_status [of w opts st' err] Pair down
        by (auto simp: opts_def effective_defaults aggregated_def)
    qed
    with Pair that show ?thesis by auto
  qed
  from collectDirect_error [OF e] have "(\<exists>s. e = Unavailable s) \<longleftrightarrow>
      ef_endpoints f = [] \<or> buildTLS w (etcd_options_for f) = None"
    by (simp add: opts_def effective_defaults)
  moreover have "collectEtcdFor c = Inl e" using col e by (simp add: error_first_def)
  ultimately show ?thesis
    by (cases e) (auto simp: etcdHealth_Run_def etcdSize_Run_def etcdDefrag_Run_def etcdMembers_Run_def
        statuses_etcd_error)
qed

theorem etcd_outage_is_skipped_witness:
  "statuses (etcdHealth_Run (direct_cluster (demo_direct\<lparr>dw_member_list := Some ''refused''\<rparr>) [''b''] 0)) = {StatusSkipped}"
  using etcd_outage_is_skipped [of "direct_cluster (demo_direct\<lparr>dw_member_list := Some ''refused''\<rparr>) [''b''] 0"]
  by (simp add: demo_direct_def direct_flags_def buildTLS_def etcd_options_for_def)

text \<open>The size a member contributes: none when its status cannot be read.\<close>

definition answered_size :: "direct_world \<Rightarrow> string \<Rightarrow> int" where
  "answered_size w ep = (case dw_status w ep of Inl e \<Rightarrow> 0 | Inr m \<Rightarrow> ms_size m)"

lemma direct_member_size: "ms_size (direct_member w ep) = answered_size w ep"
  by (simp add: direct_member_def answered_size_def new_member_def split: sum.split)

text \<open>
  C24. \<open>etcd.size\<close> compares the sum over the members with the quota of one: in direct mode the
  bands of 75% and 90% are taken of the sizes of all members that answered, added up, against the
  quota that each member has for itself, so that three members at 30% of their own quota each are
  reported as critical.
\<close>

theorem etcd_size_sums_members:
  assumes "ke_etcd (cl_env c) = f" and "ef_mode f = EtcdDirect" and "ec_direct (cl_etcd c) = w"
    and "collectEtcdFor c = Inr st"
    and "S = (\<Sum>ep \<leftarrow> ef_endpoints f. answered_size w ep)" and "0 < S" and "S \<le> 2 ^ 53"
    and "q = effective_quota (ef_quota f)" and "0 < q" and "q \<le> 2 ^ 44"
  shows "statuses (etcdSize_Run c) =
     {if 90 * q \<le> 100 * S then StatusCritical else if 75 * q \<le> 100 * S then StatusWarning else StatusOK}"
proof -
  define opts where "opts = with_defaults (etcd_options_for f)"
  have "error_first (collectDirect w opts) = Inr st"
    using collect_direct_mode [of c] assms(1-4) by (simp add: opts_def)
  then obtain st' where r: "collectDirect w opts = (Some st', None)" "st = st'"
    using mode_answers(1) [of w opts]
    by (cases "collectDirect w opts") (auto simp: error_first_def has_answer_def split: option.splits)
  have "es_size st = wrap64 S" "es_quota st = q"
    using collectDirect_status [OF r(1)] r(2) assms(5,8)
    by (simp_all add: opts_def effective_defaults aggregated_def direct_member_size o_def)
  moreover have "wrap64 S = S" using assms(6,7) by (intro wrap64_id) simp_all
  ultimately show ?thesis using etcdSize_status [OF assms(4)] assms(6,7,9,10) by simp
qed

definition three_sizes :: direct_world where
  "three_sizes = demo_direct\<lparr>dw_status := (\<lambda>ep. if ep = ''b'' then Inl ''timeout'' else
     Inr ((new_member [])\<lparr>ms_size := if ep = ''a'' then 3000 else 5000, ms_in_use := 1000, ms_leader := 7\<rparr>))\<rparr>"

lemma collect_three: "\<exists>st. collectEtcdFor (direct_cluster three_sizes [''a'', ''b'', ''c''] 10000) = Inr st"
  by (simp add: collectEtcdFor_def error_first_def etcd_options_for_def direct_flags_def Collect_def Let_def
      etcd_reachers_def collectDirect_def buildTLS_def)
    (simp add: three_sizes_def demo_direct_def add_reachable_def add_member_def new_status_def new_member_def)

theorem etcd_size_sums_members_witness:
  "statuses (etcdSize_Run (direct_cluster three_sizes [''a'', ''b'', ''c''] 10000)) = {StatusWarning}"
proof -
  obtain st where "collectEtcdFor (direct_cluster three_sizes [''a'', ''b'', ''c''] 10000) = Inr st"
    using collect_three by blast
  moreover have "(\<Sum>ep \<leftarrow> [''a'', ''b'', ''c'']. answered_size three_sizes ep) = 8000"
    by (simp add: answered_size_def three_sizes_def demo_direct_def new_member_def)
  ultimately show ?thesis
    using etcd_size_sums_members [OF refl _ refl _ refl _ _ refl, of "direct_cluster three_sizes [''a'', ''b'', ''c''] 10000"]
    by (simp add: direct_flags_def effective_quota_def)
qed

text \<open>
  C26. In pod-exec mode an active alarm is not reported: \<open>etcdctl\<close> prints the type of an alarm as
  a number, the reply does not decode, and with a member that answers and names a leader
  \<open>etcd.health\<close> is OK and says that there are no alarms.
\<close>

theorem alarms_do_not_alert:
  assumes "ef_mode (ke_etcd (cl_env c)) = EtcdPodExec" and "ec_pod (cl_etcd c) = w"
    and "pw_config w" and "pw_pods w = Inr pods" and "pod \<in> set pods"
    and "podStatus w pod = Inr (cert, m)" and "ms_leader m \<noteq> 0" and "prints_alarm_numbers w"
  shows "\<exists>f. etcdHealth_Run c = [f] \<and> f_status f = StatusOK \<and>
     f_message f = ''etcd reachable, has leader, no alarms (mode=pod-exec)''"
proof -
  define opts where "opts = with_defaults (etcd_options_for (ke_etcd (cl_env c)))"
  have col: "collectEtcdFor c = error_first (PodExec w opts)"
    unfolding collect_for(1) Collect_modes collect_for(2) assms(1,2) opts_def by (simp add: etcd_modes)
  have mem: "pod_member w pod = m" using assms(6) by (simp add: pod_member_def)
  have up: "ms_reachable m" using podStatus_up [OF assms(6)] by simp
  have "fst (PodExec w opts) \<noteq> None"
    using assms(3-5) by (cases pods) (auto simp: PodExec_def Let_def simp del: pods_loop.simps)
  then obtain st err where r: "PodExec w opts = (Some st, err)" by (cases "PodExec w opts") auto
  have mode: "es_mode st = EtcdPodExec"
    using PodExec_mode [OF r] .
  from PodExec_status [OF r] assms(4)
  have st: "aggregated st" "es_members st = map (pod_member w) pods" "err = None \<longleftrightarrow> es_reachable st"
    by (metis sum.inject(2))+
  then have "es_reachable st" "es_has_leader st"
    using assms(5,7) up mem by (auto simp: aggregated_def)
  then show ?thesis
    using r col st(3) mode numeric_alarms_lost [OF r assms(8)]
    by (simp add: etcdHealth_Run_def error_first_def Let_def etcd_modes)
qed

definition pod_cluster :: "pod_world \<Rightarrow> cluster" where
  "pod_cluster w = empty_cluster\<lparr>cl_env := (cl_env empty_cluster)\<lparr>ke_etcd := no_etcd_flags\<lparr>ef_mode := EtcdPodExec\<rparr>\<rparr>,
     cl_etcd := (cl_etcd empty_cluster)\<lparr>ec_pod := w\<rparr>\<rparr>"

theorem alarms_do_not_alert_witness: "statuses (etcdHealth_Run (pod_cluster alarmed_pods)) = {StatusOK}"
proof -
  obtain cert m where p: "podStatus alarmed_pods ''etcd-a'' = Inr (cert, m)" "ms_leader m = 7"
    using alarmed_pod_status by blast
  have "\<exists>f. etcdHealth_Run (pod_cluster alarmed_pods) = [f] \<and> f_status f = StatusOK \<and>
      f_message f = ''etcd reachable, has leader, no alarms (mode=pod-exec)''"
    by (rule alarms_do_not_alert [where pods = "[''etcd-a'']", OF _ _ _ _ _ p(1) _ alarmed_pods_print])
      (simp_all add: pod_cluster_def p(2), simp_all add: alarmed_pods_def)
  then show ?thesis by auto
qed

end
