(* ===== verification/AllChecks.thy ===== *)
theory AllChecks
  imports PodChecks NodeChecks WorkloadChecks StorageChecks ControlPlaneChecks OperatorChecks EtcdChecks
begin

section \<open>The default registry\<close>

text \<open>
  The checks that the \<open>init\<close> functions of \<open>internal/checks\<close> register, in the order of the files,
  and what holds of all of them together: distinct ids, the contract, and what they report when
  the API server refuses every request.
\<close>

definition default_checks :: "cluster check list" where
  "default_checks =
    [apiserverCertExpiry, apiserverHealthz, apiservicesAvailable, argocdAppsOutOfSync,
     argocdAppsUnhealthy, certmanagerCertificatesNotReady, controllerMgrHealthz,
     controlPlaneEndpoints, corednsReplicas, daemonsetsRollout, deploymentsRollout, etcdHealth,
     etcdSize, etcdDefrag, etcdMembers, eventsWarnings, hpasMissingTarget,
     ingressesDanglingService, ingressesMissingClass, kubeletHealthz, longhornVolumesDegraded,
     namespacesTerminating, nodesDisk, nodesPressure, nodesReady, nodesCPU, nodesMemory,
     nodesUnschedulable, nodesVersionSkew, pdbsCoverage, pdbsMisconfigured, podsBackoff,
     podsMissingRefs, podsNotReady, podsOOMKilled, podsPending, podsRestarts, pvcLostBoundPV,
     pvReleasedNotReclaimed, volumeAttachmentsFailed, pvcPending, rbacWildcards,
     rke2HelmInstallJobs, rke2SnapshotsRecent, schedulerHealthz, servicesNoBackends,
     servicesNoEndpoints, statefulsetsRollout, storageclassDefault, webhooksTimeout]"

lemmas check_defs =
  apiserverCertExpiry_def apiserverHealthz_def apiservicesAvailable_def argocdAppsOutOfSync_def
  argocdAppsUnhealthy_def certmanagerCertificatesNotReady_def controllerMgrHealthz_def
  controlPlaneEndpoints_def corednsReplicas_def daemonsetsRollout_def deploymentsRollout_def
  etcdHealth_def etcdSize_def etcdDefrag_def etcdMembers_def eventsWarnings_def
  hpasMissingTarget_def ingressesDanglingService_def ingressesMissingClass_def
  kubeletHealthz_def longhornVolumesDegraded_def namespacesTerminating_def nodesDisk_def
  nodesPressure_def nodesReady_def nodesCPU_def nodesMemory_def nodesUnschedulable_def
  nodesVersionSkew_def pdbsCoverage_def pdbsMisconfigured_def podsBackoff_def
  podsMissingRefs_def podsNotReady_def podsOOMKilled_def podsPending_def podsRestarts_def
  pvcLostBoundPV_def pvReleasedNotReclaimed_def volumeAttachmentsFailed_def pvcPending_def
  rbacWildcards_def rke2HelmInstallJobs_def rke2SnapshotsRecent_def schedulerHealthz_def
  servicesNoBackends_def servicesNoEndpoints_def statefulsetsRollout_def storageclassDefault_def
  webhooksTimeout_def

lemmas run_defs =
  apiserverCertExpiry_Run_def apiserverHealthz_Run_def apiservicesAvailable_Run_def
  argocdAppsOutOfSync_Run_def argocdAppsUnhealthy_Run_def
  certmanagerCertificatesNotReady_Run_def controllerMgrHealthz_Run_def
  controlPlaneEndpoints_Run_def corednsReplicas_Run_def daemonsetsRollout_Run_def
  deploymentsRollout_Run_def etcdHealth_Run_def etcdSize_Run_def etcdDefrag_Run_def
  etcdMembers_Run_def eventsWarnings_Run_def hpasMissingTarget_Run_def
  ingressesDanglingService_Run_def ingressesMissingClass_Run_def kubeletHealthz_Run_def
  longhornVolumesDegraded_Run_def namespacesTerminating_Run_def nodesDisk_Run_def
  nodesPressure_Run_def nodesReady_Run_def nodesCPU_Run_def nodesMemory_Run_def
  nodesUnschedulable_Run_def nodesVersionSkew_Run_def pdbsCoverage_Run_def
  pdbsMisconfigured_Run_def podsBackoff_Run_def podsMissingRefs_Run_def podsNotReady_Run_def
  podsOOMKilled_Run_def podsPending_Run_def podsRestarts_Run_def pvcLostBoundPV_Run_def
  pvReleasedNotReclaimed_Run_def volumeAttachmentsFailed_Run_def pvcPending_Run_def
  rbacWildcards_Run_def rke2HelmInstallJobs_Run_def rke2SnapshotsRecent_Run_def
  schedulerHealthz_Run_def servicesNoBackends_Run_def servicesNoEndpoints_Run_def
  statefulsetsRollout_Run_def storageclassDefault_Run_def webhooksTimeout_Run_def

lemma default_ids_distinct: "distinct (map chk_id default_checks)"
  by (simp add: default_checks_def check_defs)

lemma default_contract:
  "chk \<in> set default_checks \<Longrightarrow> keeps_contract chk \<or> chk \<in> {nodesCPU, nodesMemory}"
  unfolding default_checks_def
  by (auto simp: pod_checks_contract node_checks_contract workload_checks_contract storage_checks_contract
      control_plane_contract operator_checks_contract helm_contract etcd_checks_contract)

subsection \<open>An API server that refuses every request\<close>

definition fails_open :: "string list" where
  "fails_open = [''pdbs.coverage'', ''rbac.wildcardVerbs'', ''webhooks.timeout'']"

lemma dead_pods:
  assumes "dead_cluster c"
  shows "StatusOK \<notin> statuses (podsPending_Run c)" "StatusOK \<notin> statuses (podsBackoff_Run c)"
    "StatusOK \<notin> statuses (podsOOMKilled_Run c)" "StatusOK \<notin> statuses (podsRestarts_Run c)"
    "StatusOK \<notin> statuses (podsNotReady_Run c)" "StatusOK \<notin> statuses (podsMissingRefs_Run c)"
  by (simp_all add: dead_calls [OF assms] case_failed run_defs scan_check_def)

lemma dead_nodes:
  assumes "dead_cluster c"
  shows "StatusOK \<notin> statuses (nodesReady_Run c)" "StatusOK \<notin> statuses (nodesPressure_Run c)"
    "StatusOK \<notin> statuses (nodesUnschedulable_Run c)" "StatusOK \<notin> statuses (nodesVersionSkew_Run c)"
    "StatusOK \<notin> statuses (nodesCPU_Run c)" "StatusOK \<notin> statuses (nodesMemory_Run c)"
    "StatusOK \<notin> statuses (nodesDisk_Run c)" "StatusOK \<notin> statuses (kubeletHealthz_Run c)"
  by (simp_all add: dead_calls [OF assms] case_failed run_defs scan_check_def usage_check_def collectNodeUsage_def
      fetchNodeMetrics_def nodeUsageSkip_def)

lemma dead_workloads:
  assumes "dead_cluster c"
  shows "StatusOK \<notin> statuses (deploymentsRollout_Run c)" "StatusOK \<notin> statuses (statefulsetsRollout_Run c)"
    "StatusOK \<notin> statuses (daemonsetsRollout_Run c)" "StatusOK \<notin> statuses (corednsReplicas_Run c)"
    "StatusOK \<notin> statuses (pdbsMisconfigured_Run c)" "StatusOK \<notin> statuses (hpasMissingTarget_Run c)"
    "StatusOK \<notin> statuses (servicesNoBackends_Run c)" "StatusOK \<notin> statuses (servicesNoEndpoints_Run c)"
    "StatusOK \<notin> statuses (controlPlaneEndpoints_Run c)"
  by (simp_all add: dead_calls [OF assms] case_failed run_defs scan_check_def)

lemma dead_storage:
  assumes "dead_cluster c"
  shows "StatusOK \<notin> statuses (pvcPending_Run c)" "StatusOK \<notin> statuses (pvcLostBoundPV_Run c)"
    "StatusOK \<notin> statuses (pvReleasedNotReclaimed_Run c)" "StatusOK \<notin> statuses (volumeAttachmentsFailed_Run c)"
    "StatusOK \<notin> statuses (storageclassDefault_Run c)" "StatusOK \<notin> statuses (eventsWarnings_Run c)"
    "StatusOK \<notin> statuses (namespacesTerminating_Run c)"
    "StatusOK \<notin> statuses (ingressesDanglingService_Run c)" "StatusOK \<notin> statuses (ingressesMissingClass_Run c)"
  by (simp_all add: dead_calls [OF assms] case_failed run_defs scan_check_def)

lemma dead_lease:
  "dead_cluster c \<Longrightarrow> StatusOK \<notin> statuses (lease_check ident name c)"
  by (simp add: dead_calls case_failed lease_check_def controlPlaneLeaseHealth_def)

lemma dead_control_plane:
  assumes "dead_cluster c"
  shows "StatusOK \<notin> statuses (controllerMgrHealthz_Run c)" "StatusOK \<notin> statuses (schedulerHealthz_Run c)"
    "StatusOK \<notin> statuses (apiserverHealthz_Run c)"
proof -
  show "StatusOK \<notin> statuses (controllerMgrHealthz_Run c)" "StatusOK \<notin> statuses (schedulerHealthz_Run c)"
    by (simp_all add: controllerMgrHealthz_Run_def schedulerHealthz_Run_def dead_lease [OF assms] del: image_iff)
  show "StatusOK \<notin> statuses (apiserverHealthz_Run c)"
    using dead_calls(27) [OF assms]
    by (auto simp: apiserverHealthz_Run_def split: option.splits sum.splits)
qed

text \<open>The certificate is read by a TLS dial, which may work when no request does.\<close>

definition dials :: "cluster \<Rightarrow> bool" where
  "dials c \<longleftrightarrow> (\<exists>raw host leaf. cl_host c = Some raw \<and> dialAddr c raw = Inr host \<and> dialAndReadLeaf c host = Inr leaf)"

lemma cert_needs_dial: "StatusOK \<in> statuses (apiserverCertExpiry_Run c) \<Longrightarrow> dials c"
  by (auto simp: apiserverCertExpiry_Run_def dials_def unknownFromErr_def
      split: option.splits sum.splits prod.splits if_splits)

lemma dead_operators:
  assumes "dead_cluster c"
  shows "StatusOK \<notin> statuses (apiservicesAvailable_Run c)" "StatusOK \<notin> statuses (argocdAppsOutOfSync_Run c)"
    "StatusOK \<notin> statuses (argocdAppsUnhealthy_Run c)"
    "StatusOK \<notin> statuses (certmanagerCertificatesNotReady_Run c)"
    "StatusOK \<notin> statuses (longhornVolumesDegraded_Run c)" "StatusOK \<notin> statuses (rke2HelmInstallJobs_Run c)"
    "StatusOK \<notin> statuses (rke2SnapshotsRecent_Run c)"
  by (simp_all add: dead_calls [OF assms] case_failed apiservicesAvailable_Run_def operator_runs rke2HelmInstallJobs_Run_def
      rke2SnapshotsRecent_Run_def)

text \<open>Direct mode asks etcd itself; auto mode begins with it when endpoints are configured.\<close>

definition direct_answers :: "cluster \<Rightarrow> bool" where
  "direct_answers c \<longleftrightarrow> ef_mode (ke_etcd (cl_env c)) \<in> {EtcdDirect, EtcdAuto, []} \<and>
     (\<exists>st. collectDirect (ec_direct (cl_etcd c)) (with_defaults (etcd_options_for (ke_etcd (cl_env c)))) = (Some st, None))"

definition etcd_ids :: "string list" where
  "etcd_ids = [''etcd.health'', ''etcd.size'', ''etcd.defrag'', ''etcd.members'']"

lemma dead_etcd:
  assumes "dead_cluster c" and "\<not> direct_answers c"
  shows "StatusOK \<notin> statuses (etcdHealth_Run c)" "StatusOK \<notin> statuses (etcdSize_Run c)"
    "StatusOK \<notin> statuses (etcdDefrag_Run c)" "StatusOK \<notin> statuses (etcdMembers_Run c)"
proof -
  obtain s where "collectEtcdFor c = Inl s"
    using collect_dead [OF assms(1)] assms(2) unfolding direct_answers_def by (cases "collectEtcdFor c") blast+
  moreover have "StatusOK \<notin> statuses (etcd_error_findings ident s)" for ident
    by (cases s) (simp_all add: statuses_etcd_error)
  ultimately show "StatusOK \<notin> statuses (etcdHealth_Run c)" "StatusOK \<notin> statuses (etcdSize_Run c)"
    "StatusOK \<notin> statuses (etcdDefrag_Run c)" "StatusOK \<notin> statuses (etcdMembers_Run c)"
    by (simp_all add: etcdHealth_Run_def etcdSize_Run_def etcdDefrag_Run_def etcdMembers_Run_def)
qed

lemma dead_fails_open:
  assumes "dead_cluster c"
  shows "statuses (pdbsCoverage_Run c) = {StatusOK}" "statuses (rbacWildcards_Run c) = {StatusOK}"
    "statuses (webhooksTimeout_Run c) = {StatusOK}"
proof -
  have "coverage_ns c = (\<lambda>ns. [])" by (simp add: coverage_ns_def dead_calls [OF assms] case_failed fun_eq_iff)
  then show "statuses (pdbsCoverage_Run c) = {StatusOK}" by (simp add: pdbsCoverage_Run_def or_ok_def)
  show "statuses (rbacWildcards_Run c) = {StatusOK}" "statuses (webhooksTimeout_Run c) = {StatusOK}"
    by (simp_all add: dead_calls [OF assms] case_failed rbac_listed webhooks_listed listed_def scan_check_def)
qed

text \<open>
  What a check does in an outage: the three that fail open report OK, no other does, but for the
  five that do not ask the API server, when what they ask answers.
\<close>

definition outage_ok :: "cluster \<Rightarrow> cluster check \<Rightarrow> bool" where
  "outage_ok c chk \<longleftrightarrow>
     (if chk_id chk \<in> set fails_open then statuses (chk_run chk c) = {StatusOK}
      else StatusOK \<in> statuses (chk_run chk c) \<longrightarrow>
        chk_id chk = ''apiserver.certExpiry'' \<and> dials c \<or> chk_id chk \<in> set etcd_ids \<and> direct_answers c)"

lemma outage_mk:
  "ident \<notin> set fails_open \<Longrightarrow> StatusOK \<notin> statuses (run c) \<Longrightarrow> outage_ok c (mk_check ident d cats ds run)"
  "ident \<in> set fails_open \<Longrightarrow> statuses (run c) = {StatusOK} \<Longrightarrow> outage_ok c (mk_check ident d cats ds run)"
  by (simp_all add: outage_ok_def del: image_iff)

lemma outage_others:
  assumes "dead_cluster c"
  shows "outage_ok c apiserverCertExpiry" "outage_ok c etcdHealth" "outage_ok c etcdSize"
    "outage_ok c etcdDefrag" "outage_ok c etcdMembers"
  using cert_needs_dial [of c] dead_etcd [OF assms]
  by (auto simp: outage_ok_def fails_open_def etcd_ids_def apiserverCertExpiry_def etcdHealth_def etcdSize_def
      etcdDefrag_def etcdMembers_def simp del: image_iff)

lemmas dead_runs = dead_pods dead_nodes dead_workloads dead_storage dead_control_plane dead_operators

lemma default_outage:
  assumes "dead_cluster c"
  shows "list_all (outage_ok c) default_checks"
  unfolding default_checks_def list_all_iff list.set ball_simps
  by (intro conjI TrueI;
      (rule outage_others [OF assms] |
       (unfold check_defs, rule outage_mk(1), simp add: fails_open_def, rule dead_runs [OF assms]) |
       (unfold check_defs, rule outage_mk(2), simp add: fails_open_def, rule dead_fails_open [OF assms])))

subsection \<open>Properties\<close>

text \<open>
  The package's \<open>init\<close> functions do not panic: all 50 checks register, \<open>All\<close> gives them
  sorted by id, every id is dotted, and every check is described, has a category and needs
  nothing but the API server.
\<close>

lemma default_registry_boots:
  "\<exists>r. register_all default_checks NewRegistry = Inr r \<and> All_checks r = sort_key chk_id default_checks \<and>
     length (All_checks r) = 50 \<and>
     list_all (\<lambda>chk. CHR ''.'' \<in> set (chk_id chk) \<and> chk_desc chk \<noteq> [] \<and> chk_cats chk \<noteq> [] \<and>
       chk_requires chk = CapAPIServer) (All_checks r)"
proof -
  obtain r where r: "register_all default_checks NewRegistry = Inr r"
      "All_checks r = sort_key chk_id default_checks"
    using register_distinct [OF default_ids_distinct] by blast
  have "list_all (\<lambda>chk. CHR ''.'' \<in> set (chk_id chk) \<and> chk_desc chk \<noteq> [] \<and> chk_cats chk \<noteq> [] \<and>
      chk_requires chk = CapAPIServer) default_checks"
    by (simp add: default_checks_def check_defs mk_check_def)
  then have "list_all (\<lambda>chk. CHR ''.'' \<in> set (chk_id chk) \<and> chk_desc chk \<noteq> [] \<and> chk_cats chk \<noteq> [] \<and>
      chk_requires chk = CapAPIServer) (All_checks r)"
    by (simp add: r(2) list_all_iff)
  moreover have "length (All_checks r) = 50" by (simp add: r(2) default_checks_def)
  ultimately show ?thesis using r by blast
qed

text \<open>
  C8. Every check reports under its own id with one of the five statuses, on every cluster; and
  every check except \<open>nodes.cpu\<close> and \<open>nodes.memory\<close> reports something.
\<close>

theorem every_check_reports:
  assumes "chk \<in> set default_checks"
  shows "(\<forall>f \<in> set (chk_run chk c). f_check f = chk_id chk \<and>
            f_status f \<in> {StatusOK, StatusWarning, StatusCritical, StatusUnknown, StatusSkipped}) \<and>
         (chk_run chk c \<noteq> [] \<or> chk_id chk \<in> {''nodes.cpu'', ''nodes.memory''})"
  using default_contract [OF assms]
proof
  assume k: "keeps_contract chk"
  then show ?thesis by (auto simp: keeps_contract_def wf_findings_def)
next
  assume h: "chk \<in> {nodesCPU, nodesMemory}"
  then have "chk_id chk \<in> {''nodes.cpu'', ''nodes.memory''}" by (auto simp: nodesCPU_def nodesMemory_def)
  moreover have "chk_run chk c = [] \<or> wf_findings (chk_id chk) (chk_run chk c)"
    using h usage_checks_sound by blast
  ultimately show ?thesis by (auto simp: wf_findings_def)
qed

theorem every_check_reports_witness:
  "list_all (\<lambda>f. f_check f = ''nodes.cpu'' \<and> f_status f \<in>
     {StatusOK, StatusWarning, StatusCritical, StatusUnknown, StatusSkipped}) (chk_run nodesCPU empty_cluster)"
  using every_check_reports [of nodesCPU empty_cluster]
  by (simp add: default_checks_def list_all_iff nodesCPU_def)

text \<open>
  C7. An API server that refuses everything is not reported as health, with three exceptions: when
  every request to it fails, \<open>pdbs.coverage\<close>, \<open>rbac.wildcardVerbs\<close> and \<open>webhooks.timeout\<close> report OK
  and nothing else; no other check reports OK, except \<open>apiserver.certExpiry\<close> when its TLS dial, which is
  no request, still reads a certificate, and the etcd checks when direct mode (chosen, or tried by auto
  mode) still reaches etcd.
\<close>

theorem outage_ok_exactly_three:
  assumes "dead_cluster c" and "chk \<in> set default_checks"
  shows "if chk_id chk \<in> {''pdbs.coverage'', ''rbac.wildcardVerbs'', ''webhooks.timeout''}
         then statuses (chk_run chk c) = {StatusOK}
         else StatusOK \<in> statuses (chk_run chk c) \<longrightarrow>
           chk_id chk = ''apiserver.certExpiry'' \<and> dials c \<or>
           chk_id chk \<in> {''etcd.health'', ''etcd.size'', ''etcd.defrag'', ''etcd.members''} \<and> direct_answers c"
  using default_outage [OF assms(1)] assms(2)
  by (auto simp: list_all_iff outage_ok_def fails_open_def etcd_ids_def)

definition blackout :: cluster where
  "blackout = empty_cluster\<lparr>
     cl_pods := (\<lambda>_ _. Inl refused), cl_nodes := Inl refused, cl_deployments := (\<lambda>_ _. Inl refused),
     cl_statefulsets := (\<lambda>_. Inl refused), cl_daemonsets := (\<lambda>_. Inl refused),
     cl_services := (\<lambda>_. Inl refused), cl_service_ports := (\<lambda>_ _. Inl refused),
     cl_endpoint_slices := (\<lambda>_ _. Inl refused), cl_pvcs := (\<lambda>_. Inl refused), cl_pvs := Inl refused,
     cl_attachments := Inl refused, cl_storage_classes := Inl refused, cl_events := (\<lambda>_. Inl refused),
     cl_namespaces := Inl refused, cl_lease := (\<lambda>_ _. Inl refused), cl_hpas := (\<lambda>_. Inl refused),
     cl_get := (\<lambda>_ _ _. Some refused), cl_ingresses := (\<lambda>_. Inl refused),
     cl_ingress_classes := Inl refused, cl_pdbs := (\<lambda>_. Inl refused), cl_configmaps := (\<lambda>_. Inl refused),
     cl_secrets := (\<lambda>_. Inl refused), cl_service_accounts := (\<lambda>_. Inl refused),
     cl_cluster_roles := Inl refused, cl_roles := (\<lambda>_. Inl refused), cl_validating := Inl refused,
     cl_mutating := Inl refused, cl_jobs := (\<lambda>_ _. Inl refused), cl_dynamic := (\<lambda>_ _ _. Inl refused),
     cl_readyz := Some (Inl refused), cl_server_minor := Inl ''connection refused'',
     cl_raw_get := (\<lambda>_. Inl refused)\<rparr>"

lemma blackout_dead: "dead_cluster blackout"
  by (simp add: dead_cluster_def blackout_def empty_cluster_def no_etcd_def)

theorem outage_ok_exactly_three_witness:
  "StatusOK \<notin> statuses (chk_run nodesReady blackout) \<and>
   statuses (chk_run webhooksTimeout blackout) = {StatusOK}"
proof -
  have "nodesReady \<in> set default_checks" "webhooksTimeout \<in> set default_checks"
    by (simp_all add: default_checks_def)
  then show ?thesis
    using outage_ok_exactly_three [OF blackout_dead, of nodesReady]
      outage_ok_exactly_three [OF blackout_dead, of webhooksTimeout]
    by (simp add: nodesReady_def webhooksTimeout_def del: image_iff)
qed

end
