(* ===== verification/RenderPlain.thy ===== *)
theory RenderPlain
  imports RenderTable
begin

section \<open>No escape sequence without colours\<close>

text \<open>
  With \<open>NO_COLOR\<close> set, or when the output is not a terminal, the text renderers must not write
  terminal escapes. \<open>plain\<close> says a string has no ESC byte; the lemmas follow the renderers
  function by function with the empty palette.
\<close>

definition plain :: "string \<Rightarrow> bool" where
  "plain s \<longleftrightarrow> lacks ESC s"

definition plain_finding :: "finding \<Rightarrow> bool" where
  "plain_finding f \<longleftrightarrow> plain (f_check f) \<and> plain (f_status f) \<and> plain (f_resource f) \<and> plain (f_message f)"

lemma plain_simps [simp]:
  "plain []" "plain (c # s) \<longleftrightarrow> c \<noteq> ESC \<and> plain s" "plain (a @ b) \<longleftrightarrow> plain a \<and> plain b"
  "plain (concat ss) \<longleftrightarrow> (\<forall>s \<in> set ss. plain s)" "plain (replicate n (CHR '' ''))" "plain (line s) \<longleftrightarrow> plain s"
  by (auto simp: plain_def line_def lacks_def ESC_def)

lemma ESC_distinct [simp]: "c \<noteq> CHR 0x1B \<Longrightarrow> c \<noteq> ESC"
  by (simp add: ESC_def)

lemma plain_subset: "set s \<subseteq> set t \<Longrightarrow> plain t \<Longrightarrow> plain s"
  by (auto simp: plain_def lacks_def)

lemma ESC_control: "control_byte ESC"
  by (simp add: control_byte_def ESC_def)

lemma plain_itoa [simp]: "plain (itoa i)"
proof -
  have "\<not> is_digit ESC" by (simp add: ESC_def is_digit_def)
  then have "0 \<le> n \<Longrightarrow> plain (digits n)" for n by (simp add: plain_def lacks_def digits_chars)
  then show ?thesis by (simp add: itoa_def ESC_def)
qed

lemma plain_join: "plain sep \<Longrightarrow> \<forall>s \<in> set ss. plain s \<Longrightarrow> plain (join sep ss)"
  by (induction sep ss rule: join.induct) simp_all

lemma plain_status [simp]: "plain StatusOK" "plain StatusWarning" "plain StatusCritical" "plain StatusUnknown"
  "plain StatusSkipped"
  by (simp_all add: status_defs ESC_def)

lemma plain_rune_string: "\<forall>r \<in> set rs. plain r \<Longrightarrow> plain (rune_string rs)"
  unfolding plain_def by (rule lacks_rune_string [OF ESC_control])

lemma plain_runes: "plain s \<Longrightarrow> r \<in> set (runes s) \<Longrightarrow> plain r"
  unfolding plain_def by (rule lacks_runes)

lemma plain_truncate: "plain s \<Longrightarrow> plain (truncate_runes s w)"
  by (auto simp: truncate_runes_def ESC_def intro!: plain_rune_string dest: in_set_takeD plain_runes)

lemma plain_stripSeen: "plain s \<Longrightarrow> plain (snd (stripSeenBefore s))"
  by (auto simp: stripSeenBefore_def trim_prefix_def plain_def lacks_def dest: in_set_dropD)

lemma plain_or_dash: "plain s \<Longrightarrow> plain (or_dash s)"
  by (simp add: or_dash_def ESC_def)

lemma plain_icon [simp]: "plain (fst (iconColor s (newPalette False)))" "snd (iconColor s (newPalette False)) = []"
  by (auto simp: iconColor_def ESC_def)

lemma plain_header: "plain s \<Longrightarrow> plain (section_header s fs (newPalette False))"
  by (simp add: section_header_def case_prod_beta ESC_def)

lemma plain_Worst: "\<forall>f \<in> set (r_findings r). plain_finding f \<Longrightarrow> plain (Worst r)"
  using sv.worst_source [of StatusOK "r_findings r"] by (auto simp: Worst_def plain_finding_def)

text \<open>What the renderers read of the report and of the time zone.\<close>

definition plain_input :: "out_world \<Rightarrow> report \<Rightarrow> bool" where
  "plain_input w r \<longleftrightarrow> plain (r_cluster r) \<and> plain (r_distro r) \<and> plain (zn_name (ow_zone w)) \<and>
     (\<forall>f \<in> set (r_findings r). plain_finding f)"

lemma plain_printable: "printable s \<Longrightarrow> plain s"
  by (auto simp: printable_def plain_def lacks_def ESC_def)

lemma plain_layouts:
  "plain (date_text c)" "plain (minute_text c)" "plain (second_text c)" "plain (offset_text off)"
  "plain (zn_name z) \<Longrightarrow> plain (zone_text z)"
  using printable_layouts [THEN plain_printable]
  by (simp_all add: zone_text_def Let_def printable_pad plain_printable ESC_def)

lemma plain_times: "plain (rfc3339 off t)" "plain (zn_name z) \<Longrightarrow> plain (minute_layout z t)"
  by (simp_all add: rfc3339_def minute_layout_def Let_def plain_layouts ESC_def)

lemma plain_pretty_header:
  "plain_input w r \<Longrightarrow> \<forall>s \<in> set (writePrettyHeader w r (newPalette False)). plain s"
  by (auto simp: writePrettyHeader_def plain_input_def Let_def dot_sep_def ESC_def plain_times intro!: plain_join)

lemma plain_pretty_section:
  assumes "\<forall>f \<in> set fs. plain_finding f" and "plain st"
  shows "\<forall>s \<in> set (writeSection st fs (newPalette False)). plain s"
proof -
  have "plain (cg_check g) \<and> (\<forall>f \<in> set (cg_findings g). plain_finding f)" if "g \<in> set (groupByCheck fs)" for g
  proof -
    have "cg_check g \<in> f_check ` set fs" using groupByCheck_spec(2) [of fs] that by blast
    moreover have "set (cg_findings g) \<subseteq> set fs" using groupByCheck_spec(3) [OF that] by auto
    ultimately show ?thesis using assms(1) by (auto simp: plain_finding_def)
  qed
  then show ?thesis
    using assms(2) plain_header
    by (fastforce simp: writeSection_def pretty_group_def pretty_finding_def plain_finding_def ESC_def)
qed

lemma plain_compact_line:
  assumes "plain_finding f"
  shows "plain (compact_line (newPalette False) [] cw rw f)"
  using assms
  by (simp add: compact_line_def Let_def case_prod_beta colorize_plain plain_finding_def padRight_def
      plain_truncate plain_or_dash plain_stripSeen ESC_def)

lemma plain_compact_section:
  assumes "\<forall>f \<in> set fs. plain_finding f" and "plain st"
  shows "\<forall>s \<in> set (writeCompactSection st fs (newPalette False)). plain s"
  using assms
  by (auto simp: writeCompactSection_def Let_def case_prod_beta sort_findings_def plain_header plain_compact_line)

lemma plain_summary:
  assumes "\<forall>f \<in> set (r_findings r). plain_finding f"
  shows "\<forall>s \<in> set (writeSummary r b (newPalette False)). plain s"
  using plain_Worst [OF assms]
  by (auto simp: writeSummary_def summary_counts_def Let_def case_prod_beta dot_sep_def ESC_def intro!: plain_join)

lemma plain_collapsed: "\<forall>s \<in> set (writeCollapsed a b (newPalette False)). plain s"
  by (auto simp: writeCollapsed_def Let_def ESC_def intro!: plain_join)

lemma plain_sections:
  assumes "plain_input w r" and "\<not> colorEnabled w"
    and "\<And>st fs. plain st \<Longrightarrow> \<forall>f \<in> set fs. plain_finding f \<Longrightarrow>
       \<forall>s \<in> set (section_of st fs (newPalette False)). plain s"
  shows "\<forall>s \<in> set (render_sections section_of w r). plain s"
proof -
  have p: "newPalette (colorEnabled w) = newPalette False" using assms(2) by simp
  have fs: "\<forall>f \<in> set (r_findings r). plain_finding f" using assms(1) by (simp add: plain_input_def)
  have sec: "\<forall>s \<in> set (section_of st (bucketByStatus (r_findings r) st) (newPalette False)). plain s"
    if "st \<in> set severe" for st
    using that fs by (intro assms(3)) (auto simp: severe_def bucket_eq)
  then show ?thesis
    using plain_pretty_header [OF assms(1)] plain_summary [OF fs] plain_collapsed
    unfolding render_sections_def Let_def p by (auto simp: ESC_def split: if_splits)
qed

subsection \<open>The table\<close>

lemma plain_drawTable:
  assumes "\<forall>r \<in> set rows. \<forall>c \<in> set r. plain c" and "\<forall>c \<in> set colors. c = []"
    and "l \<in> set (drawTable table_headers rows maxWidth (newPalette False) colors)"
  shows "plain l"
proof -
  have "\<forall>h \<in> set table_headers. lacks ESC h" by (simp add: table_headers_def ESC_def)
  then obtain x where "l = line x" "lacks ESC x"
    using lacks_drawTable [OF ESC_control _ _ assms(2,3)] assms(1) by (auto simp: plain_def)
  then show ?thesis by (simp add: plain_def [symmetric])
qed

lemma plain_table_section:
  assumes "\<forall>f \<in> set fs. plain_finding f" and "plain st"
  shows "\<forall>s \<in> set (writeTableSection st fs maxWidth (newPalette False)). plain s"
proof -
  have "\<forall>r \<in> set (map finding_row (sort_findings fs)). \<forall>c \<in> set r. plain c"
    using assms(1) by (auto simp: finding_row_def sort_findings_def plain_finding_def plain_or_dash)
  then show ?thesis
    using assms(2) plain_drawTable [of "map finding_row (sort_findings fs)" "[[], [], []]"]
    by (auto simp: writeTableSection_def Let_def case_prod_beta ESC_def)
qed

subsection \<open>Property\<close>

text \<open>
  C37. \<open>NO_COLOR\<close> and pipes get plain text: unless the output is a terminal and \<open>NO_COLOR\<close> is unset,
  the three text renderers add no escape byte: for a report without one in its texts (and a time zone
  without one in its name) they write none. Escape bytes in the report are printed as they are.
\<close>

theorem no_color_is_plain:
  assumes "ow_no_color w \<or> \<not> ow_file w \<or> \<not> ow_terminal w" and "plain_input w r"
  shows "\<forall>s \<in> set (pretty_Render w r @ compact_Render w r @ table_Render w r). plain s"
proof -
  have off: "\<not> colorEnabled w" using assms(1) by (auto simp: colorEnabled_def)
  have p: "newPalette (colorEnabled w) = newPalette False" using off by simp
  have fs: "\<forall>f \<in> set (r_findings r). plain_finding f" using assms(2) by (simp add: plain_input_def)
  have pretty: "\<forall>s \<in> set (pretty_Render w r). plain s"
    unfolding pretty_Render_def by (rule plain_sections [OF assms(2) off]) (rule plain_pretty_section)
  have compact: "\<forall>s \<in> set (compact_Render w r). plain s"
    unfolding compact_Render_def by (rule plain_sections [OF assms(2) off]) (rule plain_compact_section)
  have "\<forall>s \<in> set (writeTableHeader w r (newPalette False)). plain s"
    using assms(2) by (auto simp: writeTableHeader_def plain_input_def ESC_def plain_times)
  moreover have "\<forall>s \<in> set (writeTableSection st (bucketByStatus (r_findings r) st) (terminalWidth w) (newPalette False)).
      plain s" if "st \<in> set table_order" for st
    using that fs by (intro plain_table_section) (auto simp: table_order_def bucket_eq)
  ultimately have "\<forall>s \<in> set (table_Render w r). plain s"
    using plain_Worst [OF fs] unfolding table_Render_def Let_def p
    by (auto simp: case_prod_beta ESC_def split: if_splits)
  with pretty compact show ?thesis by auto
qed

definition pipe :: out_world where
  "pipe = \<lparr>ow_no_color = False, ow_file = False, ow_terminal = False, ow_size = None, ow_columns = [],
     ow_zone = \<lparr>zn_offset = 0, zn_name = ''UTC''\<rparr>\<rparr>"

theorem no_color_is_plain_witness:
  "list_all plain (compact_Render pipe
     (report0\<lparr>r_findings := [mk_finding ''nodes.ready'' StatusWarning ''node/a'' ''m'']\<rparr>))"
  using no_color_is_plain [of pipe "report0\<lparr>r_findings := [mk_finding ''nodes.ready'' StatusWarning ''node/a'' ''m'']\<rparr>"]
  by (simp add: pipe_def plain_input_def plain_finding_def report0_def plain_def lacks_def ESC_def status_defs list_all_iff)

text \<open>The condition is needed: an escape byte in a message of the cluster reaches the output.\<close>

lemma escape_passes_through:
  "\<not> list_all plain (pretty_Render pipe
     (report0\<lparr>r_findings := [mk_finding ''events.warnings'' StatusWarning ''ns/a'' ([ESC] @ ''[2J'')]\<rparr>))"
  by code_simp

end
