(* ===== verification/BaselineFlow.thy ===== *)
theory BaselineFlow
  imports Cli
begin

section \<open>The baseline options over several commands\<close>

text \<open>
  How \<open>--save-baseline\<close>, \<open>--baseline\<close> and \<open>-o json\<close> work together: what one command leaves in the
  file system is what the next one compares with. \<open>mark\<close> is the tag of \<open>applyBaseline\<close>,
  \<open>marked\<close> the report with the tag on the findings of a predicate.
\<close>

definition mark :: "finding \<Rightarrow> finding" where
  "mark f = f\<lparr>f_resource := ''[seen-before] '' @ f_resource f\<rparr>"

definition marked :: "(finding \<Rightarrow> bool) \<Rightarrow> report \<Rightarrow> report" where
  "marked P rep =
     rep\<lparr>r_findings := map (\<lambda>f. if P f then mark f else f) (r_findings rep), r_nil := False\<rparr>"

lemma tag_report_marked:
  "tag_report base rep = marked (\<lambda>f. compare_key f \<in> compare_key ` set base) rep"
  by (simp add: tag_report_eq marked_def mark_def seenBeforePrefix_def)

lemma marked_cong:
  "(\<And>f. f \<in> set (r_findings rep) \<Longrightarrow> P f = Q f) \<Longrightarrow> marked P rep = marked Q rep"
  by (simp add: marked_def)

text \<open>What a command leaves in its baseline file and what it prints.\<close>

lemma saved_file:
  assumes "runChecks p g cats = Inr rep" and "g_save_baseline g \<noteq> []" and "op_writable q (g_save_baseline g)"
  shows "o_files (check_cmd p q g cats files) =
    files(g_save_baseline g \<mapsto> MarshalIndent (encode_baseline (r_nil rep) (r_findings rep)))"
  using assms
  by (simp add: check_cmd_def report_stage_def SaveBaseline_def split: sum.splits prod.splits option.splits)

lemma printed_report:
  assumes "runChecks p g cats = Inr rep"
    and "(if g_save_baseline g \<noteq> [] then SaveBaseline (op_writable q) files (g_save_baseline g) rep
          else Inr files) = Inr files'"
    and "applyBaseline files' rep (g_baseline g) = Inr rep'" and "g_baseline g \<noteq> []"
  shows "o_stdout (check_cmd p q g cats files) = fst (writeReport q g rep')"
  using assms
  by (simp add: check_cmd_def report_stage_def split: prod.splits option.splits)

lemma load_saved_text:
  fixes rep :: report
  assumes "path \<noteq> []" and "\<forall>f \<in> set (r_findings rep). good_finding f"
    and "files path = Some (MarshalIndent (encode_baseline (r_nil rep) (r_findings rep)))"
  shows "LoadBaseline files path = Inr (Some \<lparr>b_findings = map canon (r_findings rep)\<rparr>)"
proof -
  have s: "SaveBaseline (\<lambda>_. True) files path rep = Inr files"
    using assms(1,3) by (simp add: SaveBaseline_def fun_upd_idem)
  show ?thesis by (rule load_saved [OF assms(1,2) s])
qed

lemma canon_keys: "compare_key ` set (map canon fs) = compare_key ` set fs"
  by (simp add: image_image compare_key_canon)

lemma canon_pipe_free: "pipe_free (canon f) = pipe_free f"
  by (simp add: pipe_free_def canon_def)

subsection \<open>A run that saves, a run that compares\<close>

definition save_flags :: cli_flags where
  "save_flags = format_flags\<lparr>g_output := ''json''\<rparr>"

definition load_flags :: cli_flags where
  "load_flags = format_flags\<lparr>g_output := ''json'', g_save_baseline := [], g_baseline := ''b.json''\<rparr>"

definition both_flags :: cli_flags where
  "both_flags = save_flags\<lparr>g_baseline := ''b.json''\<rparr>"

definition flow_report :: "string \<Rightarrow> bool \<Rightarrow> report" where
  "flow_report res nil = \<lparr>r_generated_at = 0, r_cluster = ''https://10.0.0.1'', r_distro = ''k3s'',
     r_findings = [(mk_finding ''a'' StatusCritical res [])\<lparr>f_duration := 1\<rparr>], r_nil = nil\<rparr>"

lemma flow_runs:
  "runChecks format_params save_flags [] = Inr (flow_report [] True)"
  "runChecks format_params load_flags [] = Inr (flow_report [] True)"
  "runChecks format_params both_flags [] = Inr (flow_report [] True)"
  unfolding flow_report_def by code_simp+

lemma flow_good: "\<forall>f \<in> set (r_findings (flow_report [] True)). wf_finding f \<and> utf8_finding f \<and> pipe_free f"
  by (simp add: flow_report_def wf_finding_def utf8_finding_def pipe_free_def status_defs utf8_ascii byte_Char)

lemma flow_marked: "marked P (flow_report [] True) =
    (if P (hd (r_findings (flow_report [] True))) then flow_report ''[seen-before] '' False else flow_report [] False)"
  by (simp add: marked_def mark_def flow_report_def mk_finding_def finding0_def)

lemmas flow_flags = save_flags_def load_flags_def both_flags_def format_flags_def piped_out_def

subsection \<open>Properties\<close>

text \<open>
  C17. A command run with \<open>--save-baseline\<close> and a later one run with \<open>--baseline\<close> on the same path:
  whatever the other flags, the second one prints its own report with exactly those findings
  tagged as seen before that the first one reported too (same check, status and resource).
\<close>

theorem second_run_marks_persisting:
  assumes "runChecks p g cats = Inr rep" and "g_save_baseline g = path" and "path \<noteq> []"
    and "op_writable q path" and "\<forall>f \<in> set (r_findings rep). wf_finding f \<and> utf8_finding f"
    and "runChecks p' g' cats' = Inr rep'" and "g_baseline g' = path" and "g_save_baseline g' = []"
    and "\<forall>f \<in> set (r_findings rep) \<union> set (r_findings rep'). pipe_free f"
  shows "o_stdout (check_cmd p' q' g' cats' (o_files (check_cmd p q g cats files))) =
    fst (writeReport q' g' (marked (\<lambda>f. \<exists>f' \<in> set (r_findings rep). same_identity f f') rep'))"
proof -
  let ?files = "o_files (check_cmd p q g cats files)"
  have "LoadBaseline ?files path = Inr (Some \<lparr>b_findings = map canon (r_findings rep)\<rparr>)"
    using saved_file [OF assms(1), of q files] assms(2-5) by (intro load_saved_text) simp_all
  then have "applyBaseline ?files rep' path =
      Inr (marked (\<lambda>f. compare_key f \<in> compare_key ` set (r_findings rep)) rep')"
    by (simp add: applyBaseline_def tag_report_marked canon_keys del: set_map)
  moreover have "marked (\<lambda>f. compare_key f \<in> compare_key ` set (r_findings rep)) rep' =
      marked (\<lambda>f. \<exists>f' \<in> set (r_findings rep). same_identity f f') rep'"
    using assms(9) by (intro marked_cong ck.key_mem_iff) auto
  ultimately show ?thesis
    using printed_report [OF assms(6), of q' ?files ?files] assms(3,7,8) by simp
qed

theorem second_run_marks_persisting_witness:
  "o_stdout (check_cmd format_params piped_out load_flags []
      (o_files (check_cmd format_params piped_out save_flags [] Map.empty))) =
    fst (writeReport piped_out load_flags (flow_report ''[seen-before] '' False))"
proof -
  have "same_identity f f" for f by (simp add: same_identity_def)
  then show ?thesis
    using second_run_marks_persisting [OF flow_runs(1) _ _ _ _ flow_runs(2), of "''b.json''" piped_out piped_out Map.empty]
      flow_good flow_marked by (simp add: flow_flags) (simp add: flow_report_def)
qed

text \<open>
  C18. Both options on one path, as for a baseline that rolls along, compare the run with itself:
  the file is overwritten before it is read, so every finding is tagged as seen before, also
  on the first run and whatever the file held.
\<close>

theorem same_path_hides_new:
  assumes "runChecks p g cats = Inr rep" and "g_save_baseline g = path" and "g_baseline g = path"
    and "path \<noteq> []" and "op_writable q path"
    and "\<forall>f \<in> set (r_findings rep). wf_finding f \<and> utf8_finding f"
  shows "o_stdout (check_cmd p q g cats files) = fst (writeReport q g (marked (\<lambda>f. True) rep))"
proof -
  let ?files = "files(path \<mapsto> MarshalIndent (encode_baseline (r_nil rep) (r_findings rep)))"
  have "LoadBaseline ?files path = Inr (Some \<lparr>b_findings = map canon (r_findings rep)\<rparr>)"
    using assms(4,6) by (intro load_saved_text) simp_all
  then have "applyBaseline ?files rep path =
      Inr (marked (\<lambda>f. compare_key f \<in> compare_key ` set (r_findings rep)) rep)"
    by (simp add: applyBaseline_def tag_report_marked canon_keys del: set_map)
  moreover have "marked (\<lambda>f. compare_key f \<in> compare_key ` set (r_findings rep)) rep = marked (\<lambda>f. True) rep"
    by (intro marked_cong) simp
  ultimately show ?thesis
    using printed_report [OF assms(1), of q files ?files] assms(2-5) by (simp add: SaveBaseline_def)
qed

theorem same_path_hides_new_witness:
  "o_stdout (check_cmd format_params piped_out both_flags [] Map.empty) =
    fst (writeReport piped_out both_flags (flow_report ''[seen-before] '' False))"
  using same_path_hides_new [OF flow_runs(3), of "''b.json''" piped_out Map.empty] flow_good flow_marked
  by (simp add: flow_flags)

lemma mark_good: "good_finding f \<Longrightarrow> good_finding (mark f)"
proof -
  have "runes (''[seen-before] '' @ s) = singles ''[seen-before] '' @ runes s" for s
    by (simp add: runes_Cons_ascii byte_Char)
  then have "utf8_string s \<Longrightarrow> utf8_string (''[seen-before] '' @ s)" for s
    by (simp add: utf8_string_def encoded_ascii byte_Char)
  then show "good_finding f \<Longrightarrow> good_finding (mark f)"
    by (auto simp: mark_def wf_finding_def utf8_finding_def)
qed

text \<open>
  C15. The output of \<open>-o json\<close> is a baseline file: saved at a path, \<open>LoadBaseline\<close> reads the report's
  findings from it, also when the report has none and its \<open>findings\<close> is \<open>null\<close>: the file is then
  parsed a second time, as a report, whose time stamp is the text of its own instant.
\<close>

theorem json_output_is_baseline:
  assumes "json_Render q rep = Inr text" and "60 dvd zn_offset (ow_zone (op_world q))"
    and "files path = Some text" and "path \<noteq> []"
    and "\<forall>f \<in> set (r_findings rep). wf_finding f \<and> utf8_finding f"
    and "utf8_string (r_cluster rep)" and "utf8_string (r_distro rep)"
  shows "LoadBaseline files path = Inr (Some \<lparr>b_findings = map canon (r_findings rep)\<rparr>)"
proof -
  obtain t where "json_time (zn_offset (ow_zone (op_world q))) (r_generated_at rep) = Some t"
      "text = Encode (encode_report t rep)"
    using assms(1) by (auto simp: json_Render_def split: option.splits)
  then show ?thesis using assms by (intro load_json_output) simp_all
qed

lemma demo_json: "json_Render piped_out (demo_saved\<lparr>r_generated_at := 0\<rparr>) =
    Inr (Encode (encode_report ''1970-01-01T01:00:00+01:00'' demo_saved))"
proof -
  have "json_time 3600 0 = Some ''1970-01-01T01:00:00+01:00''" by code_simp
  then show ?thesis by (simp add: json_Render_def piped_out_def encode_report_def demo_saved_def)
qed

theorem json_output_is_baseline_witness:
  "LoadBaseline [''r.json'' \<mapsto> Encode (encode_report ''1970-01-01T01:00:00+01:00'' demo_saved)] ''r.json''
     = Inr (Some \<lparr>b_findings = [(mk_finding ''pods.backoff'' StatusCritical ''pod/a''
         ([CHR 0x22, CHR 0x0A, CHR ''<'', CHR 0xC3, CHR 0xA9]))
         \<lparr>f_detail := [(''image'', ''y''), (''reason'', ''x'')], f_duration := 1500\<rparr>]\<rparr>)"
proof -
  have "60 dvd zn_offset (ow_zone (op_world piped_out))" by (simp add: piped_out_def)
  moreover have "r_cluster demo_saved = []" "r_distro demo_saved = []" by (simp_all add: demo_saved_def report0_def)
  ultimately show ?thesis
    using json_output_is_baseline [OF demo_json, of _ "''r.json''"] demo_saved_good
    by (simp add: demo_saved_canon utf8_ascii)
qed

text \<open>
  C19. The JSON output of a run with \<open>--baseline\<close> is a baseline that forgets: the findings the run had
  in common with its baseline carry the tag in their resource, so a later run compared with that
  output recognises of the run's findings just those that were new in it; the others are printed as
  new. Fed back as the next baseline, the findings of an unchanged cluster change between seen and new.
\<close>

theorem tagged_output_forgets:
  assumes "LoadBaseline files0 path0 = Inr (Some base)" and "applyBaseline files0 rep path0 = Inr out"
    and "json_Render q out = Inr text" and "60 dvd zn_offset (ow_zone (op_world q))"
    and "files path = Some text" and "path \<noteq> []"
    and "\<forall>f \<in> set (r_findings rep). wf_finding f \<and> utf8_finding f"
    and "utf8_string (r_cluster rep)" and "utf8_string (r_distro rep)"
    and "\<forall>f \<in> set (b_findings base) \<union> set (r_findings rep) \<union> set (r_findings rep'). pipe_free f"
    and "\<forall>f \<in> set (r_findings rep'). take 14 (f_resource f) \<noteq> ''[seen-before] ''"
  shows "applyBaseline files rep' path = Inr (marked (\<lambda>f. (\<exists>g \<in> set (r_findings rep). same_identity f g) \<and>
           \<not> (\<exists>g \<in> set (b_findings base). same_identity f g)) rep')"
proof -
  let ?P = "\<lambda>f. compare_key f \<in> compare_key ` set (b_findings base)"
  have out: "out = marked ?P rep" using assms(1,2) by (simp add: applyBaseline_def tag_report_marked)
  have "\<forall>f \<in> set (r_findings out). good_finding f"
    using assms(7) mark_good by (auto simp: out marked_def)
  moreover obtain t where "json_time (zn_offset (ow_zone (op_world q))) (r_generated_at out) = Some t"
      "text = Encode (encode_report t out)"
    using assms(3) by (auto simp: json_Render_def split: option.splits)
  ultimately have "LoadBaseline files path = Inr (Some \<lparr>b_findings = map canon (r_findings out)\<rparr>)"
    using assms(4-6,8,9) by (intro load_json_output) (simp_all add: out marked_def)
  then have "applyBaseline files rep' path =
      Inr (marked (\<lambda>f. compare_key f \<in> compare_key ` set (r_findings out)) rep')"
    by (simp add: applyBaseline_def tag_report_marked canon_keys del: set_map)
  moreover have "compare_key f \<in> compare_key ` set (r_findings out) \<longleftrightarrow>
      (\<exists>g \<in> set (r_findings rep). same_identity f g) \<and> \<not> (\<exists>g \<in> set (b_findings base). same_identity f g)"
    if f: "f \<in> set (r_findings rep')" for f
  proof -
    have P: "?P g \<longleftrightarrow> (\<exists>h \<in> set (b_findings base). same_identity g h)"
      if "g \<in> set (r_findings rep) \<union> set (r_findings rep')" for g
      using assms(10) that by (intro ck.key_mem_iff) auto
    have tagged: "compare_key f \<noteq> compare_key (mark g)" if "g \<in> set (r_findings rep)" for g
    proof
      assume "compare_key f = compare_key (mark g)"
      moreover have "pipe_free f" "pipe_free (mark g)" using f that assms(10) by (auto simp: pipe_free_def mark_def)
      ultimately have "same_identity f (mark g)" using ck.key_inj by blast
      then have "take 14 (f_resource f) = ''[seen-before] ''" by (simp add: same_identity_def mark_def)
      then show False using f assms(11) by blast
    qed
    then have "compare_key f \<in> compare_key ` set (r_findings out) \<longleftrightarrow>
        (\<exists>g \<in> set (r_findings rep). \<not> ?P g \<and> compare_key f = compare_key g)"
      by (auto simp: out marked_def image_iff)
    also have "\<dots> \<longleftrightarrow> (\<exists>g \<in> set (r_findings rep). compare_key f = compare_key g) \<and> \<not> ?P f" by metis
    also have "\<dots> \<longleftrightarrow> (\<exists>g \<in> set (r_findings rep). same_identity f g) \<and>
        \<not> (\<exists>g \<in> set (b_findings base). same_identity f g)"
      using ck.key_mem_iff [of f "r_findings rep"] assms(10) f P [of f] by (simp add: image_iff)
    finally show ?thesis .
  qed
  then have "marked (\<lambda>f. compare_key f \<in> compare_key ` set (r_findings out)) rep' =
      marked (\<lambda>f. (\<exists>g \<in> set (r_findings rep). same_identity f g) \<and>
        \<not> (\<exists>g \<in> set (b_findings base). same_identity f g)) rep'"
    by (rule marked_cong)
  ultimately show ?thesis by (simp only:)
qed

text \<open>A run whose baseline has one of its two findings.\<close>

definition two_report :: "string \<Rightarrow> string \<Rightarrow> bool \<Rightarrow> report" where
  "two_report x y nil = report0\<lparr>r_generated_at := 0, r_nil := nil, r_findings :=
     [mk_finding ''x'' StatusWarning (x @ ''r'') [], mk_finding ''y'' StatusWarning (y @ ''r'') []]\<rparr>"

theorem tagged_output_forgets_witness:
  "applyBaseline [''j'' \<mapsto> Encode (encode_report ''1970-01-01T01:00:00+01:00'' (two_report ''[seen-before] '' [] False))]
     (two_report [] [] True) ''j'' = Inr (two_report [] ''[seen-before] '' False)"
proof -
  have seen: "same_identity (mk_finding ''x'' StatusWarning ''r'' []) (mk_finding ''x'' StatusWarning ''r'' [])"
    "\<not> same_identity (mk_finding ''y'' StatusWarning ''r'' []) (mk_finding ''x'' StatusWarning ''r'' [])"
    "same_identity (mk_finding ''y'' StatusWarning ''r'' []) (mk_finding ''y'' StatusWarning ''r'' [])"
    by (simp_all add: same_identity_def)
  have pipes: "\<forall>f \<in> set (r_findings (two_report [] [] True)). pipe_free f"
    by (simp add: two_report_def pipe_free_def status_defs)
  have "applyBaseline [''b'' \<mapsto> MarshalIndent (encode_baseline True (r_findings demo_base))]
      (two_report [] [] True) ''b'' = Inr (two_report ''[seen-before] '' [] False)"
    using baseline_tags_exactly_seen [OF demo_base_loads, of "two_report [] [] True"] pipes seen
    by (simp add: two_report_def mk_finding_def finding0_def)
  moreover have "json_Render piped_out (two_report ''[seen-before] '' [] False) =
      Inr (Encode (encode_report ''1970-01-01T01:00:00+01:00'' (two_report ''[seen-before] '' [] False)))"
  proof -
    have "json_time 3600 0 = Some ''1970-01-01T01:00:00+01:00''" by code_simp
    then show ?thesis by (simp add: json_Render_def piped_out_def two_report_def)
  qed
  moreover have "60 dvd zn_offset (ow_zone (op_world piped_out))" by (simp add: piped_out_def)
  moreover have "\<forall>f \<in> set (r_findings (two_report [] [] True)). wf_finding f \<and> utf8_finding f"
    by (simp add: two_report_def wf_finding_def utf8_finding_def status_defs utf8_ascii byte_Char)
  ultimately have "applyBaseline [''j'' \<mapsto> Encode (encode_report ''1970-01-01T01:00:00+01:00'' (two_report ''[seen-before] '' [] False))]
      (two_report [] [] True) ''j'' =
      Inr (marked (\<lambda>f. (\<exists>g \<in> set (r_findings (two_report [] [] True)). same_identity f g) \<and>
        \<not> (\<exists>g \<in> set [mk_finding ''x'' StatusWarning ''r'' []]. same_identity f g)) (two_report [] [] True))"
    using tagged_output_forgets [OF demo_base_loads, of "two_report [] [] True" _ _ _ _ "''j''" "two_report [] [] True"] pipes
    by (simp add: two_report_def report0_def pipe_free_def utf8_ascii byte_Char)
  with seen show ?thesis by (simp add: two_report_def marked_def mark_def mk_finding_def finding0_def)
qed

end
