(* ===== verification/WatchView.thy ===== *)
theory WatchView
  imports Watch Render
begin

section \<open>What khealth watch shows (the view of internal/watch/model.go)\<close>

text \<open>
  \<open>View\<close> and the functions it is made of, byte for byte up to the two things that come from
  outside: \<open>vw_paint\<close>, what a lipgloss style makes of a text, and \<open>vw_zone\<close>, the local time
  zone. The program keeps its own versions of the column functions of the renderers; they
  do not cut, so a long name pushes its row to the right.
\<close>

datatype view_style =
    TitleStyle | DimStyle | ErrStyle | CritStyle | WarnStyle | UnkStyle | OkStyle | SkipStyle
  | CheckStyle | NsStyle | NewRowStyle | PersistStyle | NoStyle

record view_world =
  vw_paint :: "view_style \<Rightarrow> string \<Rightarrow> string"
  vw_zone :: zone

definition statusStyle :: "status \<Rightarrow> view_style" where
  "statusStyle s =
     (if s = StatusCritical then CritStyle
      else if s = StatusWarning then WarnStyle
      else if s = StatusUnknown then UnkStyle
      else if s = StatusOK then OkStyle
      else if s = StatusSkipped then SkipStyle
      else NoStyle)"

definition statusIcon :: "status \<Rightarrow> string" where
  "statusIcon s =
     (if s = StatusCritical then [CHR 0xE2, CHR 0x9C, CHR 0x96]
      else if s = StatusWarning then [CHR 0xE2, CHR 0x9A, CHR 0xA0]
      else if s = StatusUnknown then ''?''
      else if s = StatusOK then [CHR 0xE2, CHR 0x9C, CHR 0x93]
      else if s = StatusSkipped then [CHR 0xE2, CHR 0x8F, CHR 0xAD]
      else [CHR 0xC2, CHR 0xB7])"

definition headerLine :: "view_world \<Rightarrow> model \<Rightarrow> string" where
  "headerLine w m =
     (let paint = vw_paint w;
          parts =
            [paint TitleStyle ''khealth watch''] @
            (if r_cluster (m_rep m) \<noteq> [] then [paint TitleStyle (r_cluster (m_rep m))] else []) @
            (if r_distro (m_rep m) \<noteq> [] then [paint DimStyle (''distro='' @ r_distro (m_rep m))] else []) @
            [paint DimStyle (''tick #'' @ itoa (int (m_runs m)))] @
            (if m_last_run m \<noteq> zero_time then
               [paint DimStyle (clock_layout (vw_zone w) (m_last_run m)),
                paint DimStyle (''('' @ duration_string (duration_round (m_last_dur m) 1000000) @ '')'')]
             else []) @
            [if m_paused m then paint WarnStyle ([CHR 0xE2, CHR 0x8F, CHR 0xB8] @ '' paused'')
             else paint OkStyle ([CHR 0xE2, CHR 0x8F, CHR 0xB5] @ '' live'')]
      in join (paint DimStyle ('' '' @ [CHR 0xC2, CHR 0xB7] @ '' '')) parts)"

definition footerLine :: "view_world \<Rightarrow> model \<Rightarrow> string" where
  "footerLine w m =
     vw_paint w DimStyle (join ''   ''
       [vw_paint w DimStyle ''[q]'' @ '' quit'', vw_paint w DimStyle ''[p]'' @ '' pause'',
        vw_paint w DimStyle ''[r]'' @ '' refresh''])"

subsection \<open>Rows\<close>

definition padRune :: "string \<Rightarrow> nat \<Rightarrow> string" where
  "padRune s w = (if int w - int (rune_count s) \<le> 0 then s else s @ replicate (w - rune_count s) (CHR '' ''))"

definition paddingTail :: "string \<Rightarrow> string" where
  "paddingTail s = rev (takeWhile (\<lambda>c. c = CHR '' '') (rev s))"

definition colorizeRes :: "view_world \<Rightarrow> string \<Rightarrow> string" where
  "colorizeRes w s =
     (case cut_at '' in ns/'' s of
        Some (hd_part, ns) \<Rightarrow>
          vw_paint w DimStyle hd_part @ vw_paint w DimStyle '' in ns/'' @
          vw_paint w NsStyle (trim_right ns '' '') @ paddingTail s
      | None \<Rightarrow> vw_paint w DimStyle s)"

definition renderRow :: "view_world \<Rightarrow> nat \<Rightarrow> nat \<Rightarrow> string set \<Rightarrow> finding \<Rightarrow> string" where
  "renderRow w checkW resW newKeys f =
     (let row = ''  '' @ vw_paint w (statusStyle (f_status f)) [CHR 0xE2, CHR 0x96, CHR 0x8C] @ ''  '' @
            vw_paint w CheckStyle (padRune (f_check f) checkW) @ ''  '' @
            colorizeRes w (padRune (or_dash (f_resource f)) resW) @ ''  '' @ f_message f
      in if Key f \<in> newKeys then vw_paint w NewRowStyle row else vw_paint w PersistStyle row)"

fun cols_loop :: "status list \<Rightarrow> finding list \<Rightarrow> nat \<times> nat \<Rightarrow> nat \<times> nat" where
  "cols_loop order [] acc = acc"
| "cols_loop order (f # fs) (checkW, resW) =
     (if f_status f \<notin> set order then cols_loop order fs (checkW, resW)
      else
        let n = rune_count (f_check f); m = rune_count (or_dash (f_resource f))
        in cols_loop order fs (if n > checkW then n else checkW, if m > resW then m else resW))"

definition compactCols :: "finding list \<Rightarrow> status list \<Rightarrow> nat \<times> nat" where
  "compactCols fs order =
     (let (checkW, resW) = cols_loop order fs (0, 0)
      in (if checkW > 32 then 32 else checkW, if resW > 56 then 56 else resW))"

subsection \<open>The body\<close>

definition view_order :: "status list" where
  "view_order = [StatusCritical, StatusUnknown, StatusWarning]"

definition view_section :: "view_world \<Rightarrow> nat \<Rightarrow> nat \<Rightarrow> string set \<Rightarrow> status \<Rightarrow> finding list \<Rightarrow> string" where
  "view_section w checkW resW newKeys s fs =
     (if fs = [] then []
      else
        line (vw_paint w (statusStyle s) (statusIcon s) @ ''  '' @
          vw_paint w TitleStyle (s @ '' ('' @ itoa (int (length fs)) @ '')'')) @
        concat (map (\<lambda>f. line (renderRow w checkW resW newKeys f)) (sort_findings fs)) @ line [])"

definition view_counts :: "view_world \<Rightarrow> finding list \<Rightarrow> finding list \<Rightarrow> string" where
  "view_counts w oks skips =
     (if oks = [] \<and> skips = [] then []
      else line (join ''   ''
        ((if oks \<noteq> [] then [vw_paint w OkStyle ([CHR 0xE2, CHR 0x9C, CHR 0x93] @ '' '' @ itoa (int (length oks)) @ '' OK'')] else []) @
         (if skips \<noteq> [] then [vw_paint w SkipStyle ([CHR 0xE2, CHR 0x8F, CHR 0xAD] @ '' '' @ itoa (int (length skips)) @ '' SKIP'')] else []))))"

definition findingsView :: "view_world \<Rightarrow> model \<Rightarrow> string" where
  "findingsView w m =
     (let fs = r_findings (m_rep m) in
      if fs = [] then vw_paint w OkStyle ([CHR 0xE2, CHR 0x9C, CHR 0x93] @ '' no findings'')
      else
        let bucket = bucketByStatus fs; (checkW, resW) = compactCols fs view_order
        in concat (map (\<lambda>s. view_section w checkW resW (m_new_keys m) s (bucket s)) view_order) @
           view_counts w (bucket StatusOK) (bucket StatusSkipped))"

fun count_loop :: "finding list \<Rightarrow> (status \<Rightarrow> int) \<Rightarrow> status \<Rightarrow> int" where
  "count_loop [] m = m"
| "count_loop (f # fs) m = count_loop fs (m(f_status f := m (f_status f) + 1))"

definition summaryLine :: "view_world \<Rightarrow> report \<Rightarrow> string" where
  "summaryLine w r =
     (let bucket = count_loop (r_findings r) (\<lambda>_. 0);
          part = (\<lambda>(s, style). vw_paint w style (itoa (bucket s) @ '' '' @ s));
          parts = map part [(StatusCritical, CritStyle), (StatusWarning, WarnStyle),
            (StatusUnknown, UnkStyle), (StatusSkipped, SkipStyle), (StatusOK, OkStyle)];
          worst = Worst r
      in vw_paint w DimStyle ''Summary: '' @
         join (vw_paint w DimStyle (''  '' @ [CHR 0xC2, CHR 0xB7] @ ''  '')) parts @
         vw_paint w DimStyle ''   worst='' @ vw_paint w (statusStyle worst) worst)"

definition View :: "view_world \<Rightarrow> model \<Rightarrow> string" where
  "View w m =
     (if m_quitting m then []
      else headerLine w m @ [CHR 0x0A, CHR 0x0A] @
        (case m_err m of
           Some e \<Rightarrow> line (vw_paint w ErrStyle (''error: '' @ e)) @ footerLine w m
         | None \<Rightarrow>
             if m_runs m = 0 then
               line (vw_paint w DimStyle (''loading'' @ [CHR 0xE2, CHR 0x80, CHR 0xA6])) @ footerLine w m
             else line (findingsView w m) @ line (summaryLine w (m_rep m)) @ footerLine w m))"

subsection \<open>Lemmas\<close>

lemma padRune_padRight: "padRune s w = padRight s w"
  by (simp add: padRune_def padRight_def)

lemma cols_loop_max:
  "cols_loop order fs (a, b) =
     (foldr (\<lambda>f. max (rune_count (f_check f))) (filter (\<lambda>f. f_status f \<in> set order) fs) a,
      foldr (\<lambda>f. max (rune_count (or_dash (f_resource f)))) (filter (\<lambda>f. f_status f \<in> set order) fs) b)"
proof (induction fs arbitrary: a b)
  case (Cons f fs)
  have comm: "foldr (\<lambda>f. max (g f)) xs (max (x :: nat) y) = max x (foldr (\<lambda>f. max (g f)) xs y)" for g xs x y
    by (induction xs) (auto simp: max.left_commute)
  have m: "(if n > c then n else c) = max n c" for n c :: nat by simp
  show ?case using Cons.IH by (simp add: Let_def m comm)
qed simp

lemma foldr_max_ge: "f \<in> set fs \<Longrightarrow> (g f :: nat) \<le> foldr (\<lambda>f. max (g f)) fs 0"
  by (induction fs) auto

lemma compactCols_bounds:
  assumes "compactCols fs order = (cw, rw)" and "f \<in> set fs" and "f_status f \<in> set order"
  shows "cw \<le> 32" and "rw \<le> 56" and "rune_count (f_check f) \<le> 32 \<Longrightarrow> rune_count (f_check f) \<le> cw"
    and "rune_count (or_dash (f_resource f)) \<le> 56 \<Longrightarrow> rune_count (or_dash (f_resource f)) \<le> rw"
proof -
  let ?fs = "filter (\<lambda>f. f_status f \<in> set order) fs"
  have f: "f \<in> set ?fs" using assms by simp
  show "cw \<le> 32" "rw \<le> 56" "rune_count (f_check f) \<le> 32 \<Longrightarrow> rune_count (f_check f) \<le> cw"
    "rune_count (or_dash (f_resource f)) \<le> 56 \<Longrightarrow> rune_count (or_dash (f_resource f)) \<le> rw"
    using assms(1) foldr_max_ge [OF f, of "\<lambda>f. rune_count (f_check f)"]
      foldr_max_ge [OF f, of "\<lambda>f. rune_count (or_dash (f_resource f))"]
    by (auto simp: compactCols_def cols_loop_max)
qed

lemma count_loop_eq: "count_loop fs m s = m s + int (length (filter (\<lambda>f. f_status f = s) fs))"
  by (induction fs arbitrary: m) auto


text \<open>The inner text of a row, and where it stands.\<close>

definition row_text :: "view_world \<Rightarrow> nat \<Rightarrow> nat \<Rightarrow> finding \<Rightarrow> string" where
  "row_text w checkW resW f =
     ''  '' @ vw_paint w (statusStyle (f_status f)) [CHR 0xE2, CHR 0x96, CHR 0x8C] @ ''  '' @
     vw_paint w CheckStyle (padRune (f_check f) checkW) @ ''  '' @
     colorizeRes w (padRune (or_dash (f_resource f)) resW) @ ''  '' @ f_message f"

lemma renderRow_text:
  "renderRow w cw rw new f =
     vw_paint w (if Key f \<in> new then NewRowStyle else PersistStyle) (row_text w cw rw f)"
  by (simp add: renderRow_def row_text_def)

lemma sublist_concat: "x \<in> set xs \<Longrightarrow> sublist (x :: 'a list) (concat xs)"
  by (induction xs) (auto intro: sublist_appendI sublist_order.order.trans [OF _ sublist_append_leftI])

lemma row_in_section:
  "f \<in> set fs \<Longrightarrow> sublist (line (renderRow w cw rw new f)) (view_section w cw rw new s fs)"
proof -
  assume f: "f \<in> set fs"
  then have "f \<in> set (sort_findings fs)" by (simp add: sort_findings_def)
  then have "sublist (line (renderRow w cw rw new f)) (concat (map (\<lambda>f. line (renderRow w cw rw new f)) (sort_findings fs)))"
    by (intro sublist_concat) auto
  then show ?thesis
    using f by (auto simp: view_section_def intro: sublist_order.order.trans)
qed

lemma row_in_findings:
  assumes "f \<in> set (r_findings (m_rep m))" and "f_status f \<in> set view_order"
    and "compactCols (r_findings (m_rep m)) view_order = (cw, rw)"
  shows "sublist (line (renderRow w cw rw (m_new_keys m) f)) (findingsView w m)"
proof -
  let ?sec = "\<lambda>s. view_section w cw rw (m_new_keys m) s (bucketByStatus (r_findings (m_rep m)) s)"
  have "sublist (line (renderRow w cw rw (m_new_keys m) f)) (?sec (f_status f))"
    using assms(1) by (intro row_in_section) (simp add: bucket_eq)
  moreover have "sublist (?sec (f_status f)) (concat (map ?sec view_order))"
    using assms(2) by (intro sublist_concat) auto
  moreover have "findingsView w m = concat (map ?sec view_order) @
      view_counts w (bucketByStatus (r_findings (m_rep m)) StatusOK) (bucketByStatus (r_findings (m_rep m)) StatusSkipped)"
    using assms(1,3) by (auto simp: findingsView_def Let_def)
  ultimately show ?thesis by (metis sublist_order.order.trans sublist_append_rightI)
qed

lemma View_body:
  assumes "\<not> m_quitting m" and "m_err m = None" and "m_runs m \<noteq> 0"
  shows "sublist (findingsView w m) (View w m)"
proof -
  have "View w m = (headerLine w m @ [CHR 0x0A, CHR 0x0A]) @ findingsView w m @
      ([CHR 0x0A] @ line (summaryLine w (m_rep m)) @ footerLine w m)"
    using assms by (simp add: View_def line_def)
  then show ?thesis unfolding sublist_def by blast
qed

subsection \<open>Properties\<close>

text \<open>
  C13. What the user of \<open>khealth watch\<close> sees: in every reachable session that has a report and no
  error, each CRIT, UNKNOWN and WARN finding of the last delivered report has its row on the
  screen, with check and resource padded to the columns of this report, and the row is the
  highlighted one exactly if the report delivered before it did not have the finding.
\<close>

theorem screen_shows_and_marks:
  assumes "watch_reaches interval l" and "\<not> l_quit l" and "m_err (l_model l) = None"
    and "l_done l = (n, rep) # rest" and "f \<in> set (r_findings rep)"
    and "f_status f \<in> {StatusCritical, StatusUnknown, StatusWarning}"
    and "compactCols (r_findings rep) view_order = (cw, rw)"
  shows "sublist
    (line (vw_paint w
       (if (case rest of [] \<Rightarrow> True | (n', rep') # _ \<Rightarrow> Key f \<in> Key ` set (r_findings rep'))
        then PersistStyle else NewRowStyle)
       (row_text w cw rw f)))
    (View w (l_model l))"
proof -
  let ?m = "l_model l"
  note inv = watch_reaches_inv [OF assms(1), unfolded loop_inv_def]
  have m: "m_rep ?m = rep" "m_runs ?m \<noteq> 0" "\<not> m_quitting ?m" using inv assms(2,4) by auto
  have new: "m_new_keys ?m =
      (case rest of [] \<Rightarrow> {} | (n', rep') # _ \<Rightarrow> Key ` set (r_findings rep) - Key ` set (r_findings rep'))"
    using inv assms(4) by (auto simp: keys_of_def split: list.splits)
  have "sublist (line (renderRow w cw rw (m_new_keys ?m) f)) (findingsView w ?m)"
    using assms(5,6,7) by (intro row_in_findings) (auto simp: m view_order_def)
  then have "sublist (line (renderRow w cw rw (m_new_keys ?m) f)) (View w ?m)"
    using View_body [of ?m w] m assms(3) sublist_order.order.trans by blast
  moreover have "Key f \<in> m_new_keys ?m \<longleftrightarrow>
      \<not> (case rest of [] \<Rightarrow> True | (n', rep') # _ \<Rightarrow> Key f \<in> Key ` set (r_findings rep'))"
    using assms(5) by (auto simp: new split: list.splits)
  ultimately show ?thesis unfolding renderRow_text by (simp split: if_splits)
qed

definition star_view :: view_world where
  "star_view = \<lparr>vw_paint = (\<lambda>st s. if st = NewRowStyle then ''*'' @ s else s), vw_zone = \<lparr>zn_offset = 0, zn_name = ''UTC''\<rparr>\<rparr>"

theorem screen_shows_and_marks_witness:
  "\<exists>l. watch_reaches 10 l \<and>
     sublist (line (''*  '' @ [CHR 0xE2, CHR 0x96, CHR 0x8C] @ ''  old  -  '')) (View star_view (l_model l))"
proof -
  obtain l where l: "watch_reaches 10 l"
      "l_done l = [(0, demo_report ''old''), (1, demo_report ''new'')]" "\<not> l_quit l" "m_err (l_model l) = None"
    using watch_demo by blast
  have cols: "compactCols (r_findings (demo_report ''old'')) view_order = (3, 1)" by code_simp
  have row: "row_text star_view 3 1 (mk_finding ''old'' StatusCritical [] []) =
      ''  '' @ [CHR 0xE2, CHR 0x96, CHR 0x8C] @ ''  old  -  ''"
    by code_simp
  show ?thesis
    using screen_shows_and_marks [OF l(1,3,4,2) _ _ cols, of "mk_finding ''old'' StatusCritical [] []" star_view] l(1)
    unfolding row by (intro exI [of _ l]) (simp add: demo_report_def Key_def status_defs star_view_def)
qed

text \<open>
  After a failed round the screen shows the error and none of the findings: as long as the
  error stands, the view is the same whatever the findings of the last report are, and leaving
  the error behind takes a delivered report.
\<close>

lemma error_hides_findings:
  assumes "m_err m = Some e"
  shows "View w (m\<lparr>m_rep := (m_rep m)\<lparr>r_findings := fs\<rparr>, m_new_keys := ks\<rparr>) = View w m \<and>
    (\<not> m_quitting m \<longrightarrow> sublist (vw_paint w ErrStyle (''error: '' @ e)) (View w m)) \<and>
    (m_err (fst (Update now m x)) = None \<longrightarrow> (\<exists>rep dur. x = ReportMsg rep dur))"
proof (intro conjI impI)
  show "View w (m\<lparr>m_rep := (m_rep m)\<lparr>r_findings := fs\<rparr>, m_new_keys := ks\<rparr>) = View w m"
    using assms by (simp add: View_def headerLine_def footerLine_def Let_def)
  assume "\<not> m_quitting m"
  then have "View w m = (headerLine w m @ [CHR 0x0A, CHR 0x0A]) @ vw_paint w ErrStyle (''error: '' @ e) @
      ([CHR 0x0A] @ footerLine w m)"
    using assms by (simp add: View_def line_def)
  then show "sublist (vw_paint w ErrStyle (''error: '' @ e)) (View w m)" unfolding sublist_def by blast
next
  assume "m_err (fst (Update now m x)) = None"
  then show "\<exists>rep dur. x = ReportMsg rep dur"
    using assms by (cases x) (auto split: if_splits)
qed

lemma error_hides_findings_example:
  "View star_view ((NewModel 10)\<lparr>m_err := Some ''boom'', m_rep := demo_report ''x''\<rparr>) = View star_view ((NewModel 10)\<lparr>m_err := Some ''boom''\<rparr>)"
  using error_hides_findings [of "(NewModel 10)\<lparr>m_err := Some ''boom''\<rparr>" "''boom''" star_view
      "{}" "r_findings (demo_report ''x'')"]
  by (simp add: NewModel_def demo_report_def)

end
