(* ===== verification/WatchLive.thy ===== *)
theory WatchLive
  imports Watch
begin

section \<open>The watch session over time\<close>

text \<open>
  Infinite sessions of the event loop of \<open>internal/watch\<close>: sequences of states that start in
  the initial one and take a step of \<open>loop_step\<close> each time (so the user never quits). What
  the loop relies on from outside is stated as two fairness conditions: the armed timer
  of \<open>tea.Tick\<close> fires again and again, and every round in flight returns (\<open>runOnce\<close> gives it
  a context that expires after 90 s).
\<close>

definition session :: "duration \<Rightarrow> (nat \<Rightarrow> loop) \<Rightarrow> bool" where
  "session interval \<sigma> \<longleftrightarrow> \<sigma> 0 = init_loop interval \<and> (\<forall>i. loop_step (\<sigma> i) (\<sigma> (Suc i)))"

definition tick_at :: "(nat \<Rightarrow> loop) \<Rightarrow> nat \<Rightarrow> bool" where
  "tick_at \<sigma> i \<longleftrightarrow> l_ticks (\<sigma> i) > 0 \<and>
     (\<exists>now. \<sigma> (Suc i) = deliver now TickMsg ((\<sigma> i)\<lparr>l_ticks := l_ticks (\<sigma> i) - 1\<rparr>))"

definition timer_fires :: "(nat \<Rightarrow> loop) \<Rightarrow> bool" where
  "timer_fires \<sigma> \<longleftrightarrow> (\<forall>i. \<exists>j \<ge> i. tick_at \<sigma> j)"

definition rounds_return :: "(nat \<Rightarrow> loop) \<Rightarrow> bool" where
  "rounds_return \<sigma> \<longleftrightarrow> (\<forall>i. \<forall>n \<in> set (l_running (\<sigma> i)). \<exists>j \<ge> i. n \<notin> set (l_running (\<sigma> j)))"

text \<open>The step after which the outcome of round \<open>n\<close> is in the model: its report, or its error.\<close>

definition outcome_shown :: "loop \<Rightarrow> nat \<Rightarrow> loop \<Rightarrow> bool" where
  "outcome_shown l n l' \<longleftrightarrow> n \<in> set (l_running l) \<and> n \<notin> set (l_running l') \<and>
     ((\<exists>rep. l_done l' = (n, rep) # l_done l \<and> m_rep (l_model l') = rep \<and> m_err (l_model l') = None) \<or>
      (\<exists>e. l_done l' = l_done l \<and> m_err (l_model l') = Some e))"

lemma session_reaches: "session interval \<sigma> \<Longrightarrow> watch_reaches interval (\<sigma> i)"
  unfolding watch_reaches_def
  by (induction i) (auto simp: session_def intro: rtranclp.rtrancl_into_rtrancl)

lemma step_next_mono: "loop_step l l' \<Longrightarrow> l_next l \<le> l_next l'"
  by (induction rule: loop_step.induct) (auto simp: deliver_def runOnce_def Diff_eq)

lemma session_next_mono:
  assumes "session interval \<sigma>"
  shows "i \<le> j \<Longrightarrow> l_next (\<sigma> i) \<le> l_next (\<sigma> j)"
proof (induction j rule: dec_induct)
  case (step j)
  then show ?case using assms step_next_mono [of "\<sigma> j" "\<sigma> (Suc j)"] by (simp add: session_def)
qed simp

text \<open>A round leaves the loop only by the message it ends with.\<close>

lemma leaves_shown:
  assumes "loop_step l l'" and "loop_inv l" and "n \<in> set (l_running l)" and "n \<notin> set (l_running l')"
  shows "outcome_shown l n l'"
  using assms
proof (cases rule: loop_step.cases)
  case (round_ok k now rep dur)
  then have "k = n" using assms(3,4) by (auto simp: deliver_def runOnce_def Diff_eq)
  then show ?thesis
    using round_ok assms(3) by (auto simp: outcome_shown_def deliver_def runOnce_def Diff_eq)
next
  case (round_err k now e dur)
  then show ?thesis using assms(3,4) by (auto simp: outcome_shown_def)
qed (auto split: if_splits)

lemma session_leaves:
  assumes "session interval \<sigma>" and "n \<in> set (l_running (\<sigma> i))" and "i \<le> j" and "n \<notin> set (l_running (\<sigma> j))"
  shows "\<exists>k \<ge> i. outcome_shown (\<sigma> k) n (\<sigma> (Suc k))"
  using assms(3,4)
proof (induction j rule: dec_induct)
  case base
  then show ?case using assms(2) by simp
next
  case (step j)
  show ?case
  proof (cases "n \<in> set (l_running (\<sigma> j))")
    case True
    then have "outcome_shown (\<sigma> j) n (\<sigma> (Suc j))"
      using step.prems assms(1) leaves_shown watch_reaches_inv session_reaches
      unfolding session_def by blast
    then show ?thesis using step.hyps by blast
  qed (rule step.IH)
qed

lemma tick_starts_round:
  assumes "tick_at \<sigma> i" and "\<not> m_paused (l_model (\<sigma> i))"
  shows "l_next (\<sigma> i) \<in> set (l_running (\<sigma> (Suc i)))"
  using assms by (auto simp: tick_at_def)

subsection \<open>Properties\<close>

text \<open>
  C5. The screen keeps being refreshed: in every infinite session in which the timer keeps
  firing and every round returns, after any moment from which the watch is not paused there
  comes a step that puts into the model the report or the error of a round started after
  that moment.
\<close>

theorem screen_keeps_refreshing:
  assumes "session interval \<sigma>" and "timer_fires \<sigma>" and "rounds_return \<sigma>"
    and "\<And>j. i \<le> j \<Longrightarrow> \<not> m_paused (l_model (\<sigma> j))"
  shows "\<exists>k \<ge> i. \<exists>n \<ge> l_next (\<sigma> i). outcome_shown (\<sigma> k) n (\<sigma> (Suc k))"
proof -
  obtain t where t: "i \<le> t" "tick_at \<sigma> t" using assms(2) unfolding timer_fires_def by blast
  let ?n = "l_next (\<sigma> t)"
  have run: "?n \<in> set (l_running (\<sigma> (Suc t)))" using t assms(4) tick_starts_round by blast
  then obtain j where "Suc t \<le> j" "?n \<notin> set (l_running (\<sigma> j))"
    using assms(3) unfolding rounds_return_def by blast
  then obtain k where "Suc t \<le> k" "outcome_shown (\<sigma> k) ?n (\<sigma> (Suc k))"
    using session_leaves [OF assms(1) run] by blast
  moreover have "l_next (\<sigma> i) \<le> ?n" using session_next_mono [OF assms(1) t(1)] .
  ultimately show ?thesis using t(1) by (meson Suc_leD le_trans)
qed

definition calm_next :: "loop \<Rightarrow> loop" where
  "calm_next l =
     (case l_running l of
        [] \<Rightarrow> deliver 0 TickMsg (l\<lparr>l_ticks := l_ticks l - 1\<rparr>)
      | n # ns \<Rightarrow> deliver 0 (runOnce (Inr (demo_report ''a'')) 0)
          (l\<lparr>l_running := removeAll n (l_running l), l_done := (n, demo_report ''a'') # l_done l\<rparr>))"

definition calm :: "nat \<Rightarrow> loop" where
  "calm i = (calm_next ^^ i) (init_loop 10)"

lemma calm_Suc: "calm (Suc i) = calm_next (calm i)"
  by (simp add: calm_def)

definition calm_state :: "nat \<Rightarrow> loop \<Rightarrow> bool" where
  "calm_state i l \<longleftrightarrow> l_running l = (if even i then [i div 2] else []) \<and> l_next l = Suc (i div 2) \<and>
     l_ticks l = 1 \<and> \<not> l_quit l \<and> \<not> m_paused (l_model l)"

lemma calm_inv: "calm_state i (calm i)"
proof (induction i)
  case 0
  show ?case by (simp add: calm_state_def calm_def init_loop_def Init_def NewModel_def)
next
  case (Suc i)
  then show ?case
    by (cases "even i")
      (auto simp: calm_state_def calm_Suc calm_next_def deliver_def runOnce_def Diff_eq elim: oddE)
qed

lemma calm_session: "session 10 calm"
  unfolding session_def
proof (intro conjI allI)
  show "calm 0 = init_loop 10" by (simp add: calm_def)
  fix i
  note inv = calm_inv [of i, unfolded calm_state_def]
  show "loop_step (calm i) (calm (Suc i))"
  proof (cases "even i")
    case True
    then have "calm (Suc i) = deliver 0 (runOnce (Inr (demo_report ''a'')) 0)
        (calm i\<lparr>l_running := removeAll (i div 2) (l_running (calm i)),
                l_done := (i div 2, demo_report ''a'') # l_done (calm i)\<rparr>)"
      using inv by (simp add: calm_Suc calm_next_def)
    then show ?thesis using inv True loop_step.round_ok [of "calm i" "i div 2"] by simp
  next
    case False
    then have "calm (Suc i) = deliver 0 TickMsg (calm i\<lparr>l_ticks := l_ticks (calm i) - 1\<rparr>)"
      using inv by (simp add: calm_Suc calm_next_def)
    then show ?thesis using inv loop_step.tick [of "calm i" 0] by simp
  qed
qed

lemma calm_fair: "timer_fires calm" "rounds_return calm"
proof -
  have "tick_at calm (Suc (2 * i))" for i
    using calm_inv [of "Suc (2 * i)"] unfolding tick_at_def calm_Suc [of "Suc (2 * i)"]
    by (auto simp: calm_state_def calm_next_def)
  moreover have "i \<le> Suc (2 * i)" for i :: nat by simp
  ultimately show "timer_fires calm" unfolding timer_fires_def by blast
  have "l_running (calm (Suc (2 * i))) = []" for i
    using calm_inv [of "Suc (2 * i)"] by (simp add: calm_state_def)
  moreover have "i \<le> Suc (2 * i)" for i :: nat by simp
  ultimately show "rounds_return calm" unfolding rounds_return_def by (metis empty_iff empty_set)
qed

theorem screen_keeps_refreshing_witness:
  "\<exists>k \<ge> 5. \<exists>n \<ge> 3. outcome_shown (calm k) n (calm (Suc k))"
  using screen_keeps_refreshing [OF calm_session calm_fair, of 5] calm_inv
  by (simp add: calm_state_def)

end
