(* ===== verification/Commands.thy ===== *)
theory Commands
  imports Cli AllChecks Watch
begin

section \<open>The command tree (internal/cli, internal/version)\<close>

text \<open>
  What each subcommand of \<open>khealth\<close> does once cobra has parsed the command line: the tables of
  the scopes of \<open>check\<close> and \<open>watch\<close>, the defaults of the flags, the stubs of \<open>test\<close>, \<open>version\<close>, and
  the hidden \<open>etcd-probe\<close>. A command name is \<open>None\<close> when the tree has no such subcommand.
  Parameters (record \<open>app\<close>): those of the \<open>check\<close> command, the build variables that the linker
  sets, the result of bubbletea's event loop when it is started in a state, and for the probe the
  etcd client and the variable \<open>KHEALTH_ETCD_ENDPOINTS\<close>.
\<close>

subsection \<open>Scopes and defaults\<close>

definition check_scopes :: "(string \<times> string list) list" where
  "check_scopes =
    [(''cluster'', []),
     (''pods'', [CategoryWorkload]),
     (''nodes'', [CategoryNode]),
     (''controlplane'', [CategoryControlPlane]),
     (''etcd'', [CategoryControlPlane]),
     (''events'', [CategoryEvents])]"

definition watch_scopes :: "(string \<times> string list) list" where
  "watch_scopes =
    [(''cluster'', []),
     (''pods'', [CategoryWorkload]),
     (''nodes'', [CategoryNode]),
     (''controlplane'', [CategoryControlPlane]),
     (''etcd'', [CategoryControlPlane]),
     (''events'', [CategoryEvents])]"

definition default_flags :: cli_flags where
  "default_flags = \<lparr>g_kubeconfig = [], g_context = [], g_namespace = [], g_all_namespaces = False,
     g_launch_mode = ''auto'', g_output = ''pretty'', g_only_unhealthy = False, g_strict = False,
     g_checks = [], g_skip_checks = [], g_distro = ''auto'', g_baseline = [], g_save_baseline = [],
     g_timeout = ''2m'', g_log_level = ''info'', g_config = [],
     g_etcd = \<lparr>ef_mode = ''auto'', ef_endpoints = [], ef_ca = [], ef_cert = [], ef_key = [],
       ef_job_image = [], ef_quota = 0\<rparr>\<rparr>"

definition default_interval :: duration where
  "default_interval = 10 * 1000000000"

subsection \<open>version and test\<close>

record version_info =
  vi_version :: string
  vi_commit :: string
  vi_date :: string

definition dev_build :: version_info where
  "dev_build = \<lparr>vi_version = ''dev'', vi_commit = ''none'', vi_date = ''unknown''\<rparr>"

definition encode_info :: "version_info \<Rightarrow> json" where
  "encode_info v = JObj [(''version'', JStr (vi_version v)), (''commit'', JStr (vi_commit v)),
     (''date'', JStr (vi_date v))]"

definition version_text :: "version_info \<Rightarrow> bool \<Rightarrow> string" where
  "version_text v asJSON =
     (if asJSON then Encode (encode_info v)
      else line (''khealth '' @ vi_version v @ '' (commit '' @ vi_commit v @ '', built '' @ vi_date v @ '')''))"

definition test_verbs :: "string list" where
  "test_verbs = [''run'', ''lint'', ''list'']"

definition test_text :: "cli_flags \<Rightarrow> string \<Rightarrow> string list \<Rightarrow> string" where
  "test_text g verb args =
     line (''khealth test '' @ verb @ '': not yet implemented (output='' @ g_output g @ '', paths=['' @
       join '' '' args @ ''])'')"

subsection \<open>The commands\<close>

datatype command =
    CheckCommand string
  | WatchCommand string duration
  | TestCommand string "string list"
  | VersionCommand bool
  | EtcdProbeCommand

record 'e app =
  ap_check :: "'e check_params"
  ap_out :: out_params
  ap_build :: version_info
  ap_tea :: "loop \<Rightarrow> string option"
  ap_etcd :: direct_world
  ap_endpoints :: string

definition print_cmd :: "out_params \<Rightarrow> (string \<rightharpoonup> string) \<Rightarrow> string \<Rightarrow> outcome" where
  "print_cmd q files s =
     (let (out, e) = emit (op_write_err q) 0 [s]
      in \<lparr>o_files = files, o_stdout = out, o_stderr = [], o_err = map_option CommandErr e\<rparr>)"

definition watch_cmd :: "(loop \<Rightarrow> string option) \<Rightarrow> duration \<Rightarrow> cli_error option" where
  "watch_cmd tea interval =
     (if interval \<le> 0 then
        Some (CommandErr (''--interval must be positive (got '' @ duration_string interval @ '')''))
      else
        case Run_guard True interval of
          Some e \<Rightarrow> Some (CommandErr e)
        | None \<Rightarrow> map_option CommandErr (tea (init_loop interval)))"

text \<open>One round of \<open>watch\<close>: \<open>runChecks\<close>, with the text of its error.\<close>

definition watch_round ::
  "(cli_error \<Rightarrow> string) \<Rightarrow> 'e check_params \<Rightarrow> cli_flags \<Rightarrow> string list \<Rightarrow> string + report" where
  "watch_round show_err p g cats =
     (case runChecks p g cats of Inl e \<Rightarrow> Inl (show_err e) | Inr rep \<Rightarrow> Inr rep)"

text \<open>The probe prints its line, ignoring write errors, or returns its error.\<close>

definition probe_cmd ::
  "out_params \<Rightarrow> (string \<rightharpoonup> string) \<Rightarrow> string option \<times> string \<times> string option \<Rightarrow> outcome" where
  "probe_cmd q files r =
     (case r of
        (printed, errs, err) \<Rightarrow>
          \<lparr>o_files = files,
           o_stdout = (case (printed, err) of
              (Some s, None) \<Rightarrow> fst (emit (op_write_err q) 0 [line s]) | _ \<Rightarrow> []),
           o_stderr = errs, o_err = map_option CommandErr err\<rparr>)"

definition RunE :: "'e app \<Rightarrow> cli_flags \<Rightarrow> command \<Rightarrow> (string \<rightharpoonup> string) \<Rightarrow> outcome option" where
  "RunE a g c files =
     (case c of
        CheckCommand scope \<Rightarrow>
          map_option (\<lambda>cats. check_cmd (ap_check a) (ap_out a) g cats files) (map_of check_scopes scope)
      | WatchCommand scope interval \<Rightarrow>
          map_option (\<lambda>cats. \<lparr>o_files = files, o_stdout = [], o_stderr = [], o_err = watch_cmd (ap_tea a) interval\<rparr>)
            (map_of watch_scopes scope)
      | TestCommand verb args \<Rightarrow>
          (if verb \<in> set test_verbs then Some (print_cmd (ap_out a) files (test_text g verb args)) else None)
      | VersionCommand asJSON \<Rightarrow> Some (print_cmd (ap_out a) files (version_text (ap_build a) asJSON))
      | EtcdProbeCommand \<Rightarrow> Some (probe_cmd (ap_out a) files
          (etcd_probe (ap_etcd a) (zn_offset (ow_zone (op_world (ap_out a)))) (ap_endpoints a))))"



text \<open>
  The session of \<open>khealth watch\<close>: the event loop of \<open>Watch\<close> in which round \<open>n\<close> ends with the
  result \<open>res n\<close> of the function given to \<open>watch.Run\<close>.
\<close>

inductive scope_step :: "(nat \<Rightarrow> string + report) \<Rightarrow> loop \<Rightarrow> loop \<Rightarrow> bool" for res where
  fire: "\<not> l_quit l \<Longrightarrow> l_ticks l > 0 \<Longrightarrow>
     scope_step res l (deliver now TickMsg (l\<lparr>l_ticks := l_ticks l - 1\<rparr>))"
| finish: "\<not> l_quit l \<Longrightarrow> n \<in> set (l_running l) \<Longrightarrow>
     scope_step res l (deliver now (runOnce (res n) dur)
       (l\<lparr>l_running := removeAll n (l_running l),
          l_done := (case res n of Inl e \<Rightarrow> l_done l | Inr rep \<Rightarrow> (n, rep) # l_done l)\<rparr>))"
| press: "\<not> l_quit l \<Longrightarrow> scope_step res l (deliver now (KeyMsg k) l)"
| window: "\<not> l_quit l \<Longrightarrow> scope_step res l (deliver now (WindowSizeMsg w h) l)"

definition scope_reaches :: "(nat \<Rightarrow> string + report) \<Rightarrow> duration \<Rightarrow> loop \<Rightarrow> bool" where
  "scope_reaches res interval l \<longleftrightarrow> (scope_step res)\<^sup>*\<^sup>* (init_loop interval) l"

subsection \<open>Lemmas\<close>

lemma scopes_agree: "check_scopes = watch_scopes"
  by (simp add: check_scopes_def watch_scopes_def)

lemma version_json_reads_back:
  assumes "utf8_string (vi_version v)" and "utf8_string (vi_commit v)" and "utf8_string (vi_date v)"
  shows "json_parse (version_text v True) = Some (encode_info v)"
proof -
  have "integral (encode_info v)" "depth (encode_info v) \<le> 10000" "utf8_json (encode_info v)"
    using assms by (simp_all add: encode_info_def utf8_ascii byte_Char)
  then show ?thesis by (simp add: version_text_def parse_print(3) clean_utf8)
qed

lemma scope_step_loop_step: "scope_step res l l' \<Longrightarrow> loop_step l l'"
proof (induction rule: scope_step.induct)
  case (finish l n now dur)
  show ?case
  proof (cases "res n")
    case (Inl e)
    then show ?thesis using loop_step.round_err [OF finish(1,2), of now e dur] by simp
  next
    case (Inr rep)
    then show ?thesis using loop_step.round_ok [OF finish(1,2), of now rep dur] by simp
  qed
qed (blast intro: loop_step.intros)+

lemma scope_reaches_watch_reaches: "scope_reaches res interval l \<Longrightarrow> watch_reaches interval l"
  unfolding scope_reaches_def watch_reaches_def
  by (induction rule: rtranclp_induct) (auto intro: rtranclp.rtrancl_into_rtrancl scope_step_loop_step)

lemma issue_done: "l_done (issue cs l) = l_done l"
  by (induction cs l rule: issue.induct) auto

lemma deliver_done: "l_done (deliver now x l) = l_done l"
  by (simp add: deliver_def issue_done split: prod.splits)

lemma scope_done: "scope_reaches res interval l \<Longrightarrow> (n, rep) \<in> set (l_done l) \<Longrightarrow> res n = Inr rep"
  unfolding scope_reaches_def
proof (induction arbitrary: n rep rule: rtranclp_induct)
  case base
  then show ?case by (simp add: init_loop_def issue_done)
next
  case (step l l')
  from step(2) show ?case
    using step.IH step.prems
    by cases (auto simp: deliver_done simp del: deliver_simps split: sum.splits)
qed

text \<open>\<open>--log-level\<close> and \<open>--config\<close> are read by nothing.\<close>

lemma kube_options_inert: "kube_options_for (g\<lparr>g_log_level := a, g_config := b\<rparr>) = kube_options_for g"
  by (simp add: kube_options_for_def)

lemma inert_sel:
  "g_checks (g\<lparr>g_log_level := a, g_config := b\<rparr>) = g_checks g"
  "g_skip_checks (g\<lparr>g_log_level := a, g_config := b\<rparr>) = g_skip_checks g"
  "g_only_unhealthy (g\<lparr>g_log_level := a, g_config := b\<rparr>) = g_only_unhealthy g"
  "g_timeout (g\<lparr>g_log_level := a, g_config := b\<rparr>) = g_timeout g"
  "g_distro (g\<lparr>g_log_level := a, g_config := b\<rparr>) = g_distro g"
  "g_output (g\<lparr>g_log_level := a, g_config := b\<rparr>) = g_output g"
  "g_baseline (g\<lparr>g_log_level := a, g_config := b\<rparr>) = g_baseline g"
  "g_save_baseline (g\<lparr>g_log_level := a, g_config := b\<rparr>) = g_save_baseline g"
  "g_strict (g\<lparr>g_log_level := a, g_config := b\<rparr>) = g_strict g"
  by simp_all

lemma runChecks_inert: "runChecks p (g\<lparr>g_log_level := a, g_config := b\<rparr>) cats = runChecks p g cats"
  unfolding runChecks_def kube_options_inert inert_sel ..

lemma report_stage_inert:
  "report_stage q (g\<lparr>g_log_level := a, g_config := b\<rparr>) files rep = report_stage q g files rep"
  unfolding report_stage_def writeReport_def inert_sel ..

lemma inert_flags:
  "RunE app (g\<lparr>g_log_level := a, g_config := b\<rparr>) c files = RunE app g c files"
  unfolding RunE_def check_cmd_def runChecks_inert report_stage_inert test_text_def inert_sel ..

lemma registry_selection:
  assumes "register_all default_checks NewRegistry = Inr r"
  shows "Filter_checks r [] [] cats d =
    filter (\<lambda>c. (cats = [] \<or> set (chk_cats c) \<inter> set cats \<noteq> {}) \<and>
        (d \<noteq> [] \<and> d \<noteq> DistroAuto \<longrightarrow> AppliesToDistro c d)) (sort_key chk_id default_checks)"
proof -
  have "All_checks r = sort_key chk_id default_checks"
    using register_distinct [OF default_ids_distinct] assms by auto
  then show ?thesis
    by (auto simp: Filter_checks_eq keeps_def stringSet_def categoryMatch_iff split: if_splits intro!: filter_cong)
qed

lemma selected_ids:
  assumes "register_all default_checks NewRegistry = Inr r"
  shows "chk_id ` set (Filter_checks r [] [] cats d) =
    set (map chk_id (filter (\<lambda>c. (cats = [] \<or> list_ex (\<lambda>x. x \<in> set cats) (chk_cats c)) \<and>
        (d \<noteq> [] \<and> d \<noteq> DistroAuto \<longrightarrow> AppliesToDistro c d)) default_checks))"
  unfolding registry_selection [OF assms] by (auto simp: list_ex_iff)




subsection \<open>Properties\<close>

text \<open>The ids of the checks a scope of \<open>khealth check\<close> selects, with the default flags.\<close>

definition scope_ids :: "'e registry \<Rightarrow> string \<Rightarrow> string \<Rightarrow> string set" where
  "scope_ids r scope d =
     (case map_of check_scopes scope of
        None \<Rightarrow> {}
      | Some cats \<Rightarrow> chk_id ` set (Filter_checks r (g_checks default_flags) (g_skip_checks default_flags) cats d))"

definition rke2_ids :: "string \<Rightarrow> string set" where
  "rke2_ids d = (if d = DistroRKE2 then {''rke2.helmInstallJobs'', ''rke2.snapshots.recent''} else {})"

definition workload_ids :: "string set" where
  "workload_ids =
     {''argocd.apps.outOfSync'', ''argocd.apps.unhealthy'', ''daemonsets.rollout'',
      ''deployments.rollout'', ''hpas.missingTarget'', ''pdbs.coverage'', ''pdbs.misconfigured'',
      ''pods.backoff'', ''pods.missingRefs'', ''pods.notReady'', ''pods.oomKilled'',
      ''pods.pending'', ''pods.restarts'', ''statefulsets.rollout''}"

definition node_ids :: "string set" where
  "node_ids =
     {''kubelet.healthz'', ''nodes.disk'', ''nodes.pressure'', ''nodes.ready'', ''nodes.cpu'',
      ''nodes.memory'', ''nodes.unschedulable'', ''nodes.versionSkew''}"

definition control_plane_ids :: "string set" where
  "control_plane_ids =
     {''apiserver.certExpiry'', ''apiserver.healthz'', ''apiservices.available'',
      ''certmanager.certificates.notReady'', ''controllerMgr.healthz'',
      ''controlplane.endpoints'', ''coredns.replicas'', ''etcd.health'', ''etcd.size'',
      ''etcd.defrag'', ''etcd.members'', ''namespaces.stuckTerminating'', ''rbac.wildcardVerbs'',
      ''scheduler.healthz'', ''webhooks.timeout''}"

definition storage_ids :: "string set" where
  "storage_ids =
     {''longhorn.volumes.degraded'', ''pvc.lostBoundPV'', ''pv.releasedNotReclaimed'',
      ''volumeattachments.failed'', ''pvc.pending'', ''storageclass.default''}"

definition network_ids :: "string set" where
  "network_ids =
     {''ingresses.danglingService'', ''ingresses.missingClass'', ''services.noBackends'',
      ''services.noEndpoints''}"

definition events_ids :: "string set" where
  "events_ids =
     {''events.warnings''}"

lemmas id_defs = workload_ids_def node_ids_def control_plane_ids_def storage_ids_def network_ids_def events_ids_def rke2_ids_def

text \<open>The three columns of the default registry that filtering reads.\<close>

definition default_rows :: "(string \<times> string list \<times> string list option) list" where
  "default_rows = map (\<lambda>c. (chk_id c, chk_cats c, chk_distros c)) default_checks"

definition row_ids :: "string list \<Rightarrow> string \<Rightarrow> string set" where
  "row_ids cats d = set (map fst (filter (\<lambda>(i, cs, ds).
     (cats = [] \<or> list_ex (\<lambda>x. x \<in> set cats) cs) \<and>
     (case ds of None \<Rightarrow> True | Some l \<Rightarrow> d \<in> set l)) default_rows))"

lemma selected_row_ids:
  assumes "register_all default_checks NewRegistry = Inr r" and "d \<in> set AllDistros"
  shows "chk_id ` set (Filter_checks r [] [] cats d) = row_ids cats d"
proof -
  have "d \<noteq> [] \<and> d \<noteq> DistroAuto" using assms(2) by (auto simp: AllDistros_def distro_defs)
  then show ?thesis
    unfolding selected_ids [OF assms(1)] row_ids_def default_rows_def
    by (simp add: filter_map comp_def AppliesToDistro_iff)
qed

definition all_categories :: "string list" where
  "all_categories = [CategoryWorkload, CategoryNode, CategoryControlPlane, CategoryEvents, CategoryStorage,
     CategoryNetwork]"

lemmas category_defs = CategoryWorkload_def CategoryNode_def CategoryControlPlane_def CategoryEvents_def
  CategoryStorage_def CategoryNetwork_def

lemma row_ids_category:
  "row_ids [CategoryWorkload] d = workload_ids" "row_ids [CategoryNode] d = node_ids"
  "row_ids [CategoryStorage] d = storage_ids" "row_ids [CategoryNetwork] d = network_ids"
  "row_ids [CategoryEvents] d = events_ids"
  unfolding row_ids_def default_rows_def default_checks_def check_defs id_defs
  by (simp_all add: category_defs)

lemma row_ids_control_plane:
  "row_ids [CategoryControlPlane] d = control_plane_ids \<union> rke2_ids d"
proof (cases "d = DistroRKE2")
  case True
  then show ?thesis
    unfolding row_ids_def default_rows_def default_checks_def check_defs id_defs
    by (simp add: category_defs insert_commute)
next
  case False
  then show ?thesis
    unfolding row_ids_def default_rows_def default_checks_def check_defs id_defs
    by (simp add: category_defs)
qed

lemma row_ids_all: "row_ids [] d = (\<Union>c \<in> set all_categories. row_ids [c] d)"
proof -
  have "list_all (\<lambda>(i, cs, ds). cs \<noteq> [] \<and> set cs \<subseteq> set all_categories) default_rows"
    unfolding default_rows_def default_checks_def check_defs all_categories_def by simp
  then have "c \<in> set default_rows \<Longrightarrow> \<exists>x \<in> set (fst (snd c)). x \<in> set all_categories" for c
    by (cases c) (fastforce simp: list_all_iff neq_Nil_conv)
  then show ?thesis
    by (auto simp: row_ids_def list_ex_iff image_iff split: prod.splits) (metis fst_conv snd_conv)+
qed

text \<open>
  C9. What the scopes of \<open>khealth check\<close> (and of \<open>khealth watch\<close>, whose table is the same) run
  on a known distribution: \<open>etcd\<close> runs the whole control plane, exactly as \<open>controlplane\<close> does,
  and the checks of storage and networking are in no scope but \<open>cluster\<close>, which runs them all.
\<close>

theorem scope_selection:
  assumes "register_all default_checks NewRegistry = Inr r" and "d \<in> set AllDistros"
  shows "scope_ids r ''pods'' d = workload_ids \<and>
    scope_ids r ''nodes'' d = node_ids \<and>
    scope_ids r ''controlplane'' d = control_plane_ids \<union> rke2_ids d \<and>
    scope_ids r ''etcd'' d = scope_ids r ''controlplane'' d \<and>
    scope_ids r ''events'' d = events_ids \<and>
    scope_ids r ''cluster'' d = workload_ids \<union> node_ids \<union> control_plane_ids \<union> rke2_ids d \<union> events_ids \<union>
      storage_ids \<union> network_ids \<and>
    map_of watch_scopes = map_of check_scopes"
proof -
  have "scope_ids r scope d = (case map_of check_scopes scope of None \<Rightarrow> {} | Some cats \<Rightarrow> row_ids cats d)" for scope
    by (simp add: scope_ids_def default_flags_def selected_row_ids [OF assms] split: option.splits)
  then show ?thesis
    by (simp add: check_scopes_def watch_scopes_def row_ids_category row_ids_control_plane row_ids_all
        all_categories_def Un_assoc)
qed

theorem scope_selection_witness:
  "\<exists>r. register_all default_checks NewRegistry = Inr r \<and>
     ''rbac.wildcardVerbs'' \<in> scope_ids r ''etcd'' DistroK3s \<and>
     ''storageclass.default'' \<notin> scope_ids r ''etcd'' DistroK3s"
proof -
  obtain r where r: "register_all default_checks NewRegistry = Inr r"
    using register_distinct [OF default_ids_distinct] by blast
  have d: "DistroK3s \<in> set AllDistros" by (simp add: AllDistros_def)
  show ?thesis
    using scope_selection [OF r d] r by (simp add: control_plane_ids_def rke2_ids_def distro_defs)
qed








definition demo_app :: "unit app" where
  "demo_app = \<lparr>ap_check = format_params, ap_out = piped_out, ap_build = dev_build,
     ap_tea = (\<lambda>_. None), ap_etcd = demo_direct, ap_endpoints = ''b''\<rparr>"


text \<open>A probe of which the one member does not answer: an error on the standard error, and exit 0.\<close>

lemma probe_error_exits_zero:
  "\<exists>out. RunE demo_app g EtcdProbeCommand files = Some out \<and> main_exit (o_err out) = 0 \<and>
     o_stderr out \<noteq> [] \<and> o_stdout out \<noteq> []"
proof -
  let ?opts = "(probe_options ''b'')\<lparr>eo_quota := 8 * 1024 * 1024 * 1024\<rparr>"
  have "fst (collectDirect demo_direct ?opts) \<noteq> None"
    by (simp add: collectDirect_def demo_direct_def probe_options_def buildTLS_def Let_def)
  then obtain st err where st: "collectDirect demo_direct ?opts = (Some st, err)"
    by (metis prod.collapse option.exhaust)
  have "aggregated st" "es_members st = map (direct_member demo_direct) [''b'']" "err = None \<longleftrightarrow> es_reachable st"
    using collectDirect_status [OF st] by (simp_all add: probe_options_def)
  then obtain e where e: "err = Some e"
    by (auto simp: aggregated_def direct_member_def demo_direct_def new_member_def)
  have "es_collected st = 5" using direct_now [OF st] by (simp add: demo_direct_def)
  moreover have "json_time 3600 5 = Some ''1970-01-01T01:00:00.000000005+01:00''" by code_simp
  ultimately have "\<exists>l. etcd_probe demo_direct 3600 ''b'' = (Some l, ''etcd-probe: '' @ err_text e @ [CHR 0x0A], None)"
    using etcd_probe_cases(2) [OF st refl, of 3600] e by (simp add: marshal_status_def Let_def)
  then obtain l where "etcd_probe demo_direct 3600 ''b'' = (Some l, ''etcd-probe: '' @ err_text e @ [CHR 0x0A], None)" ..
  then show ?thesis by (simp add: RunE_def demo_app_def piped_out_def probe_cmd_def main_exit_def line_def)
qed

end
