(* ===== verification/EtcdJobs.thy ===== *)
theory EtcdJobs
  imports EtcdChecks
begin

section \<open>Four probe jobs at once (the etcd checks in mode in-cluster)\<close>

text \<open>
  Each of the four etcd checks collects for itself, and the runner starts them together on its
  workers. In mode in-cluster each then creates a probe job, whose name is made of the Unix time
  in seconds. A step relation over the jobs that exist, one action of one party at a time: time
  passes, a check reads the clock for the name of its job, its \<open>Create\<close> reaches the server or fails,
  it ends with an answer (the first poll is two seconds after the creation) or without one (a cancelled
  context, no pod, no log), deleting its job in both cases, and the server removes a job after the
  time to live of one second that its manifest sets. Any time may pass between two actions of a check. Nobody
  else deletes these jobs, and the clocks of the launcher and the server agree on the second.
\<close>

subsection \<open>The jobs of the namespace\<close>

text \<open>
  Where a call of \<open>InClusterJob\<close> is. The first number is the second its job is named after, the
  second one the second in which its \<open>Create\<close> took effect at the server.
\<close>

datatype probe_phase =
    Waiting
  | Named int
  | Holding int int
  | Answered int int
  | Abandoned int int
  | Refused int

record job_server =
  js_clock :: int
  js_jobs :: "string set"
  js_phase :: "string \<Rightarrow> probe_phase"

definition set_phase :: "string \<Rightarrow> probe_phase \<Rightarrow> job_server \<Rightarrow> job_server" where
  "set_phase i p s = s\<lparr>js_phase := (js_phase s)(i := p)\<rparr>"

definition add_job :: "int \<Rightarrow> job_server \<Rightarrow> job_server" where
  "add_job t s = s\<lparr>js_jobs := insert (probe_job_name t) (js_jobs s)\<rparr>"

definition drop_job :: "int \<Rightarrow> job_server \<Rightarrow> job_server" where
  "drop_job t s = s\<lparr>js_jobs := js_jobs s - {probe_job_name t}\<rparr>"

text \<open>
  \<open>Create\<close> may fail for any reason (\<open>refuse\<close>), also after the server has done it (\<open>lost_reply\<close>), but
  it never succeeds for a name that is taken. The error of the deferred \<open>Delete\<close> is dropped, so the
  job may stay.
\<close>

inductive probe_step :: "job_server \<Rightarrow> job_server \<Rightarrow> bool" where
  tick: "probe_step s (s\<lparr>js_clock := js_clock s + 1\<rparr>)"
| name: "js_phase s i = Waiting \<Longrightarrow> probe_step s (set_phase i (Named (js_clock s)) s)"
| create: "js_phase s i = Named t \<Longrightarrow> probe_job_name t \<notin> js_jobs s \<Longrightarrow>
    probe_step s (set_phase i (Holding t (js_clock s)) (add_job t s))"
| refuse: "js_phase s i = Named t \<Longrightarrow> probe_step s (set_phase i (Refused t) s)"
| lost_reply: "js_phase s i = Named t \<Longrightarrow> probe_job_name t \<notin> js_jobs s \<Longrightarrow>
    probe_step s (set_phase i (Refused t) (add_job t s))"
| answer: "js_phase s i = Holding t u \<Longrightarrow> u + 2 \<le> js_clock s \<Longrightarrow> s1 \<in> {s, drop_job t s} \<Longrightarrow>
    probe_step s (set_phase i (Answered t u) s1)"
| cancel: "js_phase s i = Holding t u \<Longrightarrow> s1 \<in> {s, drop_job t s} \<Longrightarrow>
    probe_step s (set_phase i (Abandoned t u) s1)"
| expire: "(\<And>i u. js_phase s i = Holding t u \<Longrightarrow> u + 1 \<le> js_clock s) \<Longrightarrow> probe_step s (drop_job t s)"

definition probe_start :: "job_server \<Rightarrow> bool" where
  "probe_start s \<longleftrightarrow> (\<forall>i. js_phase s i = Waiting)"

text \<open>A check that created its job in the second it is named after and has it, or had its answer.\<close>

definition in_time :: "probe_phase \<Rightarrow> int \<Rightarrow> bool" where
  "in_time p t \<longleftrightarrow> p = Holding t t \<or> p = Answered t t"

text \<open>
  A name is not of the future, nor a creation; a job created in the second of its name exists until
  that second is over; an answer takes two seconds; and at most one check creates the job of a
  second in that second and keeps it.
\<close>

definition probe_inv :: "job_server \<Rightarrow> bool" where
  "probe_inv s \<longleftrightarrow>
     (\<forall>i t. js_phase s i = Named t \<longrightarrow> t \<le> js_clock s) \<and>
     (\<forall>i t u. js_phase s i = Holding t u \<longrightarrow> t \<le> u \<and> u \<le> js_clock s) \<and>
     (\<forall>i t. js_phase s i = Holding t t \<longrightarrow> t = js_clock s \<longrightarrow> probe_job_name t \<in> js_jobs s) \<and>
     (\<forall>i t u. js_phase s i = Answered t u \<longrightarrow> t \<le> u \<and> u + 2 \<le> js_clock s) \<and>
     (\<forall>i j t. in_time (js_phase s i) t \<longrightarrow> in_time (js_phase s j) t \<longrightarrow> i = j)"

lemma probe_inv_named: "probe_inv s \<Longrightarrow> js_phase s i = Named t \<Longrightarrow> t \<le> js_clock s"
  by (simp add: probe_inv_def)

lemma probe_inv_holding: "probe_inv s \<Longrightarrow> js_phase s i = Holding t u \<Longrightarrow> t \<le> u \<and> u \<le> js_clock s"
  by (simp add: probe_inv_def)

lemma probe_inv_exists:
  "probe_inv s \<Longrightarrow> js_phase s i = Holding (js_clock s) (js_clock s) \<Longrightarrow> probe_job_name (js_clock s) \<in> js_jobs s"
  unfolding probe_inv_def by blast

lemma probe_inv_answered:
  "probe_inv s \<Longrightarrow> js_phase s i = Answered t u \<Longrightarrow> t \<le> u \<and> u + 2 \<le> js_clock s"
  by (simp add: probe_inv_def)

lemma probe_inv_in_time:
  "probe_inv s \<Longrightarrow> in_time (js_phase s i) t \<Longrightarrow> in_time (js_phase s j) t \<Longrightarrow> i = j"
  by (simp add: probe_inv_def)

lemma itoa_inj: "itoa a = itoa b \<Longrightarrow> a = b"
  by (metis json_number_itoa json.inject(2) option.inject)

lemma probe_job_name_inj [simp]: "probe_job_name a = probe_job_name b \<longleftrightarrow> a = b"
  by (auto simp: probe_job_name_def dest: itoa_inj)

lemma in_time_simps [simp]:
  "in_time (Holding t u) v \<longleftrightarrow> t = v \<and> u = v" "in_time (Answered t u) v \<longleftrightarrow> t = v \<and> u = v"
  "\<not> in_time Waiting v" "\<not> in_time (Named t) v" "\<not> in_time (Abandoned t u) v" "\<not> in_time (Refused t) v"
  by (auto simp: in_time_def)

text \<open>One check moves: what has to be seen of its new phase and of the jobs of the current second.\<close>

lemma move_inv:
  assumes inv: "probe_inv s"
    and new: "\<And>t. p = Named t \<Longrightarrow> t \<le> js_clock s"
      "\<And>t u. p = Holding t u \<Longrightarrow> t \<le> u \<and> u \<le> js_clock s"
      "\<And>t. p = Holding t t \<Longrightarrow> t = js_clock s \<Longrightarrow> probe_job_name t \<in> J"
      "\<And>t u. p = Answered t u \<Longrightarrow> t \<le> u \<and> u + 2 \<le> js_clock s"
      "\<And>t j. in_time p t \<Longrightarrow> in_time (js_phase s j) t \<Longrightarrow> j = i"
    and kept: "\<And>j. j \<noteq> i \<Longrightarrow> js_phase s j = Holding (js_clock s) (js_clock s) \<Longrightarrow> probe_job_name (js_clock s) \<in> J"
  shows "probe_inv (set_phase i p (s\<lparr>js_jobs := J\<rparr>))"
  using new kept probe_inv_named [OF inv] probe_inv_holding [OF inv] probe_inv_answered [OF inv]
    probe_inv_in_time [OF inv]
  unfolding probe_inv_def set_phase_def by (auto split: if_splits)

lemma same_jobs: "s\<lparr>js_jobs := js_jobs s\<rparr> = s"
  by simp

text \<open>Deleting the job of a check cannot take the job another check created in time.\<close>

lemma delete_inv:
  assumes inv: "probe_inv s" and held: "js_phase s i = Holding t u" and s1: "s1 \<in> {s, drop_job t s}"
    and p: "p = Abandoned t u \<or> p = Answered t u \<and> u + 2 \<le> js_clock s"
  shows "probe_inv (set_phase i p s1)"
proof -
  have tu: "t \<le> u" "u \<le> js_clock s" using probe_inv_holding [OF inv held] by auto
  have same: "j = i" if "js_phase s j = Holding (js_clock s) (js_clock s)" "t = js_clock s" for j
    using probe_inv_in_time [OF inv, of j t i] that held tu by simp
  have one: "j = i" if "in_time p v" "in_time (js_phase s j) v" for j v
    using probe_inv_in_time [OF inv, of j v i] that p held by auto
  have "probe_inv (set_phase i p (s\<lparr>js_jobs := J\<rparr>))" if J: "J = js_jobs s \<or> J = js_jobs s - {probe_job_name t}" for J
  proof (rule move_inv [OF inv])
    fix j assume "j \<noteq> i" "js_phase s j = Holding (js_clock s) (js_clock s)"
    then show "probe_job_name (js_clock s) \<in> J" using same [of j] probe_inv_exists [OF inv, of j] J by auto
  qed (use p tu one in auto)
  from this [of "js_jobs s"] this [of "js_jobs s - {probe_job_name t}"] s1
  show ?thesis by (auto simp: drop_job_def)
qed

lemma drop_inv:
  assumes "probe_inv s" and "\<And>i. js_phase s i \<noteq> Holding t t \<or> t < js_clock s"
  shows "probe_inv (drop_job t s)"
  using assms unfolding probe_inv_def drop_job_def by auto

lemma step_inv: "probe_step s s' \<Longrightarrow> probe_inv s \<Longrightarrow> probe_inv s'"
proof (induction rule: probe_step.induct)
  case (tick s)
  then show ?case unfolding probe_inv_def
    by (auto intro: order_trans) (smt (verit) in_time_simps(1))+
next
  case (name s i)
  then show ?case using move_inv [OF name(2), of "Named (js_clock s)" "js_jobs s" i] probe_inv_exists [OF name(2)]
    by simp
next
  case (create s i t)
  have "\<not> in_time (js_phase s j) (js_clock s)" if "t = js_clock s" for j
    using that probe_inv_exists [OF create(3), of j] probe_inv_answered [OF create(3), of j] create(2)
    by (auto simp: in_time_def)
  with create show ?case
    using move_inv [OF create(3), of "Holding t (js_clock s)" "insert (probe_job_name t) (js_jobs s)" i]
      probe_inv_named [OF create(3,1)] probe_inv_exists [OF create(3)]
    by (auto simp: add_job_def)
next
  case (refuse s i t)
  then show ?case using move_inv [OF refuse(2), of "Refused t" "js_jobs s" i] probe_inv_exists [OF refuse(2)]
    by simp
next
  case (lost_reply s i t)
  then show ?case
    using move_inv [OF lost_reply(3), of "Refused t" "insert (probe_job_name t) (js_jobs s)" i]
      probe_inv_exists [OF lost_reply(3)]
    by (simp add: add_job_def)
next
  case (answer s i t u s1)
  then show ?case by (intro delete_inv) simp_all
next
  case (cancel s i t u s1)
  then show ?case by (intro delete_inv) simp_all
next
  case (expire s t)
  then show ?case by (intro drop_inv) force+
qed

definition probe_reaches :: "job_server \<Rightarrow> job_server \<Rightarrow> bool" where
  "probe_reaches = probe_step\<^sup>*\<^sup>*"

lemma reaches_inv:
  assumes "probe_reaches s s'" and "probe_start s"
  shows "probe_inv s'"
proof -
  have "probe_inv s" using assms(2) by (simp add: probe_start_def probe_inv_def)
  with assms(1) show ?thesis
    unfolding probe_reaches_def by (induction rule: rtranclp_induct) (auto intro: step_inv)
qed

subsection \<open>A probe that ends between two polls\<close>

text \<open>
  The launcher polls every 2000 ms. The pod appears at \<open>a\<close>, ends at \<open>f\<close> and is removed with its job
  at \<open>g\<close>; times are milliseconds after \<open>Create\<close>, and \<open>n\<close> is the number of polls before the deadline.
\<close>

definition poll_at :: "string \<Rightarrow> int \<Rightarrow> int \<Rightarrow> int \<Rightarrow> int \<Rightarrow> poll" where
  "poll_at pod a f g t =
     (if t < a \<or> g \<le> t then PollNone else if t < f then PollPod pod ''Running'' else PollPod pod ''Succeeded'')"

definition poll_times :: "nat \<Rightarrow> int list" where
  "poll_times n = map (\<lambda>k. 2000 * (int k + 1)) [0..<n]"

lemma polls_unfinished:
  assumes "\<forall>t \<in> set ts. \<not> (f \<le> t \<and> t < g)" and "seen \<in> {[], pod}"
  shows "\<exists>seen' \<in> {[], pod}. poll_loop (map (poll_at pod a f g) ts) seen = Inr seen'"
  using assms by (induction ts arbitrary: seen) (auto simp: poll_at_def not_less)

text \<open>With the time to live of one second, a probe that ends in the first half of a poll interval is lost.\<close>

lemma early_probe_lost:
  assumes "eo_job_image opts \<noteq> []" and "jw_create w = None"
    and "jw_polls w = map (poll_at pod a f (f + 1000)) (poll_times n)" and "jw_logs w pod = Inl gone"
    and "0 < f mod 2000" and "f mod 2000 \<le> 1000"
  shows "\<exists>m. fst (InClusterJob w opts) = (None, Some (unavailable m))"
proof -
  have "\<not> (f \<le> 2000 * k \<and> 2000 * k < f + 1000)" for k :: int
  proof
    assume k: "f \<le> 2000 * k \<and> 2000 * k < f + 1000"
    have f: "f = 2000 * (f div 2000) + f mod 2000" by simp
    have "f div 2000 < k" using k f assms(5) by linarith
    moreover have "k < f div 2000 + 1" using k f assms(6) by linarith
    ultimately show False by linarith
  qed
  then have "\<forall>t \<in> set (poll_times n). \<not> (f \<le> t \<and> t < f + 1000)"
    unfolding poll_times_def set_map by blast
  then have "\<exists>seen' \<in> {[], pod}. poll_loop (jw_polls w) [] = Inr seen'"
    unfolding assms(3) by (intro polls_unfinished) simp_all
  then show ?thesis
    using assms(1,2,4) by (auto simp: InClusterJob_def read_probe_def Let_def)
qed

lemma early_probe_lost_example:
  "\<exists>m. fst (InClusterJob (probe_job\<lparr>jw_polls := map (poll_at ''p'' 500 2300 3300) (poll_times 30), jw_logs := (\<lambda>_. Inl ''not found'')\<rparr>)
     ((demo_options [])\<lparr>eo_job_image := ''khealth''\<rparr>)) = (None, Some (unavailable m))"
  by (rule early_probe_lost [where a = 500 and f = 2300 and n = 30 and pod = "''p''"]) (simp_all add: probe_job_def)

subsection \<open>What a check sees\<close>

text \<open>\<open>saw p w\<close>: the clients \<open>w\<close> behaved towards a call of \<open>InClusterJob\<close> as its end \<open>p\<close> says.\<close>

fun saw :: "probe_phase \<Rightarrow> job_world \<Rightarrow> bool" where
  "saw (Answered t u) w = (jw_now w = t \<and> jw_create w = None \<and> (\<exists>pod. poll_loop (jw_polls w) [] = Inr pod))"
| "saw (Abandoned t u) w = (jw_now w = t \<and> jw_create w = None \<and> (\<forall>pod. poll_loop (jw_polls w) [] = Inr pod \<longrightarrow> pod = []))"
| "saw (Refused t) w = (jw_now w = t \<and> (\<exists>e. jw_create w = Some e))"
| "saw p w = False"

definition etcd_checks :: "cluster check list" where
  "etcd_checks = [etcdHealth, etcdSize, etcdDefrag, etcdMembers]"

definition with_job :: "cluster \<Rightarrow> job_world \<Rightarrow> cluster" where
  "with_job c w = c\<lparr>cl_etcd := (cl_etcd c)\<lparr>ec_job := w\<rparr>\<rparr>"

lemma failed_collect:
  assumes "collectEtcdFor c = Inl e" and "chk \<in> set etcd_checks"
  shows "statuses (chk_run chk c) \<subseteq> {StatusSkipped, StatusUnknown}"
proof -
  have "statuses (etcd_error_findings ident e) \<subseteq> {StatusSkipped, StatusUnknown}" for ident
    by (cases e) (simp_all add: statuses_etcd_error)
  moreover have "\<exists>ident. chk_run chk c = etcd_error_findings ident e"
    using assms
    by (auto simp: etcd_checks_def etcdHealth_def etcdSize_def etcdDefrag_def etcdMembers_def
        etcdHealth_Run_def etcdSize_Run_def etcdDefrag_Run_def etcdMembers_Run_def)
  ultimately show ?thesis by metis
qed

lemma lost_job:
  assumes "ef_mode (ke_etcd (cl_env c)) = EtcdInClusterJob" and "saw p w" and "\<nexists>t u. p = Answered t u"
  shows "\<exists>e. collectEtcdFor (with_job c w) = Inl e"
proof -
  have "snd (fst (InClusterJob w opts)) \<noteq> None" for opts
    using assms(2,3) by (cases p) (auto simp: InClusterJob_def read_probe_def Let_def split: sum.splits)
  from this [of "with_defaults (etcd_options_for (ke_etcd (cl_env c)))"] show ?thesis
    unfolding collect_for(1) Collect_modes collect_for(2)
    by (auto simp: with_job_def assms(1) etcd_modes error_first_def)
qed

text \<open>
  C27. Probes named in the same second collide: they ask for jobs of the same name. However the
  steps of the four etcd checks interleave in mode in-cluster, when all four name their job in the
  same second, at most one of the checks whose \<open>Create\<close> also reaches the server in that second can
  judge etcd; every other check is SKIP or UNKNOWN, unless its \<open>Create\<close> was delayed into a later second.
\<close>

theorem concurrent_probes_collide:
  assumes "probe_reaches s s'" and "probe_start s" and "ef_mode (ke_etcd (cl_env c)) = EtcdInClusterJob"
    and "\<forall>chk \<in> set etcd_checks. jw_now (w (chk_id chk)) = t \<and> saw (js_phase s' (chk_id chk)) (w (chk_id chk))"
  shows "\<exists>k. \<forall>chk \<in> set etcd_checks. chk_id chk \<noteq> k \<longrightarrow>
           statuses (chk_run chk (with_job c (w (chk_id chk)))) \<subseteq> {StatusSkipped, StatusUnknown} \<or>
           (\<exists>u > t. js_phase s' (chk_id chk) = Answered t u)"
proof -
  have inv: "probe_inv s'" by (rule reaches_inv [OF assms(1,2)])
  have lost: "statuses (chk_run chk (with_job c (w (chk_id chk)))) \<subseteq> {StatusSkipped, StatusUnknown} \<or>
      (\<exists>u > t. js_phase s' (chk_id chk) = Answered t u)"
    if chk: "chk \<in> set etcd_checks" and late: "\<not> in_time (js_phase s' (chk_id chk)) t" for chk
  proof (cases "\<exists>v u. js_phase s' (chk_id chk) = Answered v u")
    case True
    then obtain v u where a: "js_phase s' (chk_id chk) = Answered v u" by blast
    with assms(4) chk have "v = t" by auto
    with a late probe_inv_answered [OF inv a] show ?thesis by auto
  next
    case False
    then show ?thesis using lost_job [OF assms(3)] failed_collect assms(4) chk by metis
  qed
  show ?thesis
  proof (cases "\<exists>i. in_time (js_phase s' i) t")
    case True
    then obtain k where k: "in_time (js_phase s' k) t" by blast
    show ?thesis by (rule exI [where x = k]) (use lost probe_inv_in_time [OF inv k] in blast)
  qed (use lost in blast)
qed

text \<open>
  A run in which \<open>etcd.health\<close> comes first and gets its answer and two others are refused. The
  \<open>Create\<close> of \<open>etcd.members\<close> is delayed until the first job is gone; it is answered too.
\<close>

definition quiet :: job_server where
  "quiet = \<lparr>js_clock = 100, js_jobs = {}, js_phase = (\<lambda>_. Waiting)\<rparr>"

definition collided :: job_server where
  "collided = \<lparr>js_clock = 104, js_jobs = {}, js_phase = (\<lambda>_. Waiting)(''etcd.health'' := Answered 100 100,
     ''etcd.size'' := Refused 100, ''etcd.defrag'' := Refused 100, ''etcd.members'' := Answered 100 102)\<rparr>"

lemma reaches_step: "probe_step s s1 \<Longrightarrow> probe_reaches s1 s' \<Longrightarrow> probe_reaches s s'"
  unfolding probe_reaches_def by (rule converse_rtranclp_into_rtranclp)

lemma quiet_collides: "probe_reaches quiet collided"
proof -
  let ?named = "\<lparr>js_clock = 100, js_jobs = {}, js_phase = (\<lambda>_. Waiting)(''etcd.health'' := Named 100,
     ''etcd.size'' := Named 100, ''etcd.defrag'' := Named 100, ''etcd.members'' := Named 100)\<rparr>"
  let ?refused = "(js_phase ?named)(''etcd.health'' := Holding 100 100, ''etcd.size'' := Refused 100, ''etcd.defrag'' := Refused 100)"
  let ?freed = "\<lparr>js_clock = 102, js_jobs = {}, js_phase = ?refused(''etcd.health'' := Answered 100 100)\<rparr>"
  have "probe_reaches quiet ?named"
    by (rule reaches_step [OF name [of _ "''etcd.health''"]], simp add: quiet_def,
        rule reaches_step [OF name [of _ "''etcd.size''"]], simp add: quiet_def set_phase_def,
        rule reaches_step [OF name [of _ "''etcd.defrag''"]], simp add: quiet_def set_phase_def,
        rule reaches_step [OF name [of _ "''etcd.members''"]])
      (simp_all add: quiet_def set_phase_def probe_reaches_def)
  moreover have "probe_reaches ?named ?freed"
    by (rule reaches_step [OF create [of _ "''etcd.health''" 100]], simp, simp,
        rule reaches_step [OF refuse [of _ "''etcd.size''" 100]], simp add: set_phase_def add_job_def,
        rule reaches_step [OF refuse [of _ "''etcd.defrag''" 100]], simp add: set_phase_def add_job_def,
        rule reaches_step [OF tick], rule reaches_step [OF tick],
        rule reaches_step [OF answer [OF _ _ insertI2 [OF singletonI], of _ "''etcd.health''" 100 100]])
      (simp_all add: set_phase_def add_job_def drop_job_def probe_reaches_def fun_upd_twist)
  moreover have "probe_reaches ?freed collided"
    by (rule reaches_step [OF create [of _ "''etcd.members''" 100]], simp, simp,
        rule reaches_step [OF tick], rule reaches_step [OF tick],
        rule reaches_step [OF answer [OF _ _ insertI2 [OF singletonI], of _ "''etcd.members''" 100 102]])
      (simp_all add: set_phase_def add_job_def drop_job_def probe_reaches_def collided_def fun_upd_twist)
  ultimately show ?thesis unfolding probe_reaches_def by (meson rtranclp_trans)
qed

definition job_cluster :: cluster where
  "job_cluster = empty_cluster\<lparr>cl_env := (cl_env empty_cluster)\<lparr>ke_etcd := no_etcd_flags\<lparr>
     ef_mode := EtcdInClusterJob, ef_job_image := ''khealth''\<rparr>\<rparr>\<rparr>"

definition job_world_of :: "string \<Rightarrow> job_world" where
  "job_world_of i = probe_job\<lparr>jw_now := 100,
     jw_create := if i \<in> {''etcd.health'', ''etcd.members''} then None else Some ''already exists''\<rparr>"

theorem concurrent_probes_collide_witness:
  "\<exists>k. \<forall>chk \<in> set etcd_checks. chk_id chk \<noteq> k \<longrightarrow>
     statuses (chk_run chk (with_job job_cluster (job_world_of (chk_id chk)))) \<subseteq> {StatusSkipped, StatusUnknown} \<or>
     (\<exists>u > 100. js_phase collided (chk_id chk) = Answered 100 u)"
proof (rule concurrent_probes_collide [OF quiet_collides, where t = 100])
  show "\<forall>chk \<in> set etcd_checks. jw_now (job_world_of (chk_id chk)) = 100 \<and>
      saw (js_phase collided (chk_id chk)) (job_world_of (chk_id chk))"
    by (simp add: etcd_checks_def etcdHealth_def etcdSize_def etcdDefrag_def etcdMembers_def collided_def
        job_world_of_def probe_job_def)
qed (simp_all add: probe_start_def quiet_def job_cluster_def)

end
