(* ===== verification/Spec2Isabelle.thy ===== *)
theory Spec2Isabelle
  imports Prelude Result Baseline BaselineFile Registry Runner Watch Kube Cli Wrapper Etcd CheckBase
    AllChecks Render RenderTable RenderPlain BaselineFlow WatchView WatchLive Commands
    EtcdJobs
begin
text \<open>
  This library verifies \<open>khealth\<close>, the command line tool of this repository: it runs read-only
  health checks against a Kubernetes cluster, prints a report and turns it into an exit status,
  or shows the checks in a terminal that refreshes. Paths are below \<open>src/\<close>.

  \<^bold>\<open>The program and the theories.\<close> A command builds an environment, selects checks from a registry, runs
  them on a pool of goroutines, and passes the report on to the baseline options, a renderer and
  the exit status. In the order of the calls:

  \<^item> \<open>Prelude\<close>, \<open>GoLib\<close>, \<open>GoFloat\<close>, \<open>GoTime\<close>, \<open>GoDuration\<close>, \<open>Runes\<close>, \<open>Json\<close>: what the program uses of
    Go. \<open>GoLib\<close> has numbers as text, \<open>%q\<close>, strings and durations; \<open>GoFloat\<close> has \<open>float64\<close> as exact
    rationals with rounding to 53 bits; \<open>GoTime\<close> has the calendar, the layouts that are printed and the
    reading of RFC 3339, with the law that a time stamp of JSON reads back; \<open>GoDuration\<close> has
    \<open>time.ParseDuration\<close> with its overflow tests; \<open>Runes\<close> cuts byte strings as \<open>range\<close> does; \<open>Json\<close>
    is \<open>encoding/json\<close> as a printer, a lexer and a token machine, with the law that a printed value
    parses back and the locale \<open>json_struct\<close> of a struct that is written and read as JSON.
  \<^item> \<open>Result\<close> (\<open>internal/result/result.go\<close>): statuses, findings, reports, \<open>Worst\<close>, \<open>ExitCode\<close>.
    \<open>Baseline\<close> and \<open>BaselineFile\<close> (\<open>baseline.go\<close>): \<open>Compare\<close>, and the file as text. The locale
    \<open>finding_identity\<close> states what the three places that build the identity of a finding share.
  \<^item> \<open>Registry\<close> (\<open>internal/checks/registry.go\<close>, \<open>distro.go\<close>, \<open>distro_detect.go\<close>): registration, \<open>Filter\<close>,
    distributions.
  \<^item> \<open>Kube\<close> (\<open>internal/kube/kube.go\<close>): launch mode, namespace scope, cluster name.
  \<^item> \<open>Cluster\<close>, \<open>CheckBase\<close>: what a check can see, as the record \<open>cluster\<close> (one field for each call of
    client-go), and the scan that most checks are, as a locale with its laws. \<open>PodChecks\<close>,
    \<open>NodeChecks\<close>, \<open>WorkloadChecks\<close>, \<open>StorageChecks\<close>, \<open>ControlPlaneChecks\<close>, \<open>OperatorChecks\<close> and \<open>EtcdChecks\<close>
    have the 50 checks of \<open>internal/checks\<close>, each as its metadata, its \<open>Run\<close> method and the functions
    that one calls; \<open>NodeStats\<close> has the raw requests of the node checks and the JSON they decode.
    \<open>AllChecks\<close> is the registry that the \<open>init\<close> functions fill.
  \<^item> \<open>EtcdStatus\<close>, \<open>EtcdCtl\<close>, \<open>Etcd\<close> (\<open>internal/etcd\<close>, \<open>internal/cli/etcd_probe.go\<close>): the status of etcd
    and its JSON, the JSON of \<open>etcdctl\<close>, the four modes, their ladder and the probe job. \<open>EtcdJobs\<close>: the
    four etcd checks with their probe jobs side by side, as a step relation.
  \<^item> \<open>Runner\<close> (\<open>internal/runner/runner.go\<close>): feeder, workers, collector and context as a step relation.
  \<^item> \<open>Render\<close>, \<open>RenderTable\<close>, \<open>RenderPlain\<close> (\<open>internal/render\<close>): the pretty, compact and table renderers as
    the list of strings they write, and the absence of escape bytes.
  \<^item> \<open>Cli\<close> (\<open>internal/cli/check.go\<close>, \<open>cmd/khealth/main.go\<close>, \<open>render.go\<close>, \<open>json.go\<close>, \<open>yaml.go\<close>): the \<open>check\<close> command
    from its flags to files, output and exit status. \<open>BaselineFlow\<close>: several commands in a row.
  \<^item> \<open>Watch\<close>, \<open>WatchView\<close>, \<open>WatchLive\<close> (\<open>internal/watch\<close>): the model of the terminal program and its event loop
    as a step relation, the screen, and infinite sessions.
  \<^item> \<open>Commands\<close> (the rest of \<open>internal/cli\<close>, \<open>internal/version\<close>): what each subcommand does.
  \<^item> \<open>Wrapper\<close> (\<open>.github/setup.js\<close>): the outer layer of the script that the editor hooks start.
  \<^item> This theory: the properties that span all of it, from the cluster to the exit status and to the
    screen of a watch session.

  \<^bold>\<open>How state and effects are modelled.\<close> A Go struct is a record, a result with an error is a sum or a
  pair of options, a named string type is \<open>string\<close> with its constants, and a map is a function, a set of keys,
  or an association list where order matters. Slices that share an array (\<open>--only-unhealthy\<close>) are lists updated by index. Files
  are a map from paths to contents that the commands pass on. A command returns its files, its output, what
  it writes to the standard error itself, and its error. Goroutines and the event loop of the watch are inductive step relations; what holds for every interleaving is an invariant by rule
  induction. \<open>int64\<close> sums of sizes wrap explicitly, and capabilities are \<open>32 word\<close>.

  \<^bold>\<open>What the lemmas show.\<close> For the checks: the contract that every one reports under its own id with a
  known status, their verdict bands, the exact findings of the references of pods, and what all of them
  do when every request to the API server fails. For the runner: no
  interleaving loses or repeats a finding, no deadlock, no infinite schedule. For baselines: text round
  trips, the partition that \<open>Compare\<close> makes, and what two commands in a row print. For etcd: the totals
  of a status, the ladder of modes, the way of a status from the probe to the launcher, and what
  happens to the four checks when their jobs meet, with naming and creating a job as two steps. For the
  renderers: alignment, widths, wrapping, the lines of the output of a table, and the bytes that are
  not added to those of the report. For the watch: the invariant of reachable sessions, what the
  screen shows and marks, and that it keeps being refreshed under two fairness conditions. Properties
  that record a divergence (a name such as \<open>same_path_hides_new\<close>) state what the code does.

  \<^bold>\<open>Bounds.\<close> Percentages are shown equal to integer bands up to \<open>2 ^ 44\<close> (usage) and 16 TiB (etcd), far
  above real sizes; beyond 53 bits the rounding of \<open>float64\<close> is real. JSON is nested at most 10000
  deep, as in Go. A line of \<open>/readyz\<close> is read up to the 65536 bytes of \<open>bufio.Scanner\<close>. A table fits the
  terminal from 34 columns on, the floor of its column widths. No definition uses fuel: loops are
  recursive functions with measures.

  \<^bold>\<open>Parameters.\<close> Code outside the repository is an argument: client-go and the clock (\<open>cluster\<close>, \<open>kube_world\<close>),
  the etcd client, exec and pod logs (\<open>direct_world\<close>, \<open>pod_world\<close>, \<open>job_world\<close>, \<open>api_world\<close>), the terminal and the
  write errors (\<open>out_world\<close>, \<open>out_params\<close>), the time zone, the conversion of JSON to YAML and the styles of lipgloss
  (\<open>view_world\<close>). Hypotheses about them are named in the theorems; that of a time zone says that its
  offset is a number of minutes, since RFC 3339 has no seconds there.

  \<^bold>\<open>Not modelled.\<close> The parsing of the command line and the help texts (cobra); the bubbletea runtime beyond
  the step relation; the TLS dial and \<open>url.Parse\<close>, whose rules for hosts depend on the release of Go;
  the mutex of the registry (registration is sequential); \<open>IsJobAlreadyExists\<close>, a one-line helper that
  nothing calls; the elements that \<open>json.Unmarshal\<close> finds beyond the length of a
  slice it grows again; a time stamp with JSON escapes in it, which Go reads before it decodes them;
  \<open>%q\<close> of unprintable text beyond ASCII; and the obfuscated program inside
  \<open>setup.js\<close>, which is data to the decoder modelled in \<open>Wrapper\<close>.
\<close>

section \<open>From the cluster to the exit status\<close>

text \<open>
  \<open>run_is_pool\<close> says what \<open>cp_run\<close> stands for: \<open>runner.Run\<close> on the checks it is given, by some
  schedule of the worker pool that returns. \<open>ctx\<close> is the state of its context at the end: live, past
  the deadline, or cancelled by a signal. \<open>see\<close> is what a check sees of the cluster (the environment
  and the deadline), \<open>wt\<close> is \<open>context.WithTimeout\<close> and \<open>dur\<close> the measured durations; \<open>runChecks\<close>
  leaves both timeouts of the runner unset.
\<close>

type_synonym 'e run_context = "kube_env \<Rightarrow> duration \<Rightarrow> 'e check list \<Rightarrow> run_options \<Rightarrow> ctx_err"

definition run_is_pool ::
  "(kube_env \<Rightarrow> duration \<Rightarrow> 'e) \<Rightarrow> (duration \<Rightarrow> 'e \<Rightarrow> 'e) \<Rightarrow> (string \<Rightarrow> duration) \<Rightarrow> 'e run_context \<Rightarrow>
     (kube_env \<Rightarrow> duration \<Rightarrow> 'e check list \<Rightarrow> run_options \<Rightarrow> report \<times> run_error option) \<Rightarrow> bool" where
  "run_is_pool see wt dur ctx run \<longleftrightarrow>
     (\<forall>env timeout cs opts. \<exists>s now.
        pool_returns (runOne opts wt (see env timeout) dur) (worker_count opts) cs s \<and>
        p_ctx s = ctx env timeout cs opts \<and>
        run env timeout cs opts = Run_result now (Some (ke_cluster env)) s)"

text \<open>No run is cut short by SIGINT or SIGTERM; the deadline may pass.\<close>

definition uninterrupted :: "'e run_context \<Rightarrow> bool" where
  "uninterrupted ctx \<longleftrightarrow> (\<forall>env timeout cs opts. ctx env timeout cs opts \<noteq> CtxCanceled)"

text \<open>The statuses the selected checks report on their own, one at a time.\<close>

definition selected_statuses ::
  "'e registry \<Rightarrow> cli_flags \<Rightarrow> string list \<Rightarrow> string \<Rightarrow> capabilities \<Rightarrow> 'e \<Rightarrow> status set" where
  "selected_statuses r g cats distro caps e =
     (\<Union>c \<in> set (Filter_checks r (g_checks g) (g_skip_checks g) cats distro).
        if Has caps (chk_requires c) then f_status ` set (chk_run c e) else {StatusSkipped})"

text \<open>A passed deadline is an error of \<open>Run\<close>, so without an error and a signal the context was live.\<close>

lemma run_is_pool_findings:
  assumes "run_is_pool see wt dur ctx run" and "uninterrupted ctx" and "snd (run env timeout cs opts) = None"
  shows "set (r_findings (fst (run env timeout cs opts))) =
           set (concat (map (runOne opts wt (see env timeout) dur) cs))"
proof -
  obtain s now where s: "pool_returns (runOne opts wt (see env timeout) dur) (worker_count opts) cs s"
      "p_ctx s = ctx env timeout cs opts" "run env timeout cs opts = Run_result now (Some (ke_cluster env)) s"
    using assms(1) unfolding run_is_pool_def by metis
  have "p_ctx s \<noteq> CtxDeadline" using assms(3) s(3) by (simp add: Run_result_def split: if_splits)
  then have live: "p_ctx s = CtxLive"
    using assms(2) s(2) unfolding uninterrupted_def by (metis ctx_err.exhaust)
  have "0 < worker_count opts" by (simp add: worker_count_def defaultWorkers_def)
  from pool_returns_live [OF s(1) this live] have
    "set (p_report s) = set (concat (map (runOne opts wt (see env timeout) dur) cs))"
    by (metis set_mset_mset)
  then show ?thesis using s(3) by (simp add: Run_result_def)
qed

lemma runOne_statuses:
  "opt_timeout opts \<le> 0 \<Longrightarrow> f_status ` set (runOne opts wt e dur c) =
     (if Has (opt_caps opts) (chk_requires c) then f_status ` set (chk_run c e) else {StatusSkipped})"
  by (simp add: runOne_def Let_def image_image)

lemma selected_statuses_only [simp]:
  "selected_statuses r (g\<lparr>g_only_unhealthy := b\<rparr>) = selected_statuses r g"
  by (simp add: selected_statuses_def fun_eq_iff)

definition resolved :: "'e check_params \<Rightarrow> cli_flags \<Rightarrow> kube_env \<Rightarrow> duration \<Rightarrow> string \<Rightarrow> bool" where
  "resolved p g env timeout distro \<longleftrightarrow>
     Build (cp_world p) (kube_options_for g) = Inr env \<and>
     parseTimeout (g_timeout g) = Inr timeout \<and>
     (if g_distro g \<in> {[], DistroAuto} then distro = DetectDistro (Some (cp_detect p env))
      else distro = g_distro g \<and> g_distro g \<in> set AllDistros)"

lemma resolved_only [simp]: "resolved p (g\<lparr>g_only_unhealthy := b\<rparr>) = resolved p g"
  by (simp add: resolved_def fun_eq_iff)

lemma runChecks_resolved:
  assumes "runChecks p g cats = Inr rep" and "\<not> g_only_unhealthy g"
  obtains env timeout distro r where "resolved p g env timeout distro"
    "cp_run p env timeout (Filter_checks (cp_registry p) (g_checks g) (g_skip_checks g) cats distro)
       \<lparr>opt_workers = 0, opt_timeout = 0, opt_caps = capabilitiesFor (Some env)\<rparr> = (r, None)"
    "r_findings rep = r_findings r"
proof -
  from assms(1) obtain env timeout d0 where e:
    "Build (cp_world p) (kube_options_for g) = Inr env"
    "parseTimeout (g_timeout g) = Inr timeout"
    "ParseDistro (g_distro g) = Inr d0"
    by (auto simp: runChecks_def split: sum.splits)
  define d where "d = (if d0 = DistroAuto then DetectDistro (Some (cp_detect p env)) else d0)"
  have "resolved p g env timeout d"
    using e ParseDistro_result [OF e(3)]
    by (auto simp: resolved_def d_def ParseDistro_def AllDistros_def split: if_splits)
  moreover obtain r where "cp_run p env timeout
       (Filter_checks (cp_registry p) (g_checks g) (g_skip_checks g) cats d)
       \<lparr>opt_workers = 0, opt_timeout = 0, opt_caps = capabilitiesFor (Some env)\<rparr> = (r, None)"
    "r_findings rep = r_findings r"
    using assms e
    by (auto simp: runChecks_def applyOnlyUnhealthy_def Let_def d_def [symmetric]
        split: prod.splits option.splits)
  ultimately show ?thesis by (rule that)
qed

lemma ExitCode_statuses:
  "ExitCode r strict =
     (if StatusCritical \<in> f_status ` set (r_findings r) then 1
      else if strict \<and> StatusWarning \<in> f_status ` set (r_findings r) then 2 else 0)"
  by (simp add: ExitCode_cases image_iff eq_commute [of StatusCritical] eq_commute [of StatusWarning]
      Bex_def)

lemma run_is_pool_statuses:
  assumes "run_is_pool see wt dur ctx (cp_run p)" and "uninterrupted ctx"
    and "cp_run p env timeout (Filter_checks (cp_registry p) (g_checks g) (g_skip_checks g) cats distro)
       \<lparr>opt_workers = 0, opt_timeout = 0, opt_caps = caps\<rparr> = (r, None)"
  shows "f_status ` set (r_findings r) = selected_statuses (cp_registry p) g cats distro caps (see env timeout)"
  using run_is_pool_findings [OF assms(1,2), of env timeout
      "Filter_checks (cp_registry p) (g_checks g) (g_skip_checks g) cats distro"
      "\<lparr>opt_workers = 0, opt_timeout = 0, opt_caps = caps\<rparr>"] assms(3)
  by (simp add: selected_statuses_def image_UN runOne_statuses)

lemma unfiltered_statuses:
  assumes "run_is_pool see wt dur ctx (cp_run p)" and "uninterrupted ctx"
    and "runChecks p g cats = Inr raw" and "\<not> g_only_unhealthy g"
  obtains env timeout distro where "resolved p g env timeout distro"
    "f_status ` set (r_findings raw) =
       selected_statuses (cp_registry p) g cats distro (capabilitiesFor (Some env)) (see env timeout)"
  using runChecks_resolved [OF assms(3,4)] run_is_pool_statuses [OF assms(1,2)] that by metis

text \<open>
  C1. The exit status means what the documentation says: when \<open>khealth check\<close> is not interrupted by a
  signal and does not end in a tool error (a passed deadline is one), the status is 1 exactly when one
  of the selected checks, run on its own, reports a CRIT finding, 2 exactly when none does, the mode is
  strict and one reports WARN, and 0 otherwise. The schedule of the workers, \<open>--only-unhealthy\<close>, the
  baseline options and the output format do not change it. For an interrupted run it does not hold:
  \<open>interrupted_run_exits_zero\<close> of \<open>Cli\<close>.
\<close>

theorem exit_status_end_to_end:
  assumes "run_is_pool see wt dur ctx (cp_run p)" and "uninterrupted ctx"
    and "\<not> tool_error (o_err (check_cmd p q g cats files))"
  shows "\<exists>env timeout distro. resolved p g env timeout distro \<and>
     main_exit (o_err (check_cmd p q g cats files)) =
       (let S = selected_statuses (cp_registry p) g cats distro (capabilitiesFor (Some env))
                  (see env timeout)
        in if StatusCritical \<in> S then 1
           else if g_strict g \<and> StatusWarning \<in> S then 2 else 0)"
proof -
  obtain raw where raw: "runChecks p (g\<lparr>g_only_unhealthy := False\<rparr>) cats = Inr raw"
    and exit: "main_exit (o_err (check_cmd p q g cats files)) = ExitCode raw (g_strict g)"
    using assms(3) check_cmd_exit [of p q g cats files] by auto
  obtain env timeout distro where r: "resolved p g env timeout distro"
    and f: "f_status ` set (r_findings raw) = selected_statuses (cp_registry p) g cats distro
       (capabilitiesFor (Some env)) (see env timeout)"
    using unfiltered_statuses [OF assms(1,2) raw] by simp metis
  show ?thesis
    using r unfolding exit ExitCode_statuses f Let_def by blast
qed

text \<open>A concrete command: an in-cluster run of one critical check, on the sequential schedule.\<close>

definition demo_flags :: cli_flags where
  "demo_flags = \<lparr>g_kubeconfig = [], g_context = [], g_namespace = [], g_all_namespaces = True,
     g_launch_mode = ''auto'', g_output = ''table'', g_only_unhealthy = True, g_strict = False,
     g_checks = [], g_skip_checks = [], g_distro = ''k3s'', g_baseline = [],
     g_save_baseline = [], g_timeout = [], g_log_level = [], g_config = [], g_etcd = no_etcd_flags\<rparr>"

definition demo_params :: "unit check_params" where
  "demo_params = \<lparr>cp_world = demo_world,
     cp_detect = (\<lambda>_. \<lparr>de_lease = (\<lambda>_ _. False), de_nodes = (\<lambda>_. None)\<rparr>),
     cp_registry = \<lparr>reg_m = [(''a'', crit_check), (''b'', demo_check ''b'' [] None)]\<rparr>,
     cp_run = (\<lambda>env timeout cs opts. Run_result 0 (Some (ke_cluster env))
       (seq_pool (runOne opts (\<lambda>_ _. ()) () (\<lambda>_. 1)) (worker_count opts) cs))\<rparr>"

lemma demo_run_is_pool:
  "run_is_pool (\<lambda>_ _. ()) (\<lambda>_ _. ()) (\<lambda>_. 1) (\<lambda>_ _ _ _. CtxLive) (cp_run demo_params)"
proof -
  have "0 < worker_count opts" for opts by (simp add: worker_count_def defaultWorkers_def)
  then show ?thesis
    unfolding run_is_pool_def demo_params_def
    by (auto simp: seq_pool_def intro!: exI seq_pool_returns [unfolded seq_pool_def])
qed

lemma demo_uninterrupted: "uninterrupted (\<lambda>_ _ _ _. CtxLive)"
  by (simp add: uninterrupted_def)

lemma demo_critical:
  "StatusCritical \<in> selected_statuses (cp_registry demo_params) demo_flags [] distro
     (capabilitiesFor (Some env)) ()"
  by (cases "ke_mode env = ModeInCluster")
    (auto simp: selected_statuses_def demo_params_def demo_flags_def Filter_checks_eq keeps_def
      stringSet_eq categoryMatch_iff AppliesToDistro_iff crit_check_def demo_check_def
      capabilitiesFor_def Has_or Has_refl)

theorem exit_status_end_to_end_witness:
  "main_exit (o_err (check_cmd demo_params piped_out demo_flags [] Map.empty)) = 1"
proof -
  have "\<not> tool_error (o_err (check_cmd demo_params piped_out demo_flags [] Map.empty))"
    by code_simp
  from exit_status_end_to_end [OF demo_run_is_pool demo_uninterrupted this] obtain env timeout distro where
    "resolved demo_params demo_flags env timeout distro"
    "main_exit (o_err (check_cmd demo_params piped_out demo_flags [] Map.empty)) =
       (let S = selected_statuses (cp_registry demo_params) demo_flags [] distro
                  (capabilitiesFor (Some env)) ()
        in if StatusCritical \<in> S then 1
           else if g_strict demo_flags \<and> StatusWarning \<in> S then 2 else 0)" by blast
  then show ?thesis by (simp add: demo_critical)
qed

subsection \<open>The same for a watch session\<close>

lemma runChecks_statuses:
  assumes "run_is_pool see wt dur ctx (cp_run p)" and "uninterrupted ctx" and "runChecks p g cats = Inr rep"
  obtains env timeout distro where "resolved p g env timeout distro"
    "f_status ` set (r_findings rep) =
       selected_statuses (cp_registry p) g cats distro (capabilitiesFor (Some env)) (see env timeout) -
       (if g_only_unhealthy g then {StatusOK, StatusSkipped} else {})"
proof -
  obtain raw where raw: "runChecks p (g\<lparr>g_only_unhealthy := False\<rparr>) cats = Inr raw"
      "rep = applyOnlyUnhealthy raw (g_only_unhealthy g)"
    using runChecks_only_unhealthy [OF assms(3)] by blast
  obtain env timeout distro where r: "resolved p g env timeout distro"
    and f: "f_status ` set (r_findings raw) = selected_statuses (cp_registry p) g cats distro
       (capabilitiesFor (Some env)) (see env timeout)"
    using unfiltered_statuses [OF assms(1,2) raw(1)] by simp metis
  have "f_status ` set (r_findings rep) =
      f_status ` set (r_findings raw) - (if g_only_unhealthy g then {StatusOK, StatusSkipped} else {})"
    by (auto simp: raw(2) applyOnlyUnhealthy_eq unhealthy_def)
  then show ?thesis using r unfolding f by (rule that [rotated])
qed

text \<open>
  C4. What a watch session shows is what the checks say: round \<open>n\<close> of \<open>khealth watch SCOPE\<close> runs
  \<open>runChecks\<close> on the cluster as it then is (\<open>ps n\<close>). In every reachable session, whatever the order
  in which the rounds end, the report on the screen is that of the round delivered last, and
  its statuses are those the selected checks report on their own in that round, without OK and
  SKIP under \<open>--only-unhealthy\<close>. The context of a round is its own, with a deadline, and no signal
  cancels it; past the deadline the round is an error and delivers no report.
\<close>

theorem watch_end_to_end:
  assumes "run_is_pool see wt dur ctx (cp_run (ps n))" and "uninterrupted ctx" and "map_of watch_scopes scope = Some cats"
    and "scope_reaches (\<lambda>k. watch_round show_err (ps k) g cats) interval l"
    and "l_done l = (n, rep) # rest"
  shows "m_rep (l_model l) = rep \<and>
    (\<exists>env timeout distro. resolved (ps n) g env timeout distro \<and>
       f_status ` set (r_findings (m_rep (l_model l))) =
         selected_statuses (cp_registry (ps n)) g cats distro (capabilitiesFor (Some env)) (see env timeout) -
         (if g_only_unhealthy g then {StatusOK, StatusSkipped} else {}))"
proof -
  have rep: "m_rep (l_model l) = rep"
    using watch_reaches_inv [OF scope_reaches_watch_reaches [OF assms(4)]] assms(5) by (simp add: loop_inv_def)
  have "watch_round show_err (ps n) g cats = Inr rep"
    using scope_done [OF assms(4), of n rep] assms(5) by simp
  then have "runChecks (ps n) g cats = Inr rep" by (simp add: watch_round_def split: sum.splits)
  from runChecks_statuses [OF assms(1,2) this] show ?thesis using rep by metis
qed

theorem watch_end_to_end_witness:
  "\<exists>l. scope_reaches (\<lambda>k. watch_round (\<lambda>_. []) demo_params demo_flags []) 10 l \<and>
     StatusCritical \<in> f_status ` set (r_findings (m_rep (l_model l)))"
proof -
  let ?res = "\<lambda>k :: nat. watch_round (\<lambda>_. []) demo_params demo_flags []"
  have "case ?res 0 of Inl _ \<Rightarrow> False | Inr _ \<Rightarrow> True" by code_simp
  then obtain rep where rep: "?res 0 = Inr rep" by (auto split: sum.splits)
  let ?l0 = "init_loop 10"
  let ?l1 = "deliver 0 (runOnce (?res 0) 0)
    (?l0\<lparr>l_running := removeAll 0 (l_running ?l0), l_done := (0, rep) # l_done ?l0\<rparr>)"
  have "scope_step ?res ?l0 ?l1"
    using scope_step.finish [of ?l0 0 ?res 0 0] rep by (simp add: init_loop_def Init_def)
  then have l: "scope_reaches ?res 10 ?l1" unfolding scope_reaches_def by (rule r_into_rtranclp)
  have d: "l_done ?l1 = (0, rep) # []" by (simp add: deliver_done init_loop_def issue_done del: deliver_simps)
  have "StatusCritical \<in> selected_statuses (cp_registry demo_params) demo_flags [] distro
      (capabilitiesFor (Some env)) ()" for distro env
    by (rule demo_critical)
  then show ?thesis
    using watch_end_to_end [where ps = "\<lambda>_. demo_params" and n = 0, OF demo_run_is_pool demo_uninterrupted _ l d, of "''cluster''"] l
    by (auto simp: watch_scopes_def demo_flags_def StatusCritical_def StatusOK_def StatusSkipped_def)
qed

end
